(* ===== verification/Prelude.thy ===== *)
theory Prelude imports Main "HOL-Library.Monad_Syntax" begin

text \<open>
  Shared by every theory of the development: the collections of simplification and
  introduction rules the component proofs use, and lemmas on lists, options and
  characters that no component owns.

  \<^item> \<open>js\<close>: unfolding rules of the JavaScript operators (\<open>Js_Value\<close>, \<open>Js_Uri\<close>);
  \<^item> \<open>api\<close>: unfolding rules of the request builders of \<open>web/src/api.js\<close>;
  \<^item> \<open>react\<close>: rules that decide the program predicates of \<open>Reactor\<close>.
\<close>

named_theorems js
named_theorems api
named_theorems react

section \<open>Lists and options\<close>

definition remove_nth :: "nat \<Rightarrow> 'a list \<Rightarrow> 'a list" where
  "remove_nth i xs = take i xs @ drop (Suc i) xs"

lemma remove_nth_simps [simp]:
  "remove_nth 0 (x # xs) = xs"
  "remove_nth (Suc i) (x # xs) = x # remove_nth i xs"
  "remove_nth i [] = []"
  by (simp_all add: remove_nth_def)

lemma set_remove_nth_subset: "set (remove_nth i xs) \<subseteq> set xs"
  by (auto simp: remove_nth_def dest: in_set_takeD in_set_dropD)

lemma set_remove_nth_cases:
  "x \<in> set xs \<Longrightarrow> i < length xs \<Longrightarrow> x = xs ! i \<or> x \<in> set (remove_nth i xs)"
proof (induction xs arbitrary: i)
  case (Cons a xs)
  then show ?case by (cases i) auto
qed simp

lemma in_set_remove_nthD: "x \<in> set (remove_nth i xs) \<Longrightarrow> x \<in> set xs"
  using set_remove_nth_subset by fast

lemma bind_Some_iff: "Option.bind m f = Some y \<longleftrightarrow> (\<exists>x. m = Some x \<and> f x = Some y)"
  by (cases m) auto

text \<open>A list of partial results: all of them, or none.\<close>

fun sequence :: "'a option list \<Rightarrow> 'a list option" where
  "sequence [] = Some []"
| "sequence (x # xs) = do { y \<leftarrow> x; ys \<leftarrow> sequence xs; Some (y # ys) }"

lemma sequence_map_Some [simp]: "sequence (map (\<lambda>x. Some (f x)) xs) = Some (map f xs)"
  by (induction xs) auto

lemma sequence_eq_Some: "sequence xs = Some ys \<longleftrightarrow> xs = map Some ys"
  by (induction xs arbitrary: ys) (auto simp: bind_Some_iff)

lemma sequence_total: "(\<And>x. x \<in> set xs \<Longrightarrow> f x \<noteq> None) \<Longrightarrow> sequence (map f xs) \<noteq> None"
  by (induction xs) fastforce+

text \<open>\<open>filter\<close> with a test that may throw.\<close>

fun filter_option :: "('a \<Rightarrow> bool option) \<Rightarrow> 'a list \<Rightarrow> 'a list option" where
  "filter_option p [] = Some []"
| "filter_option p (x # xs) = do { b \<leftarrow> p x; ys \<leftarrow> filter_option p xs; Some (if b then x # ys else ys) }"

lemma map_filter_option:
  "(\<And>x. x \<in> set xs \<Longrightarrow> p x = Some (P x)) \<Longrightarrow> filter_option p xs = Some (filter P xs)"
  by (induction xs) auto

lemma takeWhile_append_stop: "(\<And>x. x \<in> set xs \<Longrightarrow> P x) \<Longrightarrow> \<not> P y \<Longrightarrow>
  takeWhile P (xs @ y # ys) = xs"
  by (induction xs) auto

lemma dropWhile_append_stop: "(\<And>x. x \<in> set xs \<Longrightarrow> P x) \<Longrightarrow> \<not> P y \<Longrightarrow>
  dropWhile P (xs @ y # ys) = y # ys"
  by (induction xs) auto

lemma dropWhile_id: "(xs = [] \<or> \<not> P (hd xs)) \<Longrightarrow> dropWhile P xs = xs"
  by (cases xs) auto

lemma filter_unique:
  assumes "distinct xs" "\<And>x y. x \<in> set xs \<Longrightarrow> y \<in> set xs \<Longrightarrow> P x \<Longrightarrow> P y \<Longrightarrow> x = y"
  shows "length (filter P xs) \<le> 1" "x \<in> set xs \<Longrightarrow> P x \<Longrightarrow> filter P xs = [x]"
proof -
  have d: "distinct (filter P xs)" using assms(1) by simp
  have one: "filter P xs = [y]" if "y \<in> set xs" "P y" for y
  proof -
    have "set (filter P xs) = {y}" using assms(2) that by auto
    with d show ?thesis
      by (metis distinct_card card_1_singleton_iff length_Suc_conv length_0_conv list.set_intros(1)
          singletonD One_nat_def)
  qed
  then show "length (filter P xs) \<le> 1"
    by (cases "\<exists>y \<in> set xs. P y") auto
  show "x \<in> set xs \<Longrightarrow> P x \<Longrightarrow> filter P xs = [x]" by (rule one)
qed

end
