(* ===== verification/Js_Value.thy ===== *)
theory Js_Value imports Prelude "HOL-Library.Char_ord" begin

text \<open>
  The values of the JavaScript program and the operators of the language the front end
  uses on them. The data that comes from the server or from the router is dynamic in the
  code (\<open>res.data.labels || []\<close>, \<open>err.response?.data?.error?.message\<close>), so it is a
  \<open>jsval\<close> here as well, and reading a property of \<open>null\<close> or \<open>undefined\<close> is the value
  \<open>None\<close>: the TypeError the engine throws.

  Bounds of the model. A string is a list of code units below 256 (the Latin-1 range), so
  surrogates do not occur. Numbers are integers: the JSON numbers of this API are counts,
  sizes and offsets far below \<open>2^53\<close>. Objects are association lists in insertion order.
  Two arrays or objects are equal when they have the same content; the code compares only
  strings, numbers and booleans with \<open>===\<close>.
\<close>

section \<open>Values\<close>

datatype jsval =
    Undefined
  | Null
  | JBool bool
  | JNum int
  | JStr string
  | JArr "jsval list"
  | JObj "(string \<times> jsval) list"

text \<open>The truth value of \<open>if (v)\<close>, \<open>!v\<close>, \<open>v || w\<close>, \<open>v && w\<close>.\<close>

fun truthy :: "jsval \<Rightarrow> bool" where
  "truthy Undefined = False"
| "truthy Null = False"
| "truthy (JBool b) = b"
| "truthy (JNum n) = (n \<noteq> 0)"
| "truthy (JStr s) = (s \<noteq> [])"
| "truthy (JArr _) = True"
| "truthy (JObj _) = True"

fun nullish :: "jsval \<Rightarrow> bool" where
  "nullish Undefined = True"
| "nullish Null = True"
| "nullish _ = False"

definition js_or :: "jsval \<Rightarrow> jsval \<Rightarrow> jsval" where
  "js_or a b = (if truthy a then a else b)"

definition js_coalesce :: "jsval \<Rightarrow> jsval \<Rightarrow> jsval" where
  "js_coalesce a b = (if nullish a then b else a)"

definition js_not :: "jsval \<Rightarrow> jsval" where
  "js_not a = JBool (\<not> truthy a)"

lemma js_or_simps [simp, js]:
  "js_or Undefined b = b"
  "js_or Null b = b"
  "js_or (JBool True) b = JBool True"
  "js_or (JBool False) b = b"
  "js_or (JStr []) b = b"
  "js_or (JStr (c # cs)) b = JStr (c # cs)"
  "js_or (JArr xs) b = JArr xs"
  "js_or (JObj kvs) b = JObj kvs"
  by (simp_all add: js_or_def)

lemma js_or_truthy: "truthy a \<Longrightarrow> js_or a b = a"
  by (simp add: js_or_def)

lemma js_or_falsy: "\<not> truthy a \<Longrightarrow> js_or a b = b"
  by (simp add: js_or_def)

lemma truthy_js_or [simp]: "truthy (js_or a b) \<longleftrightarrow> truthy a \<or> truthy b"
  by (simp add: js_or_def)

lemma nullish_not_truthy: "nullish v \<Longrightarrow> \<not> truthy v"
  by (cases v) auto

section \<open>Properties\<close>

text \<open>
  \<open>js_prop\<close> reads a property of a value that has properties; a key an object lacks is
  \<open>undefined\<close>. \<open>js_get v k\<close> is \<open>v.k\<close> (it throws on \<open>null\<close> and \<open>undefined\<close>) and
  \<open>js_oget v k\<close> is \<open>v?.k\<close>.
\<close>

fun js_prop :: "jsval \<Rightarrow> string \<Rightarrow> jsval" where
  "js_prop (JObj kvs) k = (case map_of kvs k of Some v \<Rightarrow> v | None \<Rightarrow> Undefined)"
| "js_prop (JArr xs) k = (if k = ''length'' then JNum (int (length xs)) else Undefined)"
| "js_prop (JStr s) k = (if k = ''length'' then JNum (int (length s)) else Undefined)"
| "js_prop _ k = Undefined"

definition js_get :: "jsval \<Rightarrow> string \<Rightarrow> jsval option" where
  "js_get v k = (if nullish v then None else Some (js_prop v k))"

definition js_oget :: "jsval \<Rightarrow> string \<Rightarrow> jsval" where
  "js_oget v k = (if nullish v then Undefined else js_prop v k)"

lemma js_get_simps [simp, js]:
  "js_get Undefined k = None"
  "js_get Null k = None"
  "js_get (JObj kvs) k = Some (js_prop (JObj kvs) k)"
  "js_get (JArr xs) k = Some (js_prop (JArr xs) k)"
  "js_get (JStr s) k = Some (js_prop (JStr s) k)"
  "js_get (JBool b) k = Some Undefined"
  "js_get (JNum n) k = Some Undefined"
  by (simp_all add: js_get_def)

lemma js_oget_simps [simp, js]:
  "js_oget Undefined k = Undefined"
  "js_oget Null k = Undefined"
  "js_oget (JObj kvs) k = js_prop (JObj kvs) k"
  "js_oget (JArr xs) k = js_prop (JArr xs) k"
  "js_oget (JStr s) k = js_prop (JStr s) k"
  "js_oget (JBool b) k = Undefined"
  "js_oget (JNum n) k = Undefined"
  by (simp_all add: js_oget_def)

lemma js_get_eq_Some: "js_get v k = Some x \<Longrightarrow> js_oget v k = x"
  by (auto simp: js_get_def js_oget_def split: if_splits)

text \<open>\<open>{ ...o, k: v }\<close>: an own key keeps its place, a new one goes to the end.\<close>

fun assoc_set :: "string \<Rightarrow> 'v \<Rightarrow> (string \<times> 'v) list \<Rightarrow> (string \<times> 'v) list" where
  "assoc_set k v [] = [(k, v)]"
| "assoc_set k v ((k', w) # kvs) = (if k = k' then (k, v) # kvs else (k', w) # assoc_set k v kvs)"

lemma map_of_assoc_set [simp]: "map_of (assoc_set k v kvs) = (map_of kvs)(k \<mapsto> v)"
  by (induction kvs) (auto simp: fun_eq_iff)

lemma keys_assoc_set:
  "map fst (assoc_set k v kvs) = (if k \<in> fst ` set kvs then map fst kvs else map fst kvs @ [k])"
  by (induction kvs) force+

lemma key_set_assoc_set: "fst ` set (assoc_set k v kvs) = insert k (fst ` set kvs)"
  using arg_cong [OF keys_assoc_set [of k v kvs], of set] by (simp add: insert_absorb split: if_splits)

text \<open>
  The receiver of \<open>.map\<close>, \<open>.filter\<close>, \<open>.find\<close> and \<open>.some\<close> must be an array; on anything
  else the call is a TypeError.
\<close>

fun js_elems :: "jsval \<Rightarrow> jsval list option" where
  "js_elems (JArr xs) = Some xs"
| "js_elems _ = None"

text \<open>\<open>xs.find((x) => x.k === v)\<close> as the code uses it: the first match, or \<open>undefined\<close>.\<close>

fun js_find :: "string \<Rightarrow> jsval \<Rightarrow> jsval list \<Rightarrow> jsval option" where
  "js_find k v [] = Some Undefined"
| "js_find k v (x # xs) = do { w \<leftarrow> js_get x k; if w = v then Some x else js_find k v xs }"

section \<open>Strings\<close>

definition char_code :: "char \<Rightarrow> nat" where
  "char_code c = of_char c"

text \<open>The white space \<open>trim\<close> and \<open>\s\<close> know, below 256.\<close>

definition js_ws :: "char \<Rightarrow> bool" where
  "js_ws c \<longleftrightarrow> c \<in> set [CHR 0x09, CHR 0x0A, CHR 0x0B, CHR 0x0C, CHR 0x0D, CHR 0x20, CHR 0xA0]"

text \<open>The line terminators, which \<open>.\<close> does not match, below 256.\<close>

definition js_eol :: "char \<Rightarrow> bool" where
  "js_eol c \<longleftrightarrow> c \<in> set [CHR 0x0A, CHR 0x0D]"

lemma js_eol_ws: "js_eol c \<Longrightarrow> js_ws c"
  by (auto simp: js_eol_def js_ws_def)

definition js_trim_start :: "string \<Rightarrow> string" where
  "js_trim_start s = dropWhile js_ws s"

definition js_trim_end :: "string \<Rightarrow> string" where
  "js_trim_end s = rev (dropWhile js_ws (rev s))"

definition js_trim :: "string \<Rightarrow> string" where
  "js_trim s = js_trim_end (js_trim_start s)"

text \<open>A string \<open>trim\<close> leaves alone.\<close>

definition trimmed :: "string \<Rightarrow> bool" where
  "trimmed s \<longleftrightarrow> s = [] \<or> (\<not> js_ws (hd s) \<and> \<not> js_ws (last s))"

lemma js_trim_end_snoc [simp]:
  "js_trim_end (s @ [c]) = (if js_ws c then js_trim_end s else s @ [c])"
  by (simp add: js_trim_end_def)

lemma js_trim_end_Nil [simp]: "js_trim_end [] = []"
  by (simp add: js_trim_end_def)

lemma js_trim_end_append_ws: "list_all js_ws w \<Longrightarrow> js_trim_end (s @ w) = js_trim_end s"
proof (induction w rule: rev_induct)
  case Nil
  then show ?case by simp
next
  case (snoc c w)
  then show ?case by (simp add: append_assoc [symmetric] del: append_assoc)
qed

lemma js_trim_end_last: "s = [] \<or> \<not> js_ws (last s) \<Longrightarrow> js_trim_end s = s"
  by (cases s rule: rev_cases) auto

lemma js_trim_end_decomp: "\<exists>w. list_all js_ws w \<and> s = js_trim_end s @ w"
proof (induction s rule: rev_induct)
  case Nil
  then show ?case by simp
next
  case (snoc c s)
  then obtain w where w: "list_all js_ws w" "s = js_trim_end s @ w" by blast
  show ?case
  proof (cases "js_ws c")
    case True
    with w have "list_all js_ws (w @ [c]) \<and> s @ [c] = js_trim_end (s @ [c]) @ w @ [c]" by simp
    then show ?thesis by blast
  next
    case False
    then show ?thesis by simp
  qed
qed

lemma js_trim_end_not_ws: "js_trim_end s \<noteq> [] \<Longrightarrow> \<not> js_ws (last (js_trim_end s))"
  by (induction s rule: rev_induct) auto

lemma trimmed_trim: "trimmed s \<Longrightarrow> js_trim s = s"
  by (cases s) (auto simp: trimmed_def js_trim_def js_trim_start_def js_trim_end_last)

lemma hd_js_trim_end: "js_trim_end s \<noteq> [] \<Longrightarrow> hd (js_trim_end s) = hd s"
  using js_trim_end_decomp [of s] by (metis hd_append2)

lemma js_trim_trimmed: "trimmed (js_trim s)"
proof -
  let ?t = "dropWhile js_ws s"
  have "?t \<noteq> [] \<Longrightarrow> \<not> js_ws (hd ?t)" by (rule hd_dropWhile)
  moreover have "js_trim_end ?t \<noteq> [] \<Longrightarrow> ?t \<noteq> []"
    by (metis js_trim_end_Nil)
  ultimately show ?thesis
    unfolding trimmed_def js_trim_def js_trim_start_def
    using hd_js_trim_end js_trim_end_not_ws by metis
qed

lemma js_trim_idem [simp]: "js_trim (js_trim s) = js_trim s"
  by (rule trimmed_trim) (rule js_trim_trimmed)

lemma set_js_trim: "set (js_trim s) \<subseteq> set s"
proof
  fix c
  assume "c \<in> set (js_trim s)"
  then have "c \<in> set (dropWhile js_ws (rev (dropWhile js_ws s)))"
    by (simp add: js_trim_def js_trim_end_def js_trim_start_def)
  then show "c \<in> set s" by (metis set_dropWhileD set_rev)
qed

lemma js_trim_space [simp]: "js_trim (CHR 0x20 # s) = js_trim s"
  by (simp add: js_trim_def js_trim_start_def js_ws_def)

text \<open>\<open>s.split(/[...]/)\<close> at each character of a class; \<open>parts.join(sep)\<close>.\<close>

fun js_split :: "(char \<Rightarrow> bool) \<Rightarrow> string \<Rightarrow> string list" where
  "js_split P [] = [[]]"
| "js_split P (c # cs) =
     (if P c then [] # js_split P cs
      else (case js_split P cs of [] \<Rightarrow> [[c]] | w # ws \<Rightarrow> (c # w) # ws))"

fun js_join :: "string \<Rightarrow> string list \<Rightarrow> string" where
  "js_join sep [] = []"
| "js_join sep [x] = x"
| "js_join sep (x # y # xs) = x @ sep @ js_join sep (y # xs)"

lemma js_split_nonempty [simp]: "js_split P s \<noteq> []"
  by (induction s) (auto split: list.splits)

lemma js_split_none: "list_all (\<lambda>c. \<not> P c) s \<Longrightarrow> js_split P s = [s]"
  by (induction s) auto

lemma js_split_append:
  "list_all (\<lambda>c. \<not> P c) s \<Longrightarrow> P c \<Longrightarrow> js_split P (s @ c # t) = s # js_split P t"
  by (induction s) auto

lemma set_js_split: "w \<in> set (js_split P s) \<Longrightarrow> set w \<subseteq> {c \<in> set s. \<not> P c}"
proof (induction s arbitrary: w)
  case Nil
  then show ?case by simp
next
  case (Cons c s)
  show ?case
  proof (cases "P c")
    case True
    with Cons show ?thesis by fastforce
  next
    case False
    obtain v vs where s: "js_split P s = v # vs" by (cases "js_split P s") auto
    with False Cons.prems have "w = c # v \<or> w \<in> set vs" by auto
    with s False Cons.IH [of v] Cons.IH [of w] show ?thesis by auto
  qed
qed

lemma js_split_concat:
  "js_split (\<lambda>c. c = d) s = w # ws \<Longrightarrow>
   s = w @ concat (map ((#) d) ws) \<and> list_all (list_all (\<lambda>c. c \<noteq> d)) (w # ws)"
proof (induction s arbitrary: w ws)
  case Nil
  then show ?case by simp
next
  case (Cons c s)
  obtain v vs where v: "js_split (\<lambda>c. c = d) s = v # vs" by (cases "js_split (\<lambda>c. c = d) s") auto
  then have "w # ws = (if c = d then [] # v # vs else (c # v) # vs)"
    using Cons.prems by (auto simp: v split: if_splits)
  with Cons.IH [OF v] show ?case by (cases "c = d") auto
qed

lemma js_split_join_space:
  "list_all (list_all (\<lambda>c. \<not> P c)) ws \<Longrightarrow> ws \<noteq> [] \<Longrightarrow> P d \<Longrightarrow> \<not> P CHR '' '' \<Longrightarrow>
   js_split P (js_join [d, CHR '' ''] ws) = hd ws # map ((#) CHR '' '') (tl ws)"
proof (induction ws)
  case (Cons w ws)
  show ?case
  proof (cases ws)
    case Nil
    with Cons.prems show ?thesis by (simp add: js_split_none)
  next
    case (Cons v vs)
    with Cons.IH Cons.prems
    have ih: "js_split P (js_join [d, CHR '' ''] ws) = v # map ((#) CHR '' '') vs" by simp
    have "js_split P (js_join [d, CHR '' ''] (w # ws))
        = w # js_split P (CHR '' '' # js_join [d, CHR '' ''] ws)"
      using Cons Cons.prems js_split_append [of P w d] by simp
    with ih Cons Cons.prems show ?thesis by simp
  qed
qed simp

text \<open>\<open>s.replace(/c/g, r)\<close> for a single character.\<close>

definition js_replace_char :: "char \<Rightarrow> string \<Rightarrow> string \<Rightarrow> string" where
  "js_replace_char c r s = concat (map (\<lambda>x. if x = c then r else [x]) s)"

lemma js_replace_char_simps [simp]:
  "js_replace_char c r [] = []"
  "js_replace_char c r (x # s) = (if x = c then r else [x]) @ js_replace_char c r s"
  "js_replace_char c r (s @ t) = js_replace_char c r s @ js_replace_char c r t"
  by (simp_all add: js_replace_char_def)

lemma js_replace_char_absent: "c \<notin> set s \<Longrightarrow> js_replace_char c r s = s"
  by (induction s) auto

lemma set_js_replace_char: "set (js_replace_char c r s) \<subseteq> (set s - {c}) \<union> set r"
  by (induction s) auto

fun js_starts_with :: "string \<Rightarrow> string \<Rightarrow> bool" where
  "js_starts_with s [] = True"
| "js_starts_with [] (p # ps) = False"
| "js_starts_with (c # cs) (p # ps) = (c = p \<and> js_starts_with cs ps)"

lemma js_starts_with_append: "js_starts_with s p \<longleftrightarrow> (\<exists>t. s = p @ t)"
  by (induction s p rule: js_starts_with.induct) auto

fun js_includes :: "string \<Rightarrow> string \<Rightarrow> bool" where
  "js_includes [] p = (p = [])"
| "js_includes (c # cs) p = (js_starts_with (c # cs) p \<or> js_includes cs p)"

lemma js_includes_iff: "js_includes s p \<longleftrightarrow> (\<exists>a b. s = a @ p @ b)"
proof (induction s)
  case Nil
  then show ?case by auto
next
  case (Cons c s)
  show ?case
  proof
    assume "js_includes (c # s) p"
    then show "\<exists>a b. c # s = a @ p @ b"
      using Cons.IH by (auto simp: js_starts_with_append) (metis append_Cons append_Nil)+
  next
    assume "\<exists>a b. c # s = a @ p @ b"
    then obtain a b where ab: "c # s = a @ p @ b" by blast
    show "js_includes (c # s) p"
    proof (cases a)
      case Nil
      with ab have "js_starts_with (c # s) p" by (auto simp: js_starts_with_append)
      then show ?thesis by simp
    next
      case (Cons d a')
      with ab have "s = a' @ p @ b" by simp
      with Cons.IH show ?thesis by auto
    qed
  qed
qed

lemma js_includes_Nil [simp]: "js_includes s []"
  by (cases s) auto

text \<open>\<open>toLowerCase\<close> below 256: A to Z and the accented capitals (all but the multiplication sign).\<close>

definition char_lower :: "char \<Rightarrow> char" where
  "char_lower c =
     (let n = char_code c in
      if (65 \<le> n \<and> n \<le> 90) \<or> (192 \<le> n \<and> n \<le> 222 \<and> n \<noteq> 215) then char_of (n + 32) else c)"

definition js_lower :: "string \<Rightarrow> string" where
  "js_lower s = map char_lower s"

text \<open>
  \<open>toUpperCase\<close> below 256. Two small letters have a capital outside the range (the micro sign and
  y with diaeresis); the model leaves them as they are.
\<close>

definition char_upper :: "char \<Rightarrow> string" where
  "char_upper c =
     (let n = char_code c in
      if n = 223 then ''SS''
      else if (97 \<le> n \<and> n \<le> 122) \<or> (224 \<le> n \<and> n \<le> 254 \<and> n \<noteq> 247) then [char_of (n - 32)]
      else [c])"

definition js_upper :: "string \<Rightarrow> string" where
  "js_upper s = concat (map char_upper s)"

text \<open>\<open>v.charAt(0).toUpperCase()\<close>; only strings have these methods.\<close>

fun js_initial :: "jsval \<Rightarrow> string option" where
  "js_initial (JStr s) = Some (js_upper (take 1 s))"
| "js_initial _ = None"

text \<open>
  The number a comparison or \<open>Math.min\<close> makes of a value, \<open>None\<close> for \<open>NaN\<close>; the values are counts
  of the server, never numeric strings.
\<close>

fun js_number :: "jsval \<Rightarrow> int option" where
  "js_number (JNum n) = Some n"
| "js_number (JBool b) = Some (of_bool b)"
| "js_number Null = Some 0"
| "js_number _ = None"

text \<open>\<open>v > 0\<close>; the values compared are lengths and counts, never numeric strings.\<close>

fun js_positive :: "jsval \<Rightarrow> bool" where
  "js_positive (JNum n) = (n > 0)"
| "js_positive (JBool b) = b"
| "js_positive _ = False"

section \<open>Conversion to a string\<close>

fun nat_str :: "nat \<Rightarrow> string" where
  "nat_str n = (if n < 10 then [char_of (48 + n)] else nat_str (n div 10) @ [char_of (48 + n mod 10)])"

declare nat_str.simps [simp del]

definition int_str :: "int \<Rightarrow> string" where
  "int_str i = (if i < 0 then CHR ''-'' # nat_str (nat (- i)) else nat_str (nat i))"

text \<open>\<open>String(v)\<close>, also what a template literal inserts.\<close>

fun js_string :: "jsval \<Rightarrow> string" where
  "js_string Undefined = ''undefined''"
| "js_string Null = ''null''"
| "js_string (JBool b) = (if b then ''true'' else ''false'')"
| "js_string (JNum n) = int_str n"
| "js_string (JStr s) = s"
| "js_string (JArr xs) = js_join '','' (map (\<lambda>x. if nullish x then [] else js_string x) xs)"
| "js_string (JObj _) = ''[object Object]''"

text \<open>The own properties of a value, as a spread copies them, and \<open>{ ...o, k: v }\<close>.\<close>

fun js_entries :: "jsval \<Rightarrow> (string \<times> jsval) list" where
  "js_entries (JObj kvs) = kvs"
| "js_entries (JArr xs) = zip (map nat_str [0..<length xs]) xs"
| "js_entries (JStr s) = zip (map nat_str [0..<length s]) (map (\<lambda>c. JStr [c]) s)"
| "js_entries _ = []"

definition js_spread_set :: "jsval \<Rightarrow> string \<Rightarrow> jsval \<Rightarrow> jsval" where
  "js_spread_set v k x = JObj (assoc_set k x (js_entries v))"

lemma js_prop_spread_set [simp]: "js_prop (js_spread_set v k x) k = x"
  by (simp add: js_spread_set_def)

lemma js_prop_spread_set_other:
  "k' \<noteq> k \<Longrightarrow> js_prop (js_spread_set (JObj kvs) k v) k' = js_prop (JObj kvs) k'"
  by (simp add: js_spread_set_def)

text \<open>
  \<open>(v / 1024).toFixed(1)\<close> for a size in bytes: the nearest tenth, the larger one on a tie.
\<close>

definition fixed1 :: "nat \<Rightarrow> string" where
  "fixed1 n = (let t = (10 * n + 512) div 1024 in nat_str (t div 10) @ ''.'' @ nat_str (t mod 10))"

fun kilobytes :: "jsval \<Rightarrow> string" where
  "kilobytes (JNum n) = (if n < 0 then CHR ''-'' # fixed1 (nat (- n)) else fixed1 (nat n))"
| "kilobytes Null = fixed1 0"
| "kilobytes (JBool b) = fixed1 (of_bool b)"
| "kilobytes _ = ''NaN''"

text \<open>
  The parts of \<open>Date\<close> and \<open>toLocaleString\<close> the pages use: they depend on the browser's clock,
  time zone and language, so a model of them is a parameter.
\<close>

record locale_fns =
  date_time :: "jsval \<Rightarrow> string"
  is_today :: "jsval \<Rightarrow> bool"
  hour_minute :: "jsval \<Rightarrow> string"
  month_day :: "jsval \<Rightarrow> string"

definition plain_locale :: locale_fns where
  "plain_locale = \<lparr>date_time = \<lambda>_. ''now'', is_today = \<lambda>_. True, hour_minute = \<lambda>_. ''12:00'',
     month_day = \<lambda>_. ''Jan 1''\<rparr>"

text \<open>\<open>v.map(f).join(sep)\<close> of an array of values: \<open>null\<close> and \<open>undefined\<close> join as nothing.\<close>

definition js_join_values :: "string \<Rightarrow> jsval list \<Rightarrow> string" where
  "js_join_values sep vs = js_join sep (map (\<lambda>v. if nullish v then [] else js_string v) vs)"

text \<open>
  The error value of a TypeError the engine throws. Its message is the engine's own; the
  model keeps only that it has one and that it carries no \<open>response\<close>.
\<close>

definition type_error :: jsval where
  "type_error = JObj [(''name'', JStr ''TypeError''), (''message'', JStr ''TypeError'')]"

text \<open>\<open>err.response?.data?.error?.message || d\<close>, the message every form shows.\<close>

definition err_detail :: "jsval \<Rightarrow> jsval" where
  "err_detail err = js_oget (js_oget (js_oget (js_oget err ''response'') ''data'') ''error'') ''message''"

definition err_text :: "jsval \<Rightarrow> jsval \<Rightarrow> jsval" where
  "err_text err d = js_or (err_detail err) d"

lemma truthy_err_text: "truthy d \<Longrightarrow> truthy (err_text err d)"
  by (simp add: err_text_def)

text \<open>An error object as the server's JSON error body makes axios build it.\<close>

definition server_error :: "int \<Rightarrow> string \<Rightarrow> string \<Rightarrow> jsval" where
  "server_error st url msg = JObj
     [(''message'', JStr ''Request failed''),
      (''config'', JObj [(''url'', JStr url)]),
      (''response'', JObj [(''status'', JNum st),
         (''data'', JObj [(''error'', JObj [(''message'', JStr msg)])])])]"

lemma err_text_server_error:
  "msg \<noteq> [] \<Longrightarrow> err_text (server_error st url msg) d = JStr msg"
  by (simp add: err_text_def err_detail_def server_error_def js_or_def)

lemma err_text_type_error [simp]: "err_text type_error d = d"
  by (simp add: err_text_def err_detail_def type_error_def)

end
