(* ===== verification/Js_RegExp.thy ===== *)
theory Js_RegExp imports Js_Value begin

text \<open>
  The part of ECMAScript regular expressions the front end uses: character classes,
  greedy and lazy repetition of a class, sequence, alternative, capture groups and the
  two anchors. The semantics is the specification's backtracking search: \<open>rmatch r st\<close>
  lists every way \<open>r\<close> can match from \<open>st\<close> in the order the matcher tries them, so the
  first element is the match and an empty list is a failure. \<open>js_match\<close> is
  \<open>s.match(re)\<close> without flags: the first start position that matches wins.
\<close>

section \<open>Syntax and matcher\<close>

datatype regexp =
    Class "char \<Rightarrow> bool"
  | Greedy nat "char \<Rightarrow> bool"   \<comment> \<open>\<open>[..]*\<close> for 0, \<open>[..]+\<close> for 1\<close>
  | Lazy "char \<Rightarrow> bool"         \<comment> \<open>\<open>[..]*?\<close>\<close>
  | Then regexp regexp
  | Either regexp regexp
  | Group nat regexp
  | AtStart
  | AtEnd

record mstate =
  at_start :: bool
  left :: string
  caps :: "(nat \<times> string) list"

definition eat :: "nat \<Rightarrow> mstate \<Rightarrow> mstate" where
  "eat n st = st\<lparr>at_start := (at_start st \<and> n = 0), left := drop n (left st)\<rparr>"

definition class_run :: "(char \<Rightarrow> bool) \<Rightarrow> mstate \<Rightarrow> nat" where
  "class_run P st = length (takeWhile P (left st))"

primrec rmatch :: "regexp \<Rightarrow> mstate \<Rightarrow> mstate list" where
  "rmatch (Class P) st = (if left st \<noteq> [] \<and> P (hd (left st)) then [eat 1 st] else [])"
| "rmatch (Greedy m P) st = map (\<lambda>n. eat n st) (rev [m..<Suc (class_run P st)])"
| "rmatch (Lazy P) st = map (\<lambda>n. eat n st) [0..<Suc (class_run P st)]"
| "rmatch (Then a b) st = concat (map (rmatch b) (rmatch a st))"
| "rmatch (Either a b) st = rmatch a st @ rmatch b st"
| "rmatch (Group i r) st =
     map (\<lambda>st'. st'\<lparr>caps := (i, take (length (left st) - length (left st')) (left st)) # caps st'\<rparr>)
       (rmatch r st)"
| "rmatch AtStart st = (if at_start st then [st] else [])"
| "rmatch AtEnd st = (if left st = [] then [st] else [])"

fun match_from :: "regexp \<Rightarrow> bool \<Rightarrow> string \<Rightarrow> mstate option" where
  "match_from r b [] =
     (case rmatch r \<lparr>at_start = b, left = [], caps = []\<rparr> of st # _ \<Rightarrow> Some st | [] \<Rightarrow> None)"
| "match_from r b (c # cs) =
     (case rmatch r \<lparr>at_start = b, left = c # cs, caps = []\<rparr> of
        st # _ \<Rightarrow> Some st
      | [] \<Rightarrow> match_from r False cs)"

text \<open>The match object, as its captures: \<open>m[i]\<close> is \<open>undefined\<close> for a group that took no part.\<close>

definition js_match :: "string \<Rightarrow> regexp \<Rightarrow> (nat \<Rightarrow> string option) option" where
  "js_match s r = map_option (\<lambda>st. map_of (caps st)) (match_from r True s)"

text \<open>A literal sequence of characters.\<close>

fun re_lit :: "string \<Rightarrow> regexp" where
  "re_lit [] = Lazy (\<lambda>_. False)"
| "re_lit [c] = Class (\<lambda>x. x = c)"
| "re_lit (c # d # cs) = Then (Class (\<lambda>x. x = c)) (re_lit (d # cs))"

section \<open>What the matcher does\<close>

lemma eat_simps [simp]:
  "left (eat n st) = drop n (left st)"
  "caps (eat n st) = caps st"
  "at_start (eat n st) = (at_start st \<and> n = 0)"
  by (simp_all add: eat_def)

lemma eat_0 [simp]: "eat 0 st = st"
  by (simp add: eat_def)

lemma eat_eat: "eat n (eat m st) = eat (m + n) st"
  by (cases st) (auto simp: eat_def add.commute)

lemma class_run_le: "class_run P st \<le> length (left st)"
  by (simp add: class_run_def length_takeWhile_le)

text \<open>An anchored expression can match at the first position only.\<close>

lemma anchored_no_later: "match_from (Then AtStart r) False s = None"
  by (induction s) auto

lemma anchored_match:
  "match_from (Then AtStart r) True s =
     (case rmatch r \<lparr>at_start = True, left = s, caps = []\<rparr> of st # _ \<Rightarrow> Some st | [] \<Rightarrow> None)"
  by (cases s) (auto simp: anchored_no_later split: list.splits)

lemma rmatch_re_lit:
  "p \<noteq> [] \<Longrightarrow> rmatch (re_lit p) st =
     (if js_starts_with (left st) p then [eat (length p) st] else [])"
proof (induction p arbitrary: st rule: re_lit.induct)
  case (2 c)
  then show ?case by (cases "left st") auto
next
  case (3 c d cs)
  show ?case
  proof (cases "left st")
    case Nil
    then show ?thesis by simp
  next
    case (Cons x xs)
    with 3 show ?thesis by (auto simp: eat_eat)
  qed
qed simp

declare re_lit.simps [simp del]

lemma rmatch_Greedy:
  "rmatch (Greedy m P) st =
     (if m \<le> class_run P st
      then eat (class_run P st) st # map (\<lambda>n. eat n st) (rev [m..<class_run P st]) else [])"
  by auto

lemma class_run_stop:
  "list_all P w \<Longrightarrow> rest = [] \<or> \<not> P (hd rest) \<Longrightarrow> left st = w @ rest \<Longrightarrow>
   class_run P st = length w"
  by (cases rest)
    (auto simp: class_run_def list_all_iff takeWhile_append_stop takeWhile_eq_all_conv [THEN iffD2])

lemma class_run_hd:
  assumes "n < class_run P st"
  shows "left (eat n st) \<noteq> []" "P (hd (left (eat n st)))"
proof -
  let ?u = "left st"
  have n: "n < length (takeWhile P ?u)" using assms by (simp add: class_run_def)
  then have len: "n < length ?u" using length_takeWhile_le [of P ?u] by linarith
  then show "left (eat n st) \<noteq> []" by simp
  have "hd (drop n ?u) = ?u ! n" using len by (rule hd_drop_conv_nth)
  also have "\<dots> = takeWhile P ?u ! n" using takeWhile_nth [OF n] by simp
  finally show "P (hd (left (eat n st)))" using n by (metis eat_simps(1) nth_mem set_takeWhileD)
qed

text \<open>
  When what follows a greedy class cannot start with a character of the class, only the
  longest run can be part of a match: there is no backtracking into it.
\<close>

lemma greedy_then:
  assumes "\<And>st'. left st' \<noteq> [] \<Longrightarrow> P (hd (left st')) \<Longrightarrow> rmatch r st' = []"
  shows "rmatch (Then (Greedy m P) r) st =
    (if m \<le> class_run P st then rmatch r (eat (class_run P st) st) else [])"
proof -
  have "concat (map (rmatch r) (map (\<lambda>n. eat n st) (rev [m..<class_run P st]))) = []"
    using class_run_hd [of _ P st] assms by auto
  then show ?thesis by (simp only: rmatch.simps(4) rmatch_Greedy) simp
qed

lemma greedy_group_then:
  assumes "\<And>st'. left st' \<noteq> [] \<Longrightarrow> P (hd (left st')) \<Longrightarrow> rmatch r st' = []"
  shows "rmatch (Then (Group i (Greedy m P)) r) st =
    (if m \<le> class_run P st
     then rmatch r ((eat (class_run P st) st)\<lparr>caps := (i, take (class_run P st) (left st)) # caps st\<rparr>)
     else [])"
proof -
  let ?cap = "\<lambda>st'. st'\<lparr>caps := (i, take (length (left st) - length (left st')) (left st)) # caps st'\<rparr>"
  have "rmatch r (?cap (eat n st)) = []" if "n < class_run P st" for n
    using class_run_hd [OF that] assms by simp
  then have e: "concat (map (rmatch r) (map ?cap (map (\<lambda>n. eat n st) (rev [m..<class_run P st])))) = []"
    by auto
  have "length (left st) - (length (left st) - class_run P st) = class_run P st"
    using class_run_le [of P st] by simp
  with e show ?thesis
    by (simp only: rmatch.simps(4,6) rmatch_Greedy) (simp del: map_map)
qed

text \<open>The first way to match, if there is one.\<close>

definition first_of :: "'a list \<Rightarrow> 'a option" where
  "first_of xs = (case xs of [] \<Rightarrow> None | x # _ \<Rightarrow> Some x)"

lemma first_of_simps [simp]: "first_of [] = None" "first_of (x # xs) = Some x"
  by (simp_all add: first_of_def)

lemma first_of_append: "first_of (xs @ ys) = (case first_of xs of None \<Rightarrow> first_of ys | Some x \<Rightarrow> Some x)"
  by (cases xs) auto

lemma first_of_map [simp]: "first_of (map f xs) = map_option f (first_of xs)"
  by (cases xs) auto

lemma first_of_None [simp]: "first_of xs = None \<longleftrightarrow> xs = []"
  by (cases xs) auto

lemma match_from_Cons:
  "match_from r b (c # cs) =
     (case first_of (rmatch r \<lparr>at_start = b, left = c # cs, caps = []\<rparr>) of
        Some st \<Rightarrow> Some st | None \<Rightarrow> match_from r False cs)"
  by (auto simp: first_of_def split: list.splits)

lemma match_from_Nil:
  "match_from r b [] = first_of (rmatch r \<lparr>at_start = b, left = [], caps = []\<rparr>)"
  by (auto simp: first_of_def split: list.splits)

declare match_from.simps [simp del]

text \<open>
  Every match consumes a prefix: the rest is a suffix of the input, so the search always
  has a finite list of candidates.
\<close>

lemma rmatch_consumes: "st' \<in> set (rmatch r st) \<Longrightarrow> \<exists>n \<le> length (left st). left st' = drop n (left st)"
proof (induction r arbitrary: st st')
  case (Class P)
  then show ?case by (auto split: if_splits intro!: exI [of _ 1] simp: Suc_le_eq)
next
  case (Greedy m P)
  then obtain n where "st' = eat n st" "n \<le> class_run P st"
    by (auto simp del: upt_Suc simp: less_Suc_eq_le)
  then show ?case using class_run_le order_trans by fastforce
next
  case (Lazy P)
  then obtain n where "st' = eat n st" "n \<le> class_run P st"
    by (auto simp del: upt_Suc simp: less_Suc_eq_le)
  then show ?case using class_run_le order_trans by fastforce
next
  case (Then r1 r2)
  then obtain mid where m: "mid \<in> set (rmatch r1 st)" "st' \<in> set (rmatch r2 mid)" by auto
  from Then.IH(1) [OF m(1)] obtain a where a: "a \<le> length (left st)" "left mid = drop a (left st)"
    by blast
  from Then.IH(2) [OF m(2)] obtain b where b: "b \<le> length (left mid)" "left st' = drop b (left mid)"
    by blast
  from a b have "b + a \<le> length (left st) \<and> left st' = drop (b + a) (left st)" by simp
  then show ?case by blast
next
  case (Group i r)
  then show ?case by auto
qed (auto split: if_splits intro: exI [of _ 0])

end
