(* ===== verification/Js_Uri.thy ===== *)
theory Js_Uri imports Js_Value begin

text \<open>
  The URI functions of the platform that \<open>web/src\<close> calls: \<open>encodeURIComponent\<close>
  (\<open>Layout.jsx\<close>), \<open>decodeURIComponent\<close> (the CSRF cookie in \<open>api.js\<close>), and
  \<open>URLSearchParams\<close> as serializer (\<open>getMessages\<close>, \<open>searchMessages\<close>) and as parser (the
  router's \<open>useSearchParams\<close>). All of them work on the UTF-8 bytes of the text.

  Percent-decoding yields code points. A decoded text with a code point above 255 is
  outside the strings of the model and is reported as such (\<open>OutsideLatin1\<close>), apart from
  the malformed input on which \<open>decodeURIComponent\<close> throws (\<open>URIError\<close>).
\<close>

section \<open>UTF-8\<close>

definition utf8_char :: "char \<Rightarrow> nat list" where
  "utf8_char c = (let n = char_code c in
     if n < 128 then [n] else [192 + n div 64, 128 + n mod 64])"

definition utf8 :: "string \<Rightarrow> nat list" where
  "utf8 s = concat (map utf8_char s)"

definition cont_byte :: "nat \<Rightarrow> bool" where
  "cont_byte b \<longleftrightarrow> 128 \<le> b \<and> b < 192"

fun utf8_decode :: "nat list \<Rightarrow> nat list option" where
  "utf8_decode [] = Some []"
| "utf8_decode (b # bs) =
     (if b < 128 then map_option (Cons b) (utf8_decode bs)
      else if 194 \<le> b \<and> b < 224 then
        (case bs of
           c # r \<Rightarrow> if cont_byte c
                   then map_option (Cons ((b - 192) * 64 + (c - 128))) (utf8_decode r) else None
         | [] \<Rightarrow> None)
      else if 224 \<le> b \<and> b < 240 then
        (case bs of
           c # d # r \<Rightarrow>
             (let cp = (b - 224) * 4096 + (c - 128) * 64 + (d - 128) in
              if cont_byte c \<and> cont_byte d \<and> 2048 \<le> cp \<and> \<not> (55296 \<le> cp \<and> cp \<le> 57343)
              then map_option (Cons cp) (utf8_decode r) else None)
         | _ \<Rightarrow> None)
      else if 240 \<le> b \<and> b < 245 then
        (case bs of
           c # d # e # r \<Rightarrow>
             (let cp = (b - 240) * 262144 + (c - 128) * 4096 + (d - 128) * 64 + (e - 128) in
              if cont_byte c \<and> cont_byte d \<and> cont_byte e \<and> 65536 \<le> cp \<and> cp \<le> 1114111
              then map_option (Cons cp) (utf8_decode r) else None)
         | _ \<Rightarrow> None)
      else None)"

lemma char_code_less [simp]: "char_code c < 256"
  by (simp add: char_code_def)

lemma char_of_char_code [simp]: "char_of (char_code c) = c"
  by (simp add: char_code_def)

lemma utf8_decode_char:
  "utf8_decode (utf8_char c @ bs) = map_option (Cons (char_code c)) (utf8_decode bs)"
proof -
  have lt: "char_code c < 256" by simp
  show ?thesis
  proof (cases "char_code c < 128")
    case True
    then show ?thesis by (simp add: utf8_char_def)
  next
    case False
    let ?n = "char_code c"
    have "2 \<le> ?n div 64" "?n div 64 < 4" using False lt by linarith+
    moreover have "?n mod 64 < 64" by simp
    moreover have "(192 + ?n div 64 - 192) * 64 + (128 + ?n mod 64 - 128) = ?n" by simp
    ultimately show ?thesis using False
      by (simp add: utf8_char_def Let_def cont_byte_def)
  qed
qed

lemma utf8_decode_utf8: "utf8_decode (utf8 s) = Some (map char_code s)"
  by (induction s) (simp_all add: utf8_def utf8_decode_char)

lemma utf8_char_byte: "b \<in> set (utf8_char c) \<Longrightarrow> b < 256"
proof -
  assume b: "b \<in> set (utf8_char c)"
  have "char_code c div 64 < 4" using char_code_less [of c] by linarith
  moreover have "char_code c mod 64 < 64" by simp
  ultimately show "b < 256" using b char_code_less [of c]
    by (auto simp: utf8_char_def Let_def split: if_splits)
qed

section \<open>Percent encoding\<close>

definition hex_digit :: "nat \<Rightarrow> char" where
  "hex_digit n = (if n < 10 then char_of (48 + n) else char_of (55 + n))"

definition hex_val :: "char \<Rightarrow> nat option" where
  "hex_val c = (let n = char_code c in
     if 48 \<le> n \<and> n \<le> 57 then Some (n - 48)
     else if 65 \<le> n \<and> n \<le> 70 then Some (n - 55)
     else if 97 \<le> n \<and> n \<le> 102 then Some (n - 87)
     else None)"

definition pct :: "nat \<Rightarrow> string" where
  "pct b = [CHR ''%'', hex_digit (b div 16), hex_digit (b mod 16)]"

lemma char_code_char_of: "n < 256 \<Longrightarrow> char_code (char_of n) = n"
  by (simp add: char_code_def)

lemma hex_val_digit: "n < 16 \<Longrightarrow> hex_val (hex_digit n) = Some n"
  by (auto simp: hex_val_def hex_digit_def char_code_char_of Let_def)

definition is_alnum :: "char \<Rightarrow> bool" where
  "is_alnum c = (let n = char_code c in
     (48 \<le> n \<and> n \<le> 57) \<or> (65 \<le> n \<and> n \<le> 90) \<or> (97 \<le> n \<and> n \<le> 122))"

text \<open>\<open>encodeURIComponent\<close> keeps letters, digits and the marks - _ . ! ~ * ' ( ).\<close>

definition uri_unreserved :: "char \<Rightarrow> bool" where
  "uri_unreserved c \<longleftrightarrow> is_alnum c \<or>
     c \<in> set [CHR ''-'', CHR ''_'', CHR ''.'', CHR ''!'', CHR ''~'', CHR ''*'', CHR 0x27,
              CHR ''('', CHR '')'']"

definition encodeURIComponent :: "string \<Rightarrow> string" where
  "encodeURIComponent s =
     concat (map (\<lambda>c. if uri_unreserved c then [c] else concat (map pct (utf8_char c))) s)"

text \<open>The serializer of \<open>URLSearchParams\<close> keeps letters, digits and * - . _; a space is a plus.\<close>

definition form_kept :: "char \<Rightarrow> bool" where
  "form_kept c \<longleftrightarrow> is_alnum c \<or> c \<in> set [CHR ''*'', CHR ''-'', CHR ''.'', CHR ''_'']"

definition form_encode :: "string \<Rightarrow> string" where
  "form_encode s =
     concat (map (\<lambda>c. if form_kept c then [c] else if c = CHR 0x20 then [CHR ''+'']
                      else concat (map pct (utf8_char c))) s)"

text \<open>
  The bytes a percent-encoded text stands for. \<open>decodeURIComponent\<close> rejects a stray
  percent sign; the form decoder keeps it as it is.
\<close>

fun strict_bytes :: "string \<Rightarrow> nat list option" where
  "strict_bytes [] = Some []"
| "strict_bytes (c # cs) =
     (if c = CHR ''%'' then
        (case cs of
           a # b # r \<Rightarrow>
             (case (hex_val a, hex_val b) of
                (Some x, Some y) \<Rightarrow> map_option (Cons (16 * x + y)) (strict_bytes r)
              | _ \<Rightarrow> None)
         | _ \<Rightarrow> None)
      else map_option ((@) (utf8_char c)) (strict_bytes cs))"

fun form_bytes :: "string \<Rightarrow> nat list" where
  "form_bytes [] = []"
| "form_bytes (c # cs) =
     (if c = CHR ''%'' then
        (case cs of
           a # b # r \<Rightarrow>
             (case (hex_val a, hex_val b) of
                (Some x, Some y) \<Rightarrow> (16 * x + y) # form_bytes r
              | _ \<Rightarrow> 37 # form_bytes cs)
         | _ \<Rightarrow> 37 # form_bytes cs)
      else if c = CHR ''+'' then 32 # form_bytes cs
      else utf8_char c @ form_bytes cs)"

datatype uri_error = URIError | OutsideLatin1

definition text_of_points :: "nat list \<Rightarrow> uri_error + string" where
  "text_of_points ps = (if list_all (\<lambda>p. p < 256) ps then Inr (map char_of ps) else Inl OutsideLatin1)"

definition decodeURIComponent :: "string \<Rightarrow> uri_error + string" where
  "decodeURIComponent s =
     (case strict_bytes s of
        None \<Rightarrow> Inl URIError
      | Some bs \<Rightarrow> (case utf8_decode bs of None \<Rightarrow> Inl URIError | Some ps \<Rightarrow> text_of_points ps))"

text \<open>
  The form decoder puts replacement characters where the bytes are not UTF-8; they are
  outside the strings of the model, so such input is \<open>OutsideLatin1\<close> too.
\<close>

definition form_decode :: "string \<Rightarrow> uri_error + string" where
  "form_decode s =
     (case utf8_decode (form_bytes s) of None \<Rightarrow> Inl OutsideLatin1 | Some ps \<Rightarrow> text_of_points ps)"

section \<open>Round trips\<close>

lemma text_of_points_codes [simp]: "text_of_points (map char_code s) = Inr s"
  by (simp add: text_of_points_def list_all_iff comp_def)

lemma strict_bytes_pct: "b < 256 \<Longrightarrow> strict_bytes (pct b @ s) = map_option (Cons b) (strict_bytes s)"
  by (simp add: pct_def hex_val_digit)

lemma strict_bytes_pcts:
  "list_all (\<lambda>b. b < 256) bs \<Longrightarrow>
   strict_bytes (concat (map pct bs) @ s) = map_option ((@) bs) (strict_bytes s)"
proof (induction bs)
  case Nil
  then show ?case by (cases "strict_bytes s") auto
next
  case (Cons b bs)
  then show ?case by (cases "strict_bytes s") (auto simp: strict_bytes_pct)
qed

lemma form_bytes_pct: "b < 256 \<Longrightarrow> form_bytes (pct b @ s) = b # form_bytes s"
  by (simp add: pct_def hex_val_digit)

lemma form_bytes_pcts:
  "list_all (\<lambda>b. b < 256) bs \<Longrightarrow> form_bytes (concat (map pct bs) @ s) = bs @ form_bytes s"
  by (induction bs) (simp_all add: form_bytes_pct)

lemma utf8_char_bytes: "list_all (\<lambda>b. b < 256) (utf8_char c)"
  using utf8_char_byte by (simp add: list_all_iff)

lemma percent_not_kept: "\<not> uri_unreserved CHR ''%''" "\<not> form_kept CHR ''%''"
    "\<not> uri_unreserved CHR ''+''" "\<not> form_kept CHR ''+''"
  by (simp_all add: uri_unreserved_def form_kept_def is_alnum_def char_code_def)

lemma uri_unreserved_neq: "uri_unreserved c \<Longrightarrow> c \<noteq> CHR ''%'' \<and> c \<noteq> CHR ''+''"
  using percent_not_kept by blast

lemma form_kept_neq: "form_kept c \<Longrightarrow> c \<noteq> CHR ''%'' \<and> c \<noteq> CHR ''+''"
  using percent_not_kept by blast

lemma strict_bytes_encode: "strict_bytes (encodeURIComponent s) = Some (utf8 s)"
proof (induction s)
  case Nil
  then show ?case by (simp add: encodeURIComponent_def utf8_def)
next
  case (Cons c s)
  then show ?case
    using uri_unreserved_neq [of c] strict_bytes_pcts [OF utf8_char_bytes [of c]]
    by (auto simp: encodeURIComponent_def utf8_def)
qed

lemma decode_encodeURIComponent: "decodeURIComponent (encodeURIComponent s) = Inr s"
  by (simp add: decodeURIComponent_def strict_bytes_encode utf8_decode_utf8)

lemma strict_bytes_plain: "CHR ''%'' \<notin> set s \<Longrightarrow> strict_bytes s = Some (utf8 s)"
  by (induction s) (auto simp: utf8_def)

text \<open>A text without percent signs decodes to itself.\<close>

lemma decodeURIComponent_plain: "CHR ''%'' \<notin> set s \<Longrightarrow> decodeURIComponent s = Inr s"
  by (simp add: decodeURIComponent_def strict_bytes_plain utf8_decode_utf8)

lemma form_bytes_encode: "form_bytes (form_encode s) = utf8 s"
proof (induction s)
  case Nil
  then show ?case by (simp add: form_encode_def utf8_def)
next
  case (Cons c s)
  have sp: "utf8_char CHR 0x20 = [32]" by (simp add: utf8_char_def char_code_def)
  from Cons show ?case
    using form_kept_neq [of c] form_bytes_pcts [OF utf8_char_bytes [of c]]
    by (auto simp: form_encode_def utf8_def sp)
qed

lemma form_decode_encode: "form_decode (form_encode s) = Inr s"
  by (simp add: form_decode_def form_bytes_encode utf8_decode_utf8)

lemma form_bytes_encodeURIComponent: "form_bytes (encodeURIComponent s) = utf8 s"
proof (induction s)
  case Nil
  then show ?case by (simp add: encodeURIComponent_def utf8_def)
next
  case (Cons c s)
  then show ?case
    using uri_unreserved_neq [of c] form_bytes_pcts [OF utf8_char_bytes [of c]]
    by (auto simp: encodeURIComponent_def utf8_def)
qed

lemma form_decode_encodeURIComponent: "form_decode (encodeURIComponent s) = Inr s"
  by (simp add: form_decode_def form_bytes_encodeURIComponent utf8_decode_utf8)

section \<open>URLSearchParams\<close>

text \<open>The parameters of a query are an association list; \<open>set\<close> is \<open>assoc_set\<close>.\<close>

definition url_serialize :: "(string \<times> string) list \<Rightarrow> string" where
  "url_serialize kvs = js_join ''&'' (map (\<lambda>(k, v). form_encode k @ ''='' @ form_encode v) kvs)"

definition url_pair :: "string \<Rightarrow> (uri_error + string) \<times> (uri_error + string)" where
  "url_pair piece = (form_decode (takeWhile (\<lambda>c. c \<noteq> CHR ''='') piece),
     form_decode (drop 1 (dropWhile (\<lambda>c. c \<noteq> CHR ''='') piece)))"

definition url_parse :: "string \<Rightarrow> ((uri_error + string) \<times> (uri_error + string)) list" where
  "url_parse q = map url_pair (filter (\<lambda>p. p \<noteq> []) (js_split (\<lambda>c. c = CHR ''&'') q))"

text \<open>\<open>params.get(k)\<close>: the first value under the name, or \<open>null\<close>.\<close>

definition url_get :: "string \<Rightarrow> string \<Rightarrow> (uri_error + string) option" where
  "url_get k q = map_of (url_parse q) (Inr k)"

definition url_safe :: "char \<Rightarrow> bool" where
  "url_safe c \<longleftrightarrow> c \<noteq> CHR ''&'' \<and> c \<noteq> CHR ''=''"

lemma hex_digit_alnum: "n < 16 \<Longrightarrow> is_alnum (hex_digit n)"
  by (auto simp: is_alnum_def hex_digit_def char_code_char_of Let_def)

lemma alnum_safe: "is_alnum c \<Longrightarrow> url_safe c"
  by (auto simp: url_safe_def is_alnum_def char_code_def)

lemma kept_safe: "uri_unreserved c \<Longrightarrow> url_safe c" "form_kept c \<Longrightarrow> url_safe c"
  by (auto simp: uri_unreserved_def form_kept_def alnum_safe) (auto simp: url_safe_def)

lemma pct_safe: "b < 256 \<Longrightarrow> list_all url_safe (pct b)"
  by (simp add: pct_def hex_digit_alnum alnum_safe) (simp add: url_safe_def)

lemma pcts_safe: "list_all (\<lambda>b. b < 256) bs \<Longrightarrow> list_all url_safe (concat (map pct bs))"
  by (induction bs) (simp_all add: pct_safe)

lemma encodeURIComponent_safe: "list_all url_safe (encodeURIComponent s)"
  by (induction s) (simp_all add: encodeURIComponent_def kept_safe pcts_safe utf8_char_bytes)

lemma form_encode_safe: "list_all url_safe (form_encode s)"
  by (induction s)
    (simp_all add: form_encode_def kept_safe pcts_safe utf8_char_bytes, simp add: url_safe_def)

lemma url_pair_of:
  assumes "list_all url_safe a"
  shows "url_pair (a @ ''='' @ b) = (form_decode a, form_decode b)"
proof -
  have "\<And>c. c \<in> set a \<Longrightarrow> c \<noteq> CHR ''=''"
    using assms by (auto simp: list_all_iff url_safe_def)
  then show ?thesis by (simp add: url_pair_def takeWhile_append_stop dropWhile_append_stop)
qed

lemma js_split_join:
  assumes "list_all (\<lambda>w. list_all (\<lambda>c. \<not> P c) w) ws" "ws \<noteq> []" "P c"
  shows "js_split P (js_join [c] ws) = ws"
  using assms
proof (induction "[c]" ws rule: js_join.induct)
  case (3 x y xs)
  then show ?case by (simp add: js_split_append)
qed (simp_all add: js_split_none)

text \<open>A query the serializer writes is read back as it was.\<close>

lemma url_parse_serialize:
  "url_parse (url_serialize kvs) = map (\<lambda>(k, v). (Inr k, Inr v)) kvs"
proof (cases "kvs = []")
  case True
  then show ?thesis by (simp add: url_parse_def url_serialize_def)
next
  case False
  let ?w = "\<lambda>(k, v). form_encode k @ ''='' @ form_encode v"
  have safe: "list_all (\<lambda>w. list_all (\<lambda>c. \<not> c = CHR ''&'') w) (map ?w kvs)"
    using form_encode_safe by (auto simp: list_all_iff url_safe_def)
  have "js_split (\<lambda>c. c = CHR ''&'') (url_serialize kvs) = map ?w kvs"
    unfolding url_serialize_def by (rule js_split_join [OF safe]) (use False in auto)
  moreover have "filter (\<lambda>p. p \<noteq> []) (map ?w kvs) = map ?w kvs"
    by (auto simp: filter_id_conv)
  moreover have "url_pair (?w kv) = (\<lambda>(k, v). (Inr k, Inr v)) kv" for kv
    using url_pair_of [OF form_encode_safe] by (cases kv) (simp add: form_decode_encode)
  ultimately show ?thesis by (simp add: url_parse_def)
qed

lemma url_get_serialize: "url_get k (url_serialize kvs) = map_option Inr (map_of kvs k)"
  unfolding url_get_def url_parse_serialize by (induction kvs) auto

lemma url_get_encoded:
  "list_all url_safe k \<Longrightarrow> form_decode k = Inr k \<Longrightarrow>
   url_get k (k @ ''='' @ encodeURIComponent v) = Some (Inr v)"
proof -
  assume k: "list_all url_safe k" "form_decode k = Inr k"
  let ?q = "k @ ''='' @ encodeURIComponent v"
  have "list_all (\<lambda>c. \<not> c = CHR ''&'') ?q"
    using k(1) encodeURIComponent_safe by (auto simp: list_all_iff url_safe_def)
  then have "js_split (\<lambda>c. c = CHR ''&'') ?q = [?q]" by (rule js_split_none)
  then have "url_parse ?q = [(Inr k, Inr v)]"
    using url_pair_of [OF k(1)] k(2) by (simp add: url_parse_def form_decode_encodeURIComponent)
  then show ?thesis by (simp add: url_get_def)
qed

end
