(* ===== verification/Http.thy ===== *)
theory Http imports Js_RegExp Js_Uri begin

text \<open>
  The axios instance of \<open>web/src/api.js\<close>: the configuration every request starts from and
  the two interceptors. axios itself is not in the repository: what a request resolves or
  rejects with is chosen by the environment (\<open>reply\<close>), and only the code the repository
  passes to axios is defined here.
\<close>

section \<open>Requests and replies\<close>

datatype payload = NoBody | Json jsval | FormData "(string \<times> jsval) list"

record http =
  req_method :: string
  req_url :: string
  req_base :: string
  req_headers :: "(string \<times> string) list"
  req_credentials :: bool
  req_body :: payload
  req_response :: string

text \<open>\<open>axios.create\<close>, lines 3 to 9: base URL, default header, credentials.\<close>

definition api_defaults :: http where
  "api_defaults = \<lparr>req_method = ''get'', req_url = '''', req_base = ''/api/v1'',
     req_headers = [(''Content-Type'', ''application/json'')], req_credentials = True,
     req_body = NoBody, req_response = ''json''\<rparr>"

definition request :: "string \<Rightarrow> string \<Rightarrow> payload \<Rightarrow> http" where
  "request m u b = api_defaults\<lparr>req_method := m, req_url := u, req_body := b\<rparr>"

text \<open>The admin endpoints override the base URL: \<open>{ baseURL: '' }\<close>.\<close>

definition no_base :: "http \<Rightarrow> http" where
  "no_base q = q\<lparr>req_base := ''''\<rparr>"

lemma request_simps [simp]:
  "req_method (request m u b) = m" "req_url (request m u b) = u" "req_body (request m u b) = b"
  "req_base (request m u b) = ''/api/v1''" "req_credentials (request m u b)"
  "req_headers (request m u b) = [(''Content-Type'', ''application/json'')]"
  "req_response (request m u b) = ''json''"
  by (simp_all add: request_def api_defaults_def)

lemma no_base_simps [simp]:
  "req_method (no_base q) = req_method q" "req_url (no_base q) = req_url q"
  "req_body (no_base q) = req_body q" "req_base (no_base q) = ''''"
  "req_headers (no_base q) = req_headers q" "req_credentials (no_base q) = req_credentials q"
  "req_response (no_base q) = req_response q"
  by (simp_all add: no_base_def)

datatype reply = Resolved jsval | Rejected jsval

text \<open>
  What the program asks of the browser and of the router. \<open>Uncaught\<close> is an exception that
  leaves an event handler or an async function nobody awaits.
\<close>

datatype effect =
    Navigate string jsval
  | NavigateBack
  | LocationAssign string
  | LocationReload
  | ConsoleError string jsval
  | AskConfirm string
  | Uncaught jsval
  | SaveBlob jsval jsval
  | SseConnect
  | SseDisconnect
  | LoggedIn jsval

section \<open>The request interceptor\<close>

text \<open>The expression of line 15: \<open>/(?:^|;\s*)csrf=([^;]+)/\<close>.\<close>

definition csrf_re :: regexp where
  "csrf_re = Then (Either AtStart (Then (Class (\<lambda>c. c = CHR '';'')) (Greedy 0 js_ws)))
     (Then (re_lit ''csrf='') (Group 1 (Greedy 1 (\<lambda>c. c \<noteq> CHR '';''))))"

definition csrf_token :: "string \<Rightarrow> string option" where
  "csrf_token cookie = (case js_match cookie csrf_re of None \<Rightarrow> None | Some m \<Rightarrow> m 1)"

definition mutating :: "string \<Rightarrow> bool" where
  "mutating m \<longleftrightarrow> m \<in> set [''post'', ''put'', ''patch'', ''delete'']"

text \<open>
  Lines 12 to 19. On a mutating request the CSRF cookie, when there is one, is decoded and
  sent as a header; a cookie that does not decode throws, so the request is never sent.
\<close>

definition request_interceptor :: "string \<Rightarrow> http \<Rightarrow> uri_error + http" where
  "request_interceptor cookie config =
     (let m = js_lower (if req_method config = [] then ''get'' else req_method config) in
      if mutating m then
        (case csrf_token cookie of
           None \<Rightarrow> Inr config
         | Some t \<Rightarrow>
             (case decodeURIComponent t of
                Inl e \<Rightarrow> Inl e
              | Inr v \<Rightarrow> Inr (config\<lparr>req_headers := assoc_set ''X-CSRF-Token'' v (req_headers config)\<rparr>)))
      else Inr config)"

text \<open>The error value of a request the interceptor refuses.\<close>

definition uri_error_value :: "uri_error \<Rightarrow> jsval" where
  "uri_error_value e = JObj [(''name'', JStr ''URIError''), (''message'', JStr ''URI malformed'')]"

lemma request_interceptor_same:
  assumes "request_interceptor ck q = Inr q'"
  shows "req_method q' = req_method q" "req_url q' = req_url q" "req_base q' = req_base q"
    "req_body q' = req_body q" "req_credentials q' = req_credentials q"
  using assms by (auto simp: request_interceptor_def Let_def split: if_splits option.splits sum.splits)

text \<open>
  Reading the token off a cookie string, as a scan over its pieces between semicolons: the
  first piece counts as it is, the others without their leading white space; the value is
  what follows \<open>csrf=\<close>, when it is not empty. The regular expression finds exactly this.
\<close>

definition csrf_value :: "string \<Rightarrow> string option" where
  "csrf_value w = (if js_starts_with w ''csrf='' \<and> drop 5 w \<noteq> [] then Some (drop 5 w) else None)"

fun csrf_scan :: "string list \<Rightarrow> string option" where
  "csrf_scan [] = None"
| "csrf_scan (w # ws) =
     (case csrf_value (js_trim_start w) of Some t \<Rightarrow> Some t | None \<Rightarrow> csrf_scan ws)"

definition csrf_reference :: "string \<Rightarrow> string option" where
  "csrf_reference cookie =
     (case js_split (\<lambda>c. c = CHR '';'') cookie of
        [] \<Rightarrow> None
      | w # ws \<Rightarrow> (case csrf_value w of Some t \<Rightarrow> Some t | None \<Rightarrow> csrf_scan ws))"

definition csrf_tail :: regexp where
  "csrf_tail = Then (re_lit ''csrf='') (Group 1 (Greedy 1 (\<lambda>c. c \<noteq> CHR '';'')))"

definition stops :: "string \<Rightarrow> bool" where
  "stops rest \<longleftrightarrow> rest = [] \<or> hd rest = CHR '';''"

abbreviation no_semi :: "string \<Rightarrow> bool" where
  "no_semi w \<equiv> list_all (\<lambda>c. c \<noteq> CHR '';'') w"

lemma starts_with_stop:
  "stops rest \<Longrightarrow> CHR '';'' \<notin> set p \<Longrightarrow> js_starts_with (w @ rest) p = js_starts_with w p"
proof (induction w p rule: js_starts_with.induct)
  case (2 p ps)
  then show ?case by (cases rest) (auto simp: stops_def)
qed auto

lemma csrf_tail_match:
  assumes "no_semi w" "stops rest"
  shows "map_option caps (first_of (rmatch csrf_tail \<lparr>at_start = b, left = w @ rest, caps = []\<rparr>))
    = map_option (\<lambda>t. [(1, t)]) (csrf_value w)"
proof (cases "js_starts_with w ''csrf=''")
  case False
  then show ?thesis
    using starts_with_stop [OF assms(2), of "''csrf=''" w]
    by (simp add: csrf_tail_def rmatch_re_lit csrf_value_def)
next
  case True
  then obtain t where w: "w = ''csrf='' @ t" by (auto simp: js_starts_with_append)
  let ?mid = "\<lparr>at_start = False, left = t @ rest, caps = []\<rparr>"
  have lit: "rmatch (re_lit ''csrf='') \<lparr>at_start = b, left = w @ rest, caps = []\<rparr> = [?mid]"
    by (subst rmatch_re_lit) (auto simp: w eat_def)
  have run: "class_run (\<lambda>c. c \<noteq> CHR '';'') ?mid = length t"
    by (rule class_run_stop [where rest = rest]) (use assms w in \<open>auto simp: stops_def\<close>)
  have "first_of (rmatch (Greedy 1 (\<lambda>c. c \<noteq> CHR '';'')) ?mid)
      = (if t = [] then None else Some (eat (length t) ?mid))"
    unfolding rmatch_Greedy run by (cases t) auto
  moreover have "rmatch csrf_tail \<lparr>at_start = b, left = w @ rest, caps = []\<rparr>
      = rmatch (Group 1 (Greedy 1 (\<lambda>c. c \<noteq> CHR '';''))) ?mid"
    by (simp add: csrf_tail_def lit del: rmatch.simps(2))
  ultimately show ?thesis
    by (simp add: csrf_value_def w del: rmatch.simps(2))
qed

lemma csrf_re_tail:
  "rmatch csrf_re st = concat (map (rmatch csrf_tail)
     (rmatch (Either AtStart (Then (Class (\<lambda>c. c = CHR '';'')) (Greedy 0 js_ws))) st))"
  by (simp add: csrf_re_def csrf_tail_def)

lemma match_csrf_skip: "no_semi w \<Longrightarrow> match_from csrf_re False (w @ s) = match_from csrf_re False s"
  by (induction w) (simp_all add: match_from_Cons csrf_re_tail)

text \<open>Only the longest run of white space can be followed by the letter c.\<close>

lemma csrf_tail_ws: "left st \<noteq> [] \<Longrightarrow> js_ws (hd (left st)) \<Longrightarrow> rmatch csrf_tail st = []"
  by (cases "left st") (auto simp: csrf_tail_def rmatch_re_lit js_ws_def)

lemma csrf_after_semi:
  assumes "no_semi w" "stops rest"
  shows "rmatch csrf_re \<lparr>at_start = False, left = CHR '';'' # w @ rest, caps = []\<rparr> =
    rmatch csrf_tail \<lparr>at_start = False, left = js_trim_start w @ rest, caps = []\<rparr>"
proof -
  let ?a = "takeWhile js_ws w" and ?v = "js_trim_start w"
  let ?mid = "\<lparr>at_start = False, left = w @ rest, caps = []\<rparr>"
  have w: "?a @ ?v = w" by (simp add: js_trim_start_def)
  then have left_mid: "left ?mid = ?a @ ?v @ rest" by (metis append.assoc mstate.select_convs(2))
  have run: "class_run js_ws ?mid = length ?a"
  proof (rule class_run_stop [OF _ _ left_mid])
    show "?v @ rest = [] \<or> \<not> js_ws (hd (?v @ rest))"
    proof (cases "?v = []")
      case True
      then show ?thesis using assms(2) by (auto simp: stops_def js_ws_def)
    next
      case False
      then show ?thesis by (simp add: js_trim_start_def hd_dropWhile)
    qed
  qed (auto simp: list_all_iff dest: set_takeWhileD)
  have early: "rmatch csrf_tail (eat n ?mid) = []" if n: "n < length ?a" for n
  proof (rule csrf_tail_ws)
    have l: "left (eat n ?mid) = drop n ?a @ ?v @ rest" using left_mid n by (simp only: eat_simps) simp
    moreover have "drop n ?a \<noteq> []" using n by simp
    moreover have "hd (drop n ?a) \<in> set ?a" using n by (simp add: hd_drop_conv_nth)
    ultimately show "left (eat n ?mid) \<noteq> []" "js_ws (hd (left (eat n ?mid)))"
      by (auto dest: set_takeWhileD)
  qed
  have "eat (length ?a) ?mid = \<lparr>at_start = False, left = ?v @ rest, caps = []\<rparr>"
    by (simp only: eat_def left_mid) simp
  moreover have "rmatch csrf_re \<lparr>at_start = False, left = CHR '';'' # w @ rest, caps = []\<rparr>
      = concat (map (rmatch csrf_tail) (rmatch (Greedy 0 js_ws) ?mid))"
    by (simp add: csrf_re_tail eat_def del: rmatch.simps(2))
  moreover have "concat (map (rmatch csrf_tail) (map (\<lambda>n. eat n ?mid) (rev [0..<length ?a]))) = []"
    by (auto intro: early)
  ultimately show ?thesis by (simp only: rmatch_Greedy run) simp
qed

lemma match_csrf_semi:
  assumes "no_semi w" "stops rest"
  shows "map_option caps (match_from csrf_re False (CHR '';'' # w @ rest)) =
    (case csrf_value (js_trim_start w) of
       Some t \<Rightarrow> Some [(1, t)] | None \<Rightarrow> map_option caps (match_from csrf_re False rest))"
proof -
  have "no_semi (js_trim_start w)"
    using assms(1) by (auto simp: js_trim_start_def list_all_iff dest: set_dropWhileD)
  from csrf_tail_match [OF this assms(2), of False] show ?thesis
    by (auto simp: match_from_Cons csrf_after_semi [OF assms] match_csrf_skip [OF assms(1)]
        split: option.splits)
qed

lemma match_csrf_scan:
  "list_all (list_all (\<lambda>c. c \<noteq> CHR '';'')) ws \<Longrightarrow>
   map_option caps (match_from csrf_re False (concat (map ((#) CHR '';'') ws)))
     = map_option (\<lambda>t. [(1, t)]) (csrf_scan ws)"
proof (induction ws)
  case Nil
  then show ?case by (simp add: match_from_Nil csrf_re_tail)
next
  case (Cons w ws)
  have "stops (concat (map ((#) CHR '';'') ws))" by (cases ws) (auto simp: stops_def)
  with Cons show ?case by (auto simp: match_csrf_semi split: option.splits)
qed

lemma match_csrf_start:
  assumes "no_semi w" "stops rest"
  shows "map_option caps (match_from csrf_re True (w @ rest)) =
    (case csrf_value w of
       Some t \<Rightarrow> Some [(1, t)] | None \<Rightarrow> map_option caps (match_from csrf_re False rest))"
proof (cases w)
  case (Cons c cs)
  then have c: "c \<noteq> CHR '';''" "no_semi cs" using assms(1) by auto
  have "rmatch csrf_re \<lparr>at_start = True, left = c # cs @ rest, caps = []\<rparr>
      = rmatch csrf_tail \<lparr>at_start = True, left = c # cs @ rest, caps = []\<rparr>"
    using c by (simp add: csrf_re_tail)
  with csrf_tail_match [OF assms, of True] Cons c show ?thesis
    by (auto simp: match_from_Cons match_csrf_skip split: option.splits)
next
  case Nil
  have v: "csrf_value [] = None" by (simp add: csrf_value_def)
  show ?thesis
  proof (cases rest)
    case Nil
    with \<open>w = []\<close> v show ?thesis
      by (simp add: match_from_Nil csrf_re_tail csrf_tail_def rmatch_re_lit)
  next
    case (Cons c cs)
    then have "c = CHR '';''" using assms(2) by (simp add: stops_def)
    then have "rmatch csrf_re \<lparr>at_start = True, left = rest, caps = []\<rparr>
        = rmatch csrf_re \<lparr>at_start = False, left = rest, caps = []\<rparr>"
      using Cons by (simp add: csrf_re_tail csrf_tail_def rmatch_re_lit eat_def)
    with \<open>w = []\<close> v Cons show ?thesis by (simp add: match_from_Cons)
  qed
qed

text \<open>The regular expression and the scan agree on every cookie string.\<close>

lemma csrf_token_scan: "csrf_token cookie = csrf_reference cookie"
proof -
  obtain w ws where s: "js_split (\<lambda>c. c = CHR '';'') cookie = w # ws"
    by (cases "js_split (\<lambda>c. c = CHR '';'') cookie") auto
  let ?rest = "concat (map ((#) CHR '';'') ws)"
  have c: "cookie = w @ ?rest" "no_semi w" "list_all (list_all (\<lambda>c. c \<noteq> CHR '';'')) ws"
    using js_split_concat [OF s] by auto
  have st: "stops ?rest" by (cases ws) (auto simp: stops_def)
  have "map_option caps (match_from csrf_re True cookie) = map_option (\<lambda>t. [(1, t)]) (csrf_reference cookie)"
    using match_csrf_start [OF c(2) st] match_csrf_scan [OF c(3)]
    by (auto simp: c(1) [symmetric] csrf_reference_def s split: option.splits)
  then show ?thesis
    by (cases "match_from csrf_re True cookie"; cases "csrf_reference cookie")
      (auto simp: csrf_token_def js_match_def)
qed

text \<open>Without cookies every request goes out as it is.\<close>

lemma request_interceptor_no_cookie [simp]: "request_interceptor [] q = Inr q"
  by (simp add: request_interceptor_def csrf_token_scan csrf_reference_def csrf_value_def Let_def)

text \<open>A cookie whose token decodes; then every request goes out, \<open>signed\<close>.\<close>

definition cookie_ok :: "string \<Rightarrow> bool" where
  "cookie_ok ck = (case csrf_token ck of
     None \<Rightarrow> True | Some t \<Rightarrow> (case decodeURIComponent t of Inl _ \<Rightarrow> False | Inr _ \<Rightarrow> True))"

definition signed :: "string \<Rightarrow> http \<Rightarrow> http" where
  "signed ck q = (case request_interceptor ck q of Inl _ \<Rightarrow> q | Inr q' \<Rightarrow> q')"

definition wire :: "http \<Rightarrow> string \<times> string \<times> payload" where
  "wire q = (req_method q, req_url q, req_body q)"

lemma cookie_ok_Nil [simp]: "cookie_ok []"
  by (simp add: cookie_ok_def csrf_token_scan csrf_reference_def csrf_value_def)

lemma interceptor_signed: "cookie_ok ck \<Longrightarrow> request_interceptor ck q = Inr (signed ck q)"
  by (auto simp: cookie_ok_def signed_def request_interceptor_def Let_def split: option.splits sum.splits)

lemma wire_signed [simp]: "wire (signed ck q) = wire q"
proof (cases "request_interceptor ck q")
  case (Inr q')
  from request_interceptor_same [OF this] Inr show ?thesis by (simp add: wire_def signed_def)
qed (simp add: signed_def)

lemma wire_request [simp]: "wire (request m u b) = (m, u, b)"
  by (simp add: wire_def)

section \<open>The response interceptor\<close>

text \<open>
  Lines 22 to 33: a 401 outside the authentication endpoints sends the browser to the
  login page, unless it is there already; the error is rejected onward in every case.
\<close>

definition auth_url :: "jsval \<Rightarrow> bool" where
  "auth_url err = (case js_oget (js_oget err ''config'') ''url'' of
     JStr u \<Rightarrow> js_includes u ''/auth/'' | _ \<Rightarrow> False)"

definition response_interceptor :: "string \<Rightarrow> reply \<Rightarrow> effect list" where
  "response_interceptor pathname r =
     (case r of
        Resolved _ \<Rightarrow> []
      | Rejected err \<Rightarrow>
          if js_oget (js_oget err ''response'') ''status'' = JNum 401 \<and> \<not> auth_url err \<and> pathname \<noteq> ''/login''
          then [LocationAssign ''/login''] else [])"

lemma response_interceptor_cases:
  "response_interceptor p r = [] \<or> response_interceptor p r = [LocationAssign ''/login'']"
  by (simp add: response_interceptor_def split: reply.splits)

lemma response_interceptor_set: "e \<in> set (response_interceptor p r) \<Longrightarrow> e = LocationAssign ''/login''"
  using response_interceptor_cases [of p r] by auto

section \<open>Properties\<close>

text \<open>
  The regular expression that reads the CSRF cookie finds what the scan over the cookie's pieces
  finds, on every cookie string: the value of the first piece named \<open>csrf\<close> that is not empty.
\<close>

theorem csrf_token_correct:
  "csrf_token cookie =
     (let ws = js_split (\<lambda>c. c = CHR '';'') cookie in
      csrf_scan (if ws \<noteq> [] \<and> csrf_value (hd ws) = None then tl ws
                 else if ws = [] then [] else [hd ws]))"
proof -
  have trim: "js_trim_start w = w" if "csrf_value w \<noteq> None" for w
    using that by (cases w) (auto simp: csrf_value_def js_trim_start_def js_ws_def split: if_splits)
  show ?thesis
    by (cases "js_split (\<lambda>c. c = CHR '';'') cookie")
      (auto simp: csrf_token_scan csrf_reference_def Let_def trim split: option.splits)
qed

lemma csrf_value_encoded:
  "encodeURIComponent t \<noteq> [] \<Longrightarrow>
   csrf_value (''csrf='' @ encodeURIComponent t) = Some (encodeURIComponent t)"
  by (simp add: csrf_value_def)

lemma encodeURIComponent_no_semi: "list_all (\<lambda>c. c \<noteq> CHR '';'') (encodeURIComponent t)"
proof (induction t)
  case Nil
  then show ?case by (simp add: encodeURIComponent_def)
next
  case (Cons c t)
  have alnum: "is_alnum x \<Longrightarrow> x \<noteq> CHR '';''" for x by (auto simp: is_alnum_def char_code_def)
  have "list_all (\<lambda>x. x \<noteq> CHR '';'') (pct b)" if "b < 256" for b
    using that alnum hex_digit_alnum by (auto simp: pct_def)
  then have "list_all (\<lambda>x. x \<noteq> CHR '';'') (concat (map pct (utf8_char c)))"
    using utf8_char_byte [of _ c] by (auto simp: list_all_iff)
  moreover have "uri_unreserved c \<Longrightarrow> c \<noteq> CHR '';''"
    using alnum by (auto simp: uri_unreserved_def)
  ultimately show ?case using Cons by (simp add: encodeURIComponent_def)
qed

lemma csrf_scan_skip:
  "list_all (\<lambda>w. csrf_value (js_trim_start w) = None) ws \<Longrightarrow> csrf_scan (ws @ vs) = csrf_scan vs"
  by (induction ws) simp_all

lemma csrf_value_trim: "csrf_value (js_trim_start w) = None \<Longrightarrow> csrf_value w = None"
  by (cases w) (auto simp: csrf_value_def js_trim_start_def js_ws_def split: if_splits)

lemma csrf_reference_pieces:
  assumes "list_all (list_all (\<lambda>c. c \<noteq> CHR '';'')) ws" "ws \<noteq> []"
  shows "csrf_reference (js_join ''; '' ws) = csrf_scan (if csrf_value (hd ws) = None then tl ws else ws)"
proof -
  have t: "js_trim_start (CHR '' '' # w) = js_trim_start w" for w
    by (simp add: js_trim_start_def js_ws_def)
  have v: "csrf_value w \<noteq> None \<Longrightarrow> js_trim_start w = w" for w
    by (cases w) (auto simp: csrf_value_def js_trim_start_def js_ws_def split: if_splits)
  have "csrf_scan (map ((#) CHR '' '') ws') = csrf_scan ws'" for ws'
    by (induction ws') (simp_all add: t split: option.split)
  moreover have "js_split (\<lambda>c. c = CHR '';'') (js_join ''; '' ws) = hd ws # map ((#) CHR '' '') (tl ws)"
    by (rule js_split_join_space) (use assms in auto)
  ultimately show ?thesis using assms(2) v [of "hd ws"]
    by (cases ws) (auto simp: csrf_reference_def split: option.splits)
qed

text \<open>
  C4. A mutating request carries the token the server put in the cookie, whatever its characters:
  when the \<open>csrf\<close> piece holds the percent-encoded token, among any other pieces (none of the
  earlier ones a non-empty \<open>csrf\<close> cookie), the interceptor sets \<open>X-CSRF-Token\<close> to the token
  itself and changes nothing else of the request.
\<close>

theorem csrf_header_roundtrip:
  assumes "mutating (js_lower (req_method q))" "t \<noteq> []"
    and "list_all (\<lambda>w. list_all (\<lambda>c. c \<noteq> CHR '';'') w \<and> csrf_value (js_trim_start w) = None) before"
    and "list_all (list_all (\<lambda>c. c \<noteq> CHR '';'')) after"
  shows "request_interceptor
      (js_join ''; '' (before @ (''csrf='' @ encodeURIComponent t) # after)) q =
    Inr (q\<lparr>req_headers := assoc_set ''X-CSRF-Token'' t (req_headers q)\<rparr>)"
proof -
  let ?v = "''csrf='' @ encodeURIComponent t" and ?e = "encodeURIComponent t"
  let ?ws = "before @ ?v # after"
  have ne: "?e \<noteq> []" using decode_encodeURIComponent [of t] assms(2) decodeURIComponent_plain [of "[]"] by auto
  have val: "csrf_value ?v = Some ?e" using ne by (rule csrf_value_encoded)
  have trim: "js_trim_start ?v = ?v" by (simp add: js_trim_start_def js_ws_def)
  have semis: "list_all (list_all (\<lambda>c. c \<noteq> CHR '';'')) ?ws"
    using assms(3,4) encodeURIComponent_no_semi [of t] by (auto simp: list_all_iff)
  have found: "csrf_scan (ws @ ?v # after) = Some ?e"
    if "list_all (\<lambda>w. csrf_value (js_trim_start w) = None) ws" for ws
    using csrf_scan_skip [OF that] val trim by simp
  have "csrf_reference (js_join ''; '' ?ws) = Some ?e"
  proof (cases before)
    case Nil
    with found [of "[]"] val show ?thesis by (subst csrf_reference_pieces [OF semis]) simp_all
  next
    case (Cons w ws)
    with assms(3) have "csrf_value w = None" "list_all (\<lambda>w. csrf_value (js_trim_start w) = None) ws"
      by (auto simp: list_all_iff csrf_value_trim)
    with found [of ws] Cons show ?thesis by (subst csrf_reference_pieces [OF semis]) simp_all
  qed
  moreover have "req_method q \<noteq> []" using assms(1) by (auto simp: mutating_def js_lower_def)
  ultimately show ?thesis
    using assms(1) by (simp add: request_interceptor_def Let_def csrf_token_scan decode_encodeURIComponent)
qed

theorem csrf_header_roundtrip_witness:
  "request_interceptor (js_join ''; '' ([''theme=dark''] @ (''csrf='' @ encodeURIComponent ''a;b'') # [''lang=en'']))
      (request ''post'' ''/auth/logout'' NoBody) =
    Inr ((request ''post'' ''/auth/logout'' NoBody)\<lparr>req_headers :=
      [(''Content-Type'', ''application/json''), (''X-CSRF-Token'', ''a;b'')]\<rparr>)"
  by (subst csrf_header_roundtrip)
    (simp_all add: mutating_def js_lower_def char_lower_def char_code_def csrf_value_def
      js_trim_start_def js_ws_def Let_def)

lemma get_not_mutating: "js_lower ''get'' = ''get''" "\<not> mutating ''get''" "\<not> mutating []"
  by (simp_all add: mutating_def js_lower_def char_lower_def char_code_def Let_def)

text \<open>
  A request that does not change state is sent as it is, whatever the cookie; so is a mutating
  one when no CSRF cookie is set. Whenever the interceptor lets a request through, its method,
  URL, base, body and credentials are those of the caller.
\<close>

theorem csrf_header_frame:
  "(\<not> mutating (js_lower (req_method q)) \<longrightarrow> request_interceptor cookie q = Inr q) \<and>
   (csrf_reference cookie = None \<longrightarrow> request_interceptor cookie q = Inr q) \<and>
   (\<forall>q'. request_interceptor cookie q = Inr q' \<longrightarrow>
      q'\<lparr>req_headers := []\<rparr> = q\<lparr>req_headers := []\<rparr> \<and>
      (\<forall>k. k \<noteq> ''X-CSRF-Token'' \<longrightarrow> map_of (req_headers q') k = map_of (req_headers q) k))"
  by (auto simp: request_interceptor_def csrf_token_scan Let_def get_not_mutating
      split: if_splits option.splits sum.splits)

end
