(* ===== verification/Ui.thy ===== *)
theory Ui imports Js_Value begin

text \<open>
  What a React component renders, without styling: texts, icons by name, and the controls
  with the event each one raises. \<open>offers u ev\<close> decides whether the user can raise \<open>ev\<close>
  on the tree \<open>u\<close>, so the guards of the step relation are read off the JSX:
  a disabled or absent button raises nothing.
\<close>

datatype 'ev ui =
    Txt string
  | Icon string
  | Btn bool 'ev "'ev ui list"          \<comment> \<open>\<open>disabled\<close>, \<open>onClick\<close>, children\<close>
  | Clickable 'ev "'ev ui list"         \<comment> \<open>an element with \<open>onClick\<close>\<close>
  | Field jsval "'ev \<Rightarrow> bool"            \<comment> \<open>a controlled input: its value, the change events it raises\<close>
  | Form bool 'ev "'ev ui list"         \<comment> \<open>submit disabled, \<open>onSubmit\<close>, children\<close>
  | Frame string string                 \<comment> \<open>\<open>iframe\<close>: sandbox attribute, document\<close>
  | Box "'ev ui list"

fun offers :: "'ev ui \<Rightarrow> 'ev \<Rightarrow> bool" where
  "offers (Txt _) e = False"
| "offers (Icon _) e = False"
| "offers (Btn disabled ev us) e = ((\<not> disabled \<and> e = ev) \<or> list_ex (\<lambda>u. offers u e) us)"
| "offers (Clickable ev us) e = (e = ev \<or> list_ex (\<lambda>u. offers u e) us)"
| "offers (Field v f) e = f e"
| "offers (Form disabled ev us) e = ((\<not> disabled \<and> e = ev) \<or> list_ex (\<lambda>u. offers u e) us)"
| "offers (Frame _ _) e = False"
| "offers (Box us) e = list_ex (\<lambda>u. offers u e) us"

text \<open>The texts on the page, in document order.\<close>

fun texts :: "'ev ui \<Rightarrow> string list" where
  "texts (Txt s) = [s]"
| "texts (Btn _ _ us) = concat (map texts us)"
| "texts (Clickable _ us) = concat (map texts us)"
| "texts (Form _ _ us) = concat (map texts us)"
| "texts (Box us) = concat (map texts us)"
| "texts _ = []"

text \<open>The documents shown in frames.\<close>

fun frames :: "'ev ui \<Rightarrow> (string \<times> string) list" where
  "frames (Frame s d) = [(s, d)]"
| "frames (Btn _ _ us) = concat (map frames us)"
| "frames (Clickable _ us) = concat (map frames us)"
| "frames (Form _ _ us) = concat (map frames us)"
| "frames (Box us) = concat (map frames us)"
| "frames _ = []"

text \<open>\<open>cond && <element/>\<close>.\<close>

definition shown :: "bool \<Rightarrow> 'ev ui list \<Rightarrow> 'ev ui list" where
  "shown c us = (if c then us else [])"

lemma shown_simps [simp]: "shown True us = us" "shown False us = []"
  by (simp_all add: shown_def)

lemma list_ex_shown [simp]: "list_ex P (shown c us) \<longleftrightarrow> c \<and> list_ex P us"
  by (simp add: shown_def)

text \<open>
  A dynamic child \<open>{v}\<close>: strings and numbers are text, \<open>null\<close>, \<open>undefined\<close> and booleans
  render nothing, arrays render their items; an object is not a valid child and throws.
\<close>

fun js_child :: "jsval \<Rightarrow> string option" where
  "js_child Undefined = Some []"
| "js_child Null = Some []"
| "js_child (JBool _) = Some []"
| "js_child (JNum n) = Some (int_str n)"
| "js_child (JStr s) = Some s"
| "js_child (JArr xs) = map_option concat (sequence (map js_child xs))"
| "js_child (JObj _) = None"

text \<open>\<open>{v && (<element/>)}\<close> where the element shows \<open>v\<close>: an error line, a notice.\<close>

definition shown_value :: "jsval \<Rightarrow> (string \<Rightarrow> 'ev ui list) \<Rightarrow> 'ev ui list option" where
  "shown_value v f = map_option (\<lambda>t. if truthy v then f t else [Txt t]) (js_child v)"

text \<open>A child that is rendered as text.\<close>

definition text_child :: "jsval \<Rightarrow> 'ev ui option" where
  "text_child v = map_option Txt (js_child v)"

text \<open>What the user can raise on a view; a view whose rendering throws offers nothing.\<close>

definition may_offer :: "'ev ui option \<Rightarrow> 'ev \<Rightarrow> bool" where
  "may_offer v e = (case v of Some u \<Rightarrow> offers u e | None \<Rightarrow> False)"

lemma may_offer_simps [simp]:
  "may_offer None e \<longleftrightarrow> False"
  "may_offer (Some u) e \<longleftrightarrow> offers u e"
  "may_offer (Option.bind m f) e \<longleftrightarrow> (\<exists>x. m = Some x \<and> may_offer (f x) e)"
  "may_offer (if b then v else w) e \<longleftrightarrow> (if b then may_offer v e else may_offer w e)"
  by (simp_all add: may_offer_def) (cases m; simp)

lemma shown_value_Some:
  "shown_value v f = Some us \<longleftrightarrow> (\<exists>t. js_child v = Some t \<and> us = (if truthy v then f t else [Txt t]))"
  by (auto simp: shown_value_def)

end
