(* ===== verification/Reactor.thy ===== *)
theory Reactor imports Http Ui begin

text \<open>
  The execution model of the React components: one JavaScript thread, asynchronous
  functions that stop at each \<open>await\<close>, timers, and rendering.

  A handler is a program (\<open>prog\<close>): a finite tree of state updates, browser effects and
  axios requests, where the rest of an async function after an \<open>await\<close> is the continuation
  of its request. A handler is built from the state of the render that created it, so a
  closure reads the values of its own render (the stale closures of React are in the model),
  while a functional update \<open>setX(prev => ..)\<close> acts on the current state.

  A configuration holds the component's state, the state of the last commit, the requests
  in flight with their continuations, and the timers. The inputs are the user's actions,
  the answers to requests in any order, and timers falling due. Each input runs to
  completion and then the component renders and runs the effects whose dependencies
  changed (\<open>settle\<close>); React gives up after 50 nested updates, and so does \<open>settle\<close>.
\<close>

section \<open>Programs\<close>

datatype 's prog =
    Done
  | SetSt "'s \<Rightarrow> 's" "'s prog"
  | Get "'s \<Rightarrow> 's prog"                               \<comment> \<open>read the current state, not the one of the render\<close>
  | Perform effect "'s prog"
  | Request http "reply \<Rightarrow> 's prog"
  | Fork "'s prog" "'s prog"                            \<comment> \<open>call an async function without \<open>await\<close>\<close>
  | SetTimer bool "nat \<Rightarrow> 's prog" "nat \<Rightarrow> 's prog"     \<comment> \<open>\<open>setInterval\<close> or \<open>setTimeout\<close>\<close>
  | ClearTimer nat "'s prog"

text \<open>
  An API function of \<open>api.js\<close>: the request, what it returns from the response (\<open>None\<close> is a
  TypeError in that code), and the continuations of its promise.
\<close>

definition call ::
  "http \<Rightarrow> (jsval \<Rightarrow> jsval option) \<Rightarrow> (jsval \<Rightarrow> 's prog) \<Rightarrow> (jsval \<Rightarrow> 's prog) \<Rightarrow> 's prog" where
  "call q result ok er = Request q (\<lambda>r. case r of
     Resolved res \<Rightarrow> (case result res of Some v \<Rightarrow> ok v | None \<Rightarrow> er type_error)
   | Rejected err \<Rightarrow> er err)"

text \<open>Synchronous code that may throw.\<close>

definition attempt :: "'a option \<Rightarrow> ('a \<Rightarrow> 's prog) \<Rightarrow> (jsval \<Rightarrow> 's prog) \<Rightarrow> 's prog" where
  "attempt m ok er = (case m of Some v \<Rightarrow> ok v | None \<Rightarrow> er type_error)"

definition uncaught :: "jsval \<Rightarrow> 's prog" where
  "uncaught err = Perform (Uncaught err) Done"

lemma attempt_simps [simp]: "attempt (Some v) ok er = ok v" "attempt None ok er = er type_error"
  by (simp_all add: attempt_def)

section \<open>Configurations\<close>

datatype issued = Wire http | Refused jsval

record 's config =
  st :: 's
  rendered :: "'s option"
  mounted :: bool
  pend :: "(issued \<times> (reply \<Rightarrow> 's prog)) list"
  timers :: "(nat \<times> bool \<times> 's prog) list"
  next_timer :: nat
  cookie :: string
  pathname :: string
  sent :: "http list"
  effects :: "effect list"

primrec exec :: "'s prog \<Rightarrow> 's config \<Rightarrow> 's config" where
  "exec Done c = c"
| "exec (SetSt f p) c = exec p (if mounted c then c\<lparr>st := f (st c)\<rparr> else c)"
| "exec (Get f) c = exec (f (st c)) c"
| "exec (Perform e p) c = exec p (c\<lparr>effects := effects c @ [e]\<rparr>)"
| "exec (Request q k) c =
     (case request_interceptor (cookie c) q of
        Inl e \<Rightarrow> c\<lparr>pend := pend c @ [(Refused (uri_error_value e), k)]\<rparr>
      | Inr q' \<Rightarrow> c\<lparr>pend := pend c @ [(Wire q', k)], sent := sent c @ [q']\<rparr>)"
| "exec (Fork p p') c = exec p' (exec p c)"
| "exec (SetTimer every body k) c =
     (let h = next_timer c in
      exec (k h) (c\<lparr>timers := timers c @ [(h, every, body h)], next_timer := Suc h\<rparr>))"
| "exec (ClearTimer h p) c = exec p (c\<lparr>timers := filter (\<lambda>t. fst t \<noteq> h) (timers c)\<rparr>)"

section \<open>Components and their steps\<close>

text \<open>
  A component: the initial state, the handlers, the effects to run after a commit (given
  the state of the commit before, if any), the clean-up at unmount, the view, and the events
  that come from outside the view (route changes, server-sent events).
\<close>

record ('ev, 's) component =
  initial :: 's
  handle :: "'ev \<Rightarrow> 's \<Rightarrow> 's prog"
  after_commit :: "'s option \<Rightarrow> 's \<Rightarrow> 's prog"
  cleanup :: "'s \<Rightarrow> 's prog"
  view :: "'s \<Rightarrow> 'ev ui option"
  external :: "'ev \<Rightarrow> bool"

definition enabled :: "('ev, 's) component \<Rightarrow> 's \<Rightarrow> 'ev \<Rightarrow> bool" where
  "enabled C s ev \<longleftrightarrow> external C ev \<or> may_offer (view C s) ev"

fun settle :: "nat \<Rightarrow> ('ev, 's) component \<Rightarrow> 's config \<Rightarrow> 's config" where
  "settle 0 C c = c"
| "settle (Suc n) C c =
     (if \<not> mounted c \<or> rendered c = Some (st c) then c
      else settle n C (exec (after_commit C (rendered c) (st c)) (c\<lparr>rendered := Some (st c)\<rparr>)))"

datatype 'ev input =
    UserDo 'ev
  | Answer nat reply
  | TimerDue nat
  | CookieIs string
  | Unmount

definition commit_limit :: nat where
  "commit_limit = 50"

definition boot :: "('ev, 's) component \<Rightarrow> string \<Rightarrow> string \<Rightarrow> 's config" where
  "boot C ck path = settle commit_limit C \<lparr>st = initial C, rendered = None, mounted = True,
     pend = [], timers = [], next_timer = 0, cookie = ck, pathname = path, sent = [], effects = []\<rparr>"

text \<open>
  axios rejects with an error object, never with \<open>null\<close> or \<open>undefined\<close>. A refused request can
  only be answered with the error that refused it.
\<close>

fun answers :: "issued \<Rightarrow> reply \<Rightarrow> bool" where
  "answers (Wire q) r = (case r of Resolved _ \<Rightarrow> True | Rejected e \<Rightarrow> \<not> nullish e)"
| "answers (Refused e) r = (r = Rejected e)"

definition answer :: "nat \<Rightarrow> reply \<Rightarrow> 's config \<Rightarrow> 's config" where
  "answer i r c = exec (snd (pend c ! i) r)
     (c\<lparr>pend := remove_nth i (pend c), effects := effects c @ response_interceptor (pathname c) r\<rparr>)"

text \<open>A timer falls due: a timeout is spent, an interval stays.\<close>

definition timer_due :: "nat \<Rightarrow> bool \<times> 's prog \<Rightarrow> 's config \<Rightarrow> 's config" where
  "timer_due h t c = exec (snd t)
     (if fst t then c else c\<lparr>timers := filter (\<lambda>t. fst t \<noteq> h) (timers c)\<rparr>)"

fun step :: "('ev, 's) component \<Rightarrow> 's config \<Rightarrow> 'ev input \<Rightarrow> 's config option" where
  "step C c (UserDo ev) =
     (if mounted c \<and> enabled C (st c) ev
      then Some (settle commit_limit C (exec (handle C ev (st c)) c)) else None)"
| "step C c (Answer i r) =
     (if i < length (pend c) \<and> answers (fst (pend c ! i)) r
      then Some (settle commit_limit C (answer i r c)) else None)"
| "step C c (TimerDue h) =
     (case map_of (timers c) h of
        Some t \<Rightarrow> Some (settle commit_limit C (timer_due h t c))
      | None \<Rightarrow> None)"
| "step C c (CookieIs s) = Some (c\<lparr>cookie := s\<rparr>)"
| "step C c Unmount =
     (if mounted c then Some (exec (cleanup C (st c)) (c\<lparr>mounted := False\<rparr>)) else None)"

fun run :: "('ev, 's) component \<Rightarrow> 's config \<Rightarrow> 'ev input list \<Rightarrow> 's config option" where
  "run C c [] = Some c"
| "run C c (i # is) = do { c' \<leftarrow> step C c i; run C c' is }"

text \<open>The reachable configurations: any order of actions, answers and timers.\<close>

inductive reachable :: "('ev, 's) component \<Rightarrow> 's config \<Rightarrow> bool" for C where
  start: "reachable C (boot C ck path)"
| advance: "reachable C c \<Longrightarrow> step C c i = Some c' \<Longrightarrow> reachable C c'"

lemma reachable_run: "reachable C c \<Longrightarrow> run C c is = Some c' \<Longrightarrow> reachable C c'"
  by (induction "is" arbitrary: c) (auto simp: bind_Some_iff intro: advance)

section \<open>Frame facts\<close>

lemma exec_mounted [simp]: "mounted (exec p c) = mounted c"
  by (induction p arbitrary: c) (auto split: sum.splits simp: Let_def)

lemma exec_rendered [simp]: "rendered (exec p c) = rendered c"
  by (induction p arbitrary: c) (auto split: sum.splits simp: Let_def)

lemma exec_cookie [simp]: "cookie (exec p c) = cookie c"
  by (induction p arbitrary: c) (auto split: sum.splits simp: Let_def)

lemma exec_pathname [simp]: "pathname (exec p c) = pathname c"
  by (induction p arbitrary: c) (auto split: sum.splits simp: Let_def)

lemma rendered_last:
  "c\<lparr>rendered := x, st := a\<rparr> = c\<lparr>st := a, rendered := x\<rparr>"
  "c\<lparr>rendered := x, pend := b\<rparr> = c\<lparr>pend := b, rendered := x\<rparr>"
  "c\<lparr>rendered := x, timers := d\<rparr> = c\<lparr>timers := d, rendered := x\<rparr>"
  "c\<lparr>rendered := x, next_timer := e\<rparr> = c\<lparr>next_timer := e, rendered := x\<rparr>"
  "c\<lparr>rendered := x, sent := f\<rparr> = c\<lparr>sent := f, rendered := x\<rparr>"
  "c\<lparr>rendered := x, effects := g\<rparr> = c\<lparr>effects := g, rendered := x\<rparr>"
  by (cases c; simp)+

lemma exec_set_rendered: "exec p (c\<lparr>rendered := x\<rparr>) = (exec p c)\<lparr>rendered := x\<rparr>"
  by (induction p arbitrary: c) (auto simp: rendered_last Let_def split: sum.splits)

lemma settle_mounted [simp]: "mounted (settle n C c) = mounted c"
  by (induction n C c rule: settle.induct) auto

lemma settle_settled: "rendered c = Some (st c) \<Longrightarrow> settle n C c = c"
  by (cases n) auto

lemma settle_rendered: "rendered c \<noteq> None \<Longrightarrow> rendered (settle n C c) \<noteq> None"
  by (induction n C c rule: settle.induct) auto

lemma settle_noop:
  assumes "mounted c \<Longrightarrow> exec (after_commit C (rendered c) (st c)) (c\<lparr>rendered := Some (st c)\<rparr>)
      = c\<lparr>rendered := Some (st c)\<rparr>" "0 < n"
  shows "settle n C c = (if mounted c then c\<lparr>rendered := Some (st c)\<rparr> else c)"
proof -
  obtain m where n: "n = Suc m" using assms(2) gr0_implies_Suc by blast
  show ?thesis unfolding n using assms(1) by (simp add: settle_settled)
qed

lemma settle_done:
  assumes "mounted c \<Longrightarrow> after_commit C (rendered c) (st c) = Done" "0 < n"
  shows "settle n C c = (if mounted c then c\<lparr>rendered := Some (st c)\<rparr> else c)"
  by (rule settle_noop) (simp_all add: assms)

lemma commit_limit_pos [simp]: "0 < commit_limit"
  by (simp add: commit_limit_def)

text \<open>
  An action that is one request, and its answer: the state the continuation starts from is the
  one before the action, with the request recorded.
\<close>

lemma ask_and_answer:
  assumes "rendered c = Some (st c)" "handle C ev (st c) = Request q k"
    "run C c [UserDo ev, Answer (length (pend c)) r] = Some c'"
  shows "c' = settle commit_limit C (exec (k r)
      (c\<lparr>sent := sent c @ (case request_interceptor (cookie c) q of Inl _ \<Rightarrow> [] | Inr q' \<Rightarrow> [q']),
         effects := effects c @ response_interceptor (pathname c) r\<rparr>))"
    "mounted c" "enabled C (st c) ev"
proof -
  show "mounted c" "enabled C (st c) ev" using assms(3) by (auto split: if_splits)
  then show "c' = settle commit_limit C (exec (k r)
      (c\<lparr>sent := sent c @ (case request_interceptor (cookie c) q of Inl _ \<Rightarrow> [] | Inr q' \<Rightarrow> [q']),
         effects := effects c @ response_interceptor (pathname c) r\<rparr>))"
    using assms
    by (cases "request_interceptor (cookie c) q")
      (auto simp: settle_settled answer_def remove_nth_def nth_append split: if_splits)
qed

text \<open>The same for an action that updates the state first, when its commit runs no effect.\<close>

lemma update_ask_settle:
  assumes "handle C ev (st c) = SetSt f (Request q k)"
    and quiet: "\<And>d. mounted d \<Longrightarrow> rendered d = rendered c \<Longrightarrow> st d = f (st c) \<Longrightarrow>
      settle commit_limit C d = d\<lparr>rendered := Some (st d)\<rparr>"
    and "run C c [UserDo ev, Answer (length (pend c)) r] = Some c'"
  shows "c' = settle commit_limit C (exec (k r)
      (c\<lparr>st := f (st c),
         sent := sent c @ (case request_interceptor (cookie c) q of Inl _ \<Rightarrow> [] | Inr q' \<Rightarrow> [q']),
         rendered := Some (f (st c)),
         effects := effects c @ response_interceptor (pathname c) r\<rparr>))"
    "mounted c" "enabled C (st c) ev"
proof -
  show m: "mounted c" "enabled C (st c) ev" using assms(3) by (auto split: if_splits)
  let ?w = "\<lambda>i sn. c\<lparr>st := f (st c), pend := pend c @ [(i, k)], sent := sent c @ sn\<rparr>"
  have s: "settle commit_limit C (?w i sn) = (?w i sn)\<lparr>rendered := Some (f (st c))\<rparr>" for i sn
    using quiet [of "?w i sn"] m(1) by simp
  show "c' = settle commit_limit C (exec (k r)
      (c\<lparr>st := f (st c),
         sent := sent c @ (case request_interceptor (cookie c) q of Inl _ \<Rightarrow> [] | Inr q' \<Rightarrow> [q']),
         rendered := Some (f (st c)),
         effects := effects c @ response_interceptor (pathname c) r\<rparr>))"
    using assms(1,3) m s [where sn = "[]"] s
    by (cases "request_interceptor (cookie c) q")
      (auto simp: answer_def remove_nth_def nth_append split: if_splits)
qed

lemma update_ask_and_answer:
  assumes "handle C ev (st c) = SetSt f (Request q k)"
    "after_commit C (rendered c) (f (st c)) = Done"
    "run C c [UserDo ev, Answer (length (pend c)) r] = Some c'"
  shows "c' = settle commit_limit C (exec (k r)
      (c\<lparr>st := f (st c),
         sent := sent c @ (case request_interceptor (cookie c) q of Inl _ \<Rightarrow> [] | Inr q' \<Rightarrow> [q']),
         rendered := Some (f (st c)),
         effects := effects c @ response_interceptor (pathname c) r\<rparr>))"
    "mounted c" "enabled C (st c) ev"
proof -
  have "settle commit_limit C d = d\<lparr>rendered := Some (st d)\<rparr>"
    if "mounted d" "rendered d = rendered c" "st d = f (st c)" for d
    using that assms(2) by (subst settle_done) simp_all
  from update_ask_settle [OF assms(1) this assms(3)]
  show "c' = settle commit_limit C (exec (k r)
      (c\<lparr>st := f (st c),
         sent := sent c @ (case request_interceptor (cookie c) q of Inl _ \<Rightarrow> [] | Inr q' \<Rightarrow> [q']),
         rendered := Some (f (st c)),
         effects := effects c @ response_interceptor (pathname c) r\<rparr>))"
    "mounted c" "enabled C (st c) ev" by blast+
qed

lemma two_actions:
  assumes "mounted c" "enabled C (st c) a"
    "enabled C (st (settle commit_limit C (exec (handle C a (st c)) c))) b"
  shows "\<exists>c'. run C c [UserDo a, UserDo b] = Some c'"
  using assms by simp

text \<open>The first commit runs the mount effects on the initial state.\<close>

definition mount_config :: "('ev, 's) component \<Rightarrow> string \<Rightarrow> string \<Rightarrow> 's config" where
  "mount_config C ck path = \<lparr>st = initial C, rendered = Some (initial C), mounted = True, pend = [],
     timers = [], next_timer = 0, cookie = ck, pathname = path, sent = [], effects = []\<rparr>"

lemma boot_mount:
  "boot C ck path = settle 49 C (exec (after_commit C None (initial C)) (mount_config C ck path))"
proof -
  have n: "commit_limit = Suc 49" by (simp add: commit_limit_def)
  show ?thesis unfolding boot_def mount_config_def n by (subst settle.simps(2)) simp
qed

section \<open>What a program may do\<close>

text \<open>
  \<open>safe I Q E p\<close>: whatever the answers, \<open>p\<close> and its continuations keep the state predicate
  \<open>I\<close>, issue only requests in \<open>Q\<close> and perform only effects in \<open>E\<close>.
\<close>

primrec safe :: "('s \<Rightarrow> bool) \<Rightarrow> (http \<Rightarrow> bool) \<Rightarrow> (effect \<Rightarrow> bool) \<Rightarrow> 's prog \<Rightarrow> bool" where
  "safe I Q E Done = True"
| "safe I Q E (SetSt f p) = ((\<forall>s. I s \<longrightarrow> I (f s)) \<and> safe I Q E p)"
| "safe I Q E (Get f) = (\<forall>s. I s \<longrightarrow> safe I Q E (f s))"
| "safe I Q E (Perform e p) = (E e \<and> safe I Q E p)"
| "safe I Q E (Request q k) = (Q q \<and> (\<forall>r. safe I Q E (k r)))"
| "safe I Q E (Fork p p') = (safe I Q E p \<and> safe I Q E p')"
| "safe I Q E (SetTimer every body k) = ((\<forall>h. safe I Q E (body h)) \<and> (\<forall>h. safe I Q E (k h)))"
| "safe I Q E (ClearTimer h p) = safe I Q E p"

lemma safe_call [react]:
  "safe I Q E (call q result ok er) \<longleftrightarrow>
     Q q \<and> (\<forall>res v. result res = Some v \<longrightarrow> safe I Q E (ok v)) \<and> (\<forall>e. safe I Q E (er e))"
proof
  assume s: "safe I Q E (call q result ok er)"
  have "safe I Q E (ok v)" if "result res = Some v" for res v
    using s that by (auto simp: call_def dest: spec [of _ "Resolved res"])
  moreover have "safe I Q E (er e)" for e
    using s by (auto simp: call_def dest: spec [of _ "Rejected e"])
  ultimately show "Q q \<and> (\<forall>res v. result res = Some v \<longrightarrow> safe I Q E (ok v)) \<and> (\<forall>e. safe I Q E (er e))"
    using s by (auto simp: call_def)
qed (auto simp: call_def split: reply.splits option.splits)

lemma safe_attempt [react]:
  "safe I Q E (attempt m ok er) \<longleftrightarrow>
     (case m of Some v \<Rightarrow> safe I Q E (ok v) | None \<Rightarrow> safe I Q E (er type_error))"
  by (cases m) auto

text \<open>A program that issues no request, now or later.\<close>

abbreviation silent :: "'s prog \<Rightarrow> bool" where
  "silent p \<equiv> safe (\<lambda>_. True) (\<lambda>_. False) (\<lambda>_. True) p"

lemma exec_silent [simp]: "silent p \<Longrightarrow> pend (exec p c) = pend c"
  by (induction p arbitrary: c) (auto simp: Let_def)

text \<open>A program that asks for nothing and sets no timer.\<close>

primrec inert :: "'s prog \<Rightarrow> bool" where
  "inert Done = True"
| "inert (SetSt f p) = inert p"
| "inert (Get f) = (\<forall>s. inert (f s))"
| "inert (Perform e p) = inert p"
| "inert (Request q k) = False"
| "inert (Fork p p') = (inert p \<and> inert p')"
| "inert (SetTimer every body k) = False"
| "inert (ClearTimer h p) = inert p"

lemma exec_inert:
  "inert p \<Longrightarrow> pend (exec p c) = pend c \<and> set (timers (exec p c)) \<subseteq> set (timers c)"
proof (induction p arbitrary: c)
  case (SetSt f p)
  from SetSt.IH [of "if mounted c then c\<lparr>st := f (st c)\<rparr> else c"] SetSt.prems show ?case
    by (cases "mounted c") simp_all
next
  case (Get f)
  from Get.IH [OF rangeI, of "st c" c] Get.prems show ?case by simp
next
  case (Perform e p)
  from Perform.IH [of "c\<lparr>effects := effects c @ [e]\<rparr>"] Perform.prems show ?case by simp
next
  case (Fork p p')
  from Fork.IH(1) [of c] Fork.IH(2) [of "exec p c"] Fork.prems show ?case by auto
next
  case (ClearTimer h p)
  from ClearTimer.IH [of "c\<lparr>timers := filter (\<lambda>t. fst t \<noteq> h) (timers c)\<rparr>"] ClearTimer.prems
  show ?case by auto
qed simp_all

text \<open>Every timer has a handle of its own.\<close>

definition handles_ok :: "'s config \<Rightarrow> bool" where
  "handles_ok c \<longleftrightarrow> distinct (map fst (timers c)) \<and> (\<forall>t \<in> set (timers c). fst t < next_timer c)"

lemma handles_ok_updates [simp]:
  "handles_ok (c\<lparr>st := s\<rparr>) = handles_ok c" "handles_ok (c\<lparr>effects := es\<rparr>) = handles_ok c"
  "handles_ok (c\<lparr>rendered := r\<rparr>) = handles_ok c" "handles_ok (c\<lparr>cookie := k\<rparr>) = handles_ok c"
  "handles_ok (c\<lparr>pend := ps\<rparr>) = handles_ok c" "handles_ok (c\<lparr>mounted := m\<rparr>) = handles_ok c"
  "handles_ok (c\<lparr>sent := qs\<rparr>) = handles_ok c"
  by (simp_all add: handles_ok_def)

lemma handles_ok_filter: "handles_ok c \<Longrightarrow> handles_ok (c\<lparr>timers := filter P (timers c)\<rparr>)"
  by (auto simp: handles_ok_def distinct_map_filter)

lemma handles_ok_mount [simp]: "handles_ok (mount_config C ck path)"
  by (simp add: handles_ok_def mount_config_def)

lemma exec_handles_ok: "handles_ok c \<Longrightarrow> handles_ok (exec p c)"
proof (induction p arbitrary: c)
  case (SetTimer every body k)
  have "handles_ok (c\<lparr>timers := timers c @ [(next_timer c, every, body (next_timer c))],
      next_timer := Suc (next_timer c)\<rparr>)"
    using SetTimer.prems by (auto simp: handles_ok_def less_Suc_eq)
  with SetTimer.IH(2) show ?case by (simp add: Let_def)
next
  case (ClearTimer h p)
  with ClearTimer.IH handles_ok_filter show ?case by auto
qed (auto split: sum.splits)

text \<open>A configuration all of whose parts obey the three predicates.\<close>

definition config_safe ::
  "('s \<Rightarrow> bool) \<Rightarrow> (http \<Rightarrow> bool) \<Rightarrow> (effect \<Rightarrow> bool) \<Rightarrow> 's config \<Rightarrow> bool" where
  "config_safe I Q E c \<longleftrightarrow> I (st c) \<and> (\<forall>s. rendered c = Some s \<longrightarrow> I s) \<and>
     (\<forall>(q, k) \<in> set (pend c). \<forall>r. safe I Q E (k r)) \<and>
     (\<forall>(h, every, p) \<in> set (timers c). safe I Q E p) \<and>
     (\<forall>q' \<in> set (sent c). \<exists>q ck. Q q \<and> request_interceptor ck q = Inr q') \<and>
     (\<forall>e \<in> set (effects c). E e \<or> e = LocationAssign ''/login'')"

lemma exec_safe: "safe I Q E p \<Longrightarrow> config_safe I Q E c \<Longrightarrow> config_safe I Q E (exec p c)"
proof (induction p arbitrary: c)
  case (SetSt f p)
  have "config_safe I Q E (if mounted c then c\<lparr>st := f (st c)\<rparr> else c)"
    using SetSt.prems by (simp add: config_safe_def)
  with SetSt.IH SetSt.prems(1) show ?case by simp
next
  case (Get f)
  then have "safe I Q E (f (st c))" by (simp add: config_safe_def)
  with Get show ?case by auto
next
  case (Perform e p)
  have "config_safe I Q E (c\<lparr>effects := effects c @ [e]\<rparr>)"
    using Perform.prems by (auto simp: config_safe_def)
  with Perform.IH Perform.prems(1) show ?case by simp
next
  case (Request q k)
  show ?case
  proof (cases "request_interceptor (cookie c) q")
    case (Inl e)
    with Request.prems show ?thesis by (simp add: config_safe_def)
  next
    case (Inr q')
    with Request.prems show ?thesis by (auto simp: config_safe_def)
  qed
next
  case (SetTimer every body k)
  have "config_safe I Q E (c\<lparr>timers := timers c @ [(next_timer c, every, body (next_timer c))],
      next_timer := Suc (next_timer c)\<rparr>)"
    using SetTimer.prems by (auto simp: config_safe_def)
  with SetTimer.IH(2) SetTimer.prems(1) show ?case by (simp add: Let_def)
next
  case (ClearTimer h p)
  have "config_safe I Q E (c\<lparr>timers := filter (\<lambda>t. fst t \<noteq> h) (timers c)\<rparr>)"
    using ClearTimer.prems by (auto simp: config_safe_def)
  with ClearTimer.IH ClearTimer.prems(1) show ?case by simp
qed simp_all

locale disciplined =
  fixes C :: "('ev, 's) component"
    and I :: "'s \<Rightarrow> bool" and Q :: "http \<Rightarrow> bool" and E :: "effect \<Rightarrow> bool"
  assumes initial_ok: "I (initial C)"
    and handle_ok: "I s \<Longrightarrow> enabled C s ev \<Longrightarrow> safe I Q E (handle C ev s)"
    and after_commit_ok: "I s \<Longrightarrow> (\<And>t. old = Some t \<Longrightarrow> I t) \<Longrightarrow> safe I Q E (after_commit C old s)"
    and cleanup_ok: "I s \<Longrightarrow> safe I Q E (cleanup C s)"
begin

lemma settle_safe: "config_safe I Q E c \<Longrightarrow> config_safe I Q E (settle n C c)"
proof (induction n arbitrary: c)
  case 0
  then show ?case by simp
next
  case (Suc n)
  have "I (st c)" "\<And>t. rendered c = Some t \<Longrightarrow> I t" using Suc.prems by (simp_all add: config_safe_def)
  then have "safe I Q E (after_commit C (rendered c) (st c))" by (rule after_commit_ok)
  moreover have "config_safe I Q E (c\<lparr>rendered := Some (st c)\<rparr>)"
    using Suc.prems by (auto simp: config_safe_def)
  ultimately have "config_safe I Q E (exec (after_commit C (rendered c) (st c)) (c\<lparr>rendered := Some (st c)\<rparr>))"
    by (rule exec_safe)
  then show ?case using Suc.IH Suc.prems by simp
qed

lemma boot_safe: "config_safe I Q E (boot C ck path)"
  unfolding boot_def by (rule settle_safe) (auto simp: config_safe_def initial_ok)

lemma answer_safe:
  assumes "config_safe I Q E c" "i < length (pend c)"
  shows "config_safe I Q E (answer i r c)"
proof -
  have "\<forall>(q, k) \<in> set (pend c). \<forall>r. safe I Q E (k r)" using assms(1) by (simp add: config_safe_def)
  then have "case pend c ! i of (q, k) \<Rightarrow> \<forall>r. safe I Q E (k r)"
    by (rule bspec) (use assms(2) in simp)
  then have "safe I Q E (snd (pend c ! i) r)" by (simp add: case_prod_beta)
  moreover have "config_safe I Q E (c\<lparr>pend := remove_nth i (pend c),
      effects := effects c @ response_interceptor (pathname c) r\<rparr>)"
    using assms(1) by (auto simp: config_safe_def dest!: in_set_remove_nthD response_interceptor_set)
  ultimately show ?thesis unfolding answer_def by (rule exec_safe)
qed

lemma timer_safe:
  assumes "config_safe I Q E c" "map_of (timers c) h = Some t"
  shows "config_safe I Q E (timer_due h t c)"
proof -
  have "safe I Q E (snd t)"
    using assms by (cases t) (auto simp: config_safe_def dest!: map_of_SomeD)
  moreover have "config_safe I Q E (if fst t then c else c\<lparr>timers := filter (\<lambda>t. fst t \<noteq> h) (timers c)\<rparr>)"
    using assms(1) by (auto simp: config_safe_def)
  ultimately show ?thesis unfolding timer_due_def by (rule exec_safe)
qed

lemma step_safe: "config_safe I Q E c \<Longrightarrow> step C c i = Some c' \<Longrightarrow> config_safe I Q E c'"
proof (cases i)
  case (UserDo ev)
  assume c: "config_safe I Q E c" and s: "step C c i = Some c'"
  from c have "I (st c)" by (simp add: config_safe_def)
  with c s UserDo show ?thesis
    by (auto split: if_splits intro!: settle_safe exec_safe handle_ok)
next
  case Unmount
  assume c: "config_safe I Q E c" and s: "step C c i = Some c'"
  then have "I (st c)" "config_safe I Q E (c\<lparr>mounted := False\<rparr>)" by (auto simp: config_safe_def)
  with s Unmount show ?thesis by (auto split: if_splits intro!: exec_safe cleanup_ok)
qed (auto split: if_splits option.splits intro!: settle_safe answer_safe timer_safe
      simp: config_safe_def [of I Q E "c\<lparr>cookie := _\<rparr>"] config_safe_def [of I Q E c])

theorem reachable_safe: "reachable C c \<Longrightarrow> config_safe I Q E c"
  by (induction rule: reachable.induct) (auto intro: boot_safe step_safe)

lemma invariant: "reachable C c \<Longrightarrow> I (st c)"
  using reachable_safe by (auto simp: config_safe_def)

lemma requests: "reachable C c \<Longrightarrow> q' \<in> set (sent c) \<Longrightarrow>
    \<exists>q ck. Q q \<and> request_interceptor ck q = Inr q'"
  using reachable_safe by (auto simp: config_safe_def)

lemma performed: "reachable C c \<Longrightarrow> e \<in> set (effects c) \<Longrightarrow> E e \<or> e = LocationAssign ''/login''"
  using reachable_safe by (auto simp: config_safe_def)

end

end
