(* ===== verification/Recipients.thy ===== *)
theory Recipients imports Js_RegExp begin

text \<open>
  \<open>parseRecipients\<close> of \<open>web/src/api.js\<close>: the text of an address field becomes a list of
  recipients. Also the text \<open>Compose.jsx\<close> makes of the recipients of a stored draft, which
  \<open>parseRecipients\<close> reads back when the draft is saved again.
\<close>

section \<open>parseRecipients\<close>

text \<open>The expression of line 96: \<open>/^(.*?)\s*<([^>]+)>$/\<close>.\<close>

definition angle_re :: regexp where
  "angle_re = Then (Greedy 0 js_ws) (Then (Class (\<lambda>c. c = CHR ''<''))
     (Then (Group 2 (Greedy 1 (\<lambda>c. c \<noteq> CHR ''>''))) (Then (Class (\<lambda>c. c = CHR ''>'')) AtEnd)))"

definition recipient_re :: regexp where
  "recipient_re = Then AtStart (Then (Group 1 (Lazy (\<lambda>c. \<not> js_eol c))) angle_re)"

text \<open>\<open>m[i].trim()\<close>; both groups take part in every match.\<close>

definition trimmed_group :: "(nat \<Rightarrow> string option) \<Rightarrow> nat \<Rightarrow> string" where
  "trimmed_group m i = (case m i of Some s \<Rightarrow> js_trim s | None \<Rightarrow> [])"

definition parse_token :: "string \<Rightarrow> jsval" where
  "parse_token token =
     (case js_match token recipient_re of
        Some m \<Rightarrow> JObj [(''name'', JStr (trimmed_group m 1)), (''address'', JStr (trimmed_group m 2))]
      | None \<Rightarrow> JObj [(''address'', JStr token)])"

definition separator :: "char \<Rightarrow> bool" where
  "separator c \<longleftrightarrow> c = CHR '','' \<or> c = CHR '';''"

definition tokens :: "string \<Rightarrow> string list" where
  "tokens s = filter (\<lambda>t. t \<noteq> []) (map js_trim (js_split separator s))"

fun parseRecipients :: "jsval \<Rightarrow> jsval" where
  "parseRecipients (JArr xs) = JArr xs"
| "parseRecipients input =
     (if \<not> truthy input then JArr [] else JArr (map parse_token (tokens (js_string input))))"

text \<open>An array goes through unchanged, so parsing twice is parsing once.\<close>

lemma parseRecipients_array: "\<exists>xs. parseRecipients v = JArr xs"
  by (cases v) auto

lemma parseRecipients_idem: "parseRecipients (parseRecipients v) = parseRecipients v"
  using parseRecipients_array [of v] by auto

section \<open>The expression as a scanner\<close>

text \<open>
  \<open>angle_tail\<close>: optional white space, then an address in angle brackets up to the end.
  \<open>scan_recipient\<close> tries it at each position in turn; the text before it is the name, which
  must stay on one line.
\<close>

definition angle_tail :: "string \<Rightarrow> string option" where
  "angle_tail s =
     (case js_trim_start s of
        [] \<Rightarrow> None
      | c # u \<Rightarrow>
          if c = CHR ''<'' \<and> u \<noteq> [] \<and> last u = CHR ''>'' \<and> butlast u \<noteq> [] \<and> CHR ''>'' \<notin> set (butlast u)
          then Some (butlast u) else None)"

fun scan_recipient :: "string \<Rightarrow> string \<Rightarrow> (string \<times> string) option" where
  "scan_recipient acc s =
     (case angle_tail s of
        Some a \<Rightarrow> Some (rev acc, a)
      | None \<Rightarrow> (case s of [] \<Rightarrow> None | c # cs \<Rightarrow> if js_eol c then None else scan_recipient (c # acc) cs))"

declare scan_recipient.simps [simp del]

definition close_re :: regexp where
  "close_re = Then (Group 2 (Greedy 1 (\<lambda>c. c \<noteq> CHR ''>''))) (Then (Class (\<lambda>c. c = CHR ''>'')) AtEnd)"

lemma close_text:
  "dropWhile (\<lambda>c. c \<noteq> CHR ''>'') u = [CHR ''>''] \<longleftrightarrow>
     u \<noteq> [] \<and> last u = CHR ''>'' \<and> CHR ''>'' \<notin> set (butlast u)"
proof (induction u)
  case (Cons c u)
  show ?case
  proof (cases u)
    case (Cons d v)
    with Cons.IH show ?thesis by auto
  qed auto
qed simp

lemma close_text_butlast:
  "dropWhile (\<lambda>c. c \<noteq> CHR ''>'') u = [CHR ''>''] \<Longrightarrow>
   takeWhile (\<lambda>c. c \<noteq> CHR ''>'') u = butlast u"
proof (induction u)
  case (Cons c u)
  then show ?case by (cases u) (auto split: if_splits)
qed simp

lemma rmatch_close:
  "map caps (rmatch close_re st) =
     (let u = left st in
      if u \<noteq> [] \<and> last u = CHR ''>'' \<and> butlast u \<noteq> [] \<and> CHR ''>'' \<notin> set (butlast u)
      then [(2, butlast u) # caps st] else [])"
proof -
  let ?P = "\<lambda>c. c \<noteq> CHR ''>''" and ?u = "left st"
  let ?n = "class_run ?P st" and ?fin = "Then (Class (\<lambda>c. c = CHR ''>'')) AtEnd"
  let ?a = "takeWhile ?P ?u" and ?d = "dropWhile ?P ?u"
  have "rmatch close_re st =
      (if 1 \<le> ?n then rmatch ?fin ((eat ?n st)\<lparr>caps := (2, take ?n ?u) # caps st\<rparr>) else [])"
    unfolding close_re_def by (rule greedy_group_then) auto
  moreover have t: "take ?n ?u = ?a" "drop ?n ?u = ?d" "1 \<le> ?n \<longleftrightarrow> ?a \<noteq> []"
    unfolding class_run_def by (simp_all add: takeWhile_eq_take [symmetric] dropWhile_eq_drop Suc_le_eq)
  moreover have "rmatch ?fin st' = (if left st' = [CHR ''>''] then [eat 1 st'] else [])" for st'
    by (cases "left st'") auto
  ultimately have m: "map caps (rmatch close_re st) =
      (if ?a \<noteq> [] \<and> ?d = [CHR ''>''] then [(2, ?a) # caps st] else [])"
    by (simp only: t mstate.simps eat_simps if_distrib [of "map caps"] list.map if_bool_eq_conj) (auto simp: t(2))
  show ?thesis
  proof (cases "?d = [CHR ''>'']")
    case True
    then show ?thesis using m close_text [of ?u] close_text_butlast [of ?u] by (simp add: Let_def)
  next
    case False
    then show ?thesis using m close_text [of ?u] by (auto simp: Let_def)
  qed
qed

definition open_re :: regexp where
  "open_re = Then (Class (\<lambda>c. c = CHR ''<'')) close_re"

lemma rmatch_open:
  "rmatch open_re st = (case left st of [] \<Rightarrow> []
      | c # u \<Rightarrow> if c = CHR ''<'' then rmatch close_re (eat 1 st) else [])"
  by (cases "left st") (simp_all add: open_re_def)

lemma rmatch_angle:
  "map caps (rmatch angle_re st) =
     (case angle_tail (left st) of Some a \<Rightarrow> [(2, a) # caps st] | None \<Rightarrow> [])"
proof -
  let ?n = "class_run js_ws st" 
  have no: "rmatch open_re st' = []" if "left st' \<noteq> []" "js_ws (hd (left st'))" for st'
    using that by (cases "left st'") (auto simp: rmatch_open js_ws_def)
  have "angle_re = Then (Greedy 0 js_ws) open_re"
    by (simp add: angle_re_def open_re_def close_re_def)
  then have e: "rmatch angle_re st = rmatch open_re (eat ?n st)"
    using greedy_then [where P = js_ws and r = open_re and m = 0, OF no] by simp
  have d: "drop ?n (left st) = js_trim_start (left st)"
    by (simp add: class_run_def js_trim_start_def dropWhile_eq_drop)
  show ?thesis
  proof (cases "js_trim_start (left st)")
    case Nil
    with d show ?thesis by (simp add: e rmatch_open angle_tail_def)
  next
    case (Cons c u)
    with d have dc: "drop ?n (left st) = c # u" by simp
    have "drop (Suc ?n) (left st) = tl (drop ?n (left st))" by (simp add: drop_Suc tl_drop)
    then have "drop (Suc ?n) (left st) = u" using dc by simp
    with rmatch_close [of "eat (Suc ?n) st"] show ?thesis
      by (auto simp add: e rmatch_open dc angle_tail_def Cons Let_def eat_eat)
  qed
qed

text \<open>The candidates of the lazy group, shortest name first.\<close>

definition name_ends :: "string \<Rightarrow> string \<Rightarrow> (nat \<times> string) list list" where
  "name_ends acc s = concat (map (\<lambda>n. case angle_tail (drop n s) of
       Some a \<Rightarrow> [[(2, a), (1, acc @ take n s)]] | None \<Rightarrow> [])
     [0..<Suc (length (takeWhile (\<lambda>c. \<not> js_eol c) s))])"

lemma name_ends_step:
  "name_ends acc [] = (case angle_tail [] of Some a \<Rightarrow> [[(2, a), (1, acc)]] | None \<Rightarrow> [])"
  "name_ends acc (c # cs) =
     (case angle_tail (c # cs) of Some a \<Rightarrow> [[(2, a), (1, acc)]] | None \<Rightarrow> []) @
     (if js_eol c then [] else name_ends (acc @ [c]) cs)"
proof -
  show "name_ends acc [] = (case angle_tail [] of Some a \<Rightarrow> [[(2, a), (1, acc)]] | None \<Rightarrow> [])"
    by (simp add: name_ends_def split: option.split)
  have u: "[0..<Suc (Suc k)] = 0 # map Suc [0..<Suc k]" for k
    unfolding map_Suc_upt by (rule upt_conv_Cons) simp
  show "name_ends acc (c # cs) =
     (case angle_tail (c # cs) of Some a \<Rightarrow> [[(2, a), (1, acc)]] | None \<Rightarrow> []) @
     (if js_eol c then [] else name_ends (acc @ [c]) cs)"
  proof (cases "js_eol c")
    case True
    then show ?thesis by (simp add: name_ends_def split: option.split)
  next
    case False
    then have l: "length (takeWhile (\<lambda>c. \<not> js_eol c) (c # cs))
        = Suc (length (takeWhile (\<lambda>c. \<not> js_eol c) cs))" by simp
    show ?thesis using False
      by (simp only: name_ends_def l u list.map map_map comp_def concat.simps drop_0 take_0
          append_Nil2 drop_Suc_Cons take_Suc_Cons if_False append_assoc append_Cons append_Nil)
  qed
qed

lemma first_name_end:
  "first_of (name_ends acc s) = map_option (\<lambda>(n, a). [(2, a), (1, n)]) (scan_recipient (rev acc) s)"
proof (induction s arbitrary: acc)
  case Nil
  show ?case by (subst scan_recipient.simps) (simp add: name_ends_step split: option.splits)
next
  case (Cons c cs)
  show ?case
    using Cons.IH [of "acc @ [c]"]
    by (subst scan_recipient.simps) (auto simp: name_ends_step split: option.splits)
qed

text \<open>The regular expression finds what the scanner finds, on every text.\<close>

lemma recipient_match:
  "js_match token recipient_re = map_option (\<lambda>(n, a). [2 \<mapsto> a, 1 \<mapsto> n]) (scan_recipient [] token)"
proof -
  let ?P = "\<lambda>c. \<not> js_eol c"
  let ?st = "\<lparr>at_start = True, left = token, caps = []\<rparr>"
  let ?k = "length (takeWhile ?P token)"
  let ?mid = "\<lambda>n. (eat n ?st)\<lparr>caps := [(1, take n token)]\<rparr>"
  have k: "class_run ?P ?st = ?k" by (simp add: class_run_def)
  have le: "?k \<le> length token" by (rule length_takeWhile_le)
  have "rmatch (Group 1 (Lazy ?P)) ?st = map ?mid [0..<Suc ?k]"
    unfolding rmatch.simps k by (rule list.map_cong0 [THEN trans [OF map_map]])
      (use le in \<open>auto simp del: upt_Suc simp: less_Suc_eq_le\<close>)
  moreover have "(\<lambda>n. map caps (rmatch angle_re (?mid n))) =
      (\<lambda>n. case angle_tail (drop n token) of Some a \<Rightarrow> [[(2, a), (1, [] @ take n token)]] | None \<Rightarrow> [])"
    by (auto simp: fun_eq_iff rmatch_angle split: option.split)
  ultimately have "map caps (rmatch (Then (Group 1 (Lazy ?P)) angle_re) ?st) = name_ends [] token"
    unfolding rmatch.simps(4) name_ends_def by (simp only: map_concat map_map comp_def)
  moreover have "match_from recipient_re True token =
      first_of (rmatch (Then (Group 1 (Lazy ?P)) angle_re) ?st)"
    unfolding recipient_re_def anchored_match first_of_def by simp
  ultimately have "map_option caps (match_from recipient_re True token) =
      map_option (\<lambda>(n, a). [(2, a), (1, n)]) (scan_recipient [] token)"
    using first_name_end [of "[]" token] by (metis first_of_map rev.simps(1))
  then show ?thesis
    unfolding js_match_def
    by (cases "match_from recipient_re True token"; cases "scan_recipient [] token") auto
qed

section \<open>Stored recipients\<close>

text \<open>
  Lines 57 to 59 of \<open>Compose.jsx\<close>: the recipients of a stored draft become the text of an
  address field. The server names the address \<open>email\<close> there and \<open>address\<close> in what it accepts.
\<close>

definition show_recipient :: "jsval \<Rightarrow> jsval option" where
  "show_recipient t = do {
     n \<leftarrow> js_get t ''name'';
     e \<leftarrow> js_get t ''email'';
     Some (if truthy n then JStr (js_string n @ '' <'' @ js_string e @ ''>'') else e) }"

definition show_recipients :: "jsval \<Rightarrow> string option" where
  "show_recipients v = do {
     ts \<leftarrow> js_elems (js_or v (JArr []));
     ws \<leftarrow> sequence (map show_recipient ts);
     Some (js_join '', '' (map (\<lambda>w. if nullish w then [] else js_string w) ws)) }"

text \<open>A recipient as name and address: stored by the server, and sent to it.\<close>

definition stored :: "string \<times> string \<Rightarrow> jsval" where
  "stored r = JObj [(''name'', JStr (fst r)), (''email'', JStr (snd r))]"

definition submitted :: "string \<times> string \<Rightarrow> jsval" where
  "submitted r = (if fst r = [] then JObj [(''address'', JStr (snd r))]
     else JObj [(''name'', JStr (fst r)), (''address'', JStr (snd r))])"

definition recipient_text :: "string \<times> string \<Rightarrow> string" where
  "recipient_text r = (if fst r = [] then snd r else fst r @ '' <'' @ snd r @ ''>'')"

text \<open>The recipients the text form can carry.\<close>

definition plain_recipient :: "string \<times> string \<Rightarrow> bool" where
  "plain_recipient r \<longleftrightarrow>
     trimmed (fst r) \<and> list_all (\<lambda>c. \<not> separator c \<and> \<not> js_eol c \<and> c \<noteq> CHR ''<'') (fst r) \<and>
     snd r \<noteq> [] \<and> trimmed (snd r) \<and> list_all (\<lambda>c. \<not> separator c \<and> c \<noteq> CHR ''>'') (snd r)"

lemma show_recipients_stored:
  "show_recipients (JArr (map stored rs)) = Some (js_join '', '' (map recipient_text rs))"
proof -
  have "show_recipient (stored r) = Some (JStr (recipient_text r))" for r
    by (simp add: show_recipient_def stored_def recipient_text_def)
  then show ?thesis by (simp add: show_recipients_def comp_def)
qed

lemma angle_tail_none: "CHR ''>'' \<notin> set s \<Longrightarrow> angle_tail s = None"
proof -
  assume "CHR ''>'' \<notin> set s"
  then have "CHR ''>'' \<notin> set (js_trim_start s)"
    by (auto simp: js_trim_start_def dest: set_dropWhileD)
  then show ?thesis
    by (cases "js_trim_start s") (auto simp: angle_tail_def dest: last_in_set)
qed

lemma scan_plain: "CHR ''>'' \<notin> set s \<Longrightarrow> scan_recipient acc s = None"
proof (induction s arbitrary: acc)
  case Nil
  then show ?case by (subst scan_recipient.simps) (simp add: angle_tail_none)
next
  case (Cons c s)
  then show ?case by (subst scan_recipient.simps) (simp add: angle_tail_none)
qed

lemma angle_tail_name:
  assumes "n \<noteq> []" "\<not> js_ws (last n)" "CHR ''<'' \<notin> set n"
  shows "angle_tail (n @ s) = None"
proof -
  have "last n \<in> set n" using assms(1) by simp
  with assms(2) have ne: "dropWhile js_ws n \<noteq> []" by auto
  then have "hd (dropWhile js_ws n) \<in> set n"
    by (metis list.set_sel(1) set_dropWhileD)
  with assms(3) have h: "hd (dropWhile js_ws n) \<noteq> CHR ''<''" by metis
  have "js_trim_start (n @ s) = dropWhile js_ws n @ s"
    using ne by (auto simp: js_trim_start_def dropWhile_append)
  with ne h show ?thesis by (cases "dropWhile js_ws n") (simp_all add: angle_tail_def)
qed

lemma scan_name:
  assumes "n = [] \<or> \<not> js_ws (last n)" "CHR ''<'' \<notin> set n" "list_all (\<lambda>c. \<not> js_eol c) n"
    "a \<noteq> []" "CHR ''>'' \<notin> set a"
  shows "scan_recipient acc (n @ '' <'' @ a @ ''>'') = Some (rev acc @ n, a)"
  using assms(1-3)
proof (induction n arbitrary: acc)
  case Nil
  have "angle_tail ('' <'' @ a @ ''>'') = Some a"
    using assms(4,5) by (simp add: angle_tail_def js_trim_start_def js_ws_def butlast_append)
  then show ?case by (subst scan_recipient.simps) simp
next
  case (Cons c n)
  have "angle_tail ((c # n) @ '' <'' @ a @ ''>'') = None"
    by (rule angle_tail_name) (use Cons.prems in auto)
  moreover have "scan_recipient (c # acc) (n @ '' <'' @ a @ ''>'') = Some (rev (c # acc) @ n, a)"
    by (rule Cons.IH) (use Cons.prems in \<open>auto split: if_splits\<close>)
  ultimately show ?case using Cons.prems
    by (subst scan_recipient.simps) (simp del: rev.simps, simp)
qed

lemma parse_token_text:
  assumes r: "plain_recipient r"
  shows "parse_token (recipient_text r) = submitted r"
proof (cases "fst r = []")
  case True
  have "CHR ''>'' \<notin> set (snd r)" using r by (auto simp: plain_recipient_def list_all_iff)
  with True show ?thesis
    by (simp add: parse_token_def recipient_text_def submitted_def recipient_match scan_plain)
next
  case False
  have "scan_recipient [] (fst r @ '' <'' @ snd r @ ''>'') = Some (rev [] @ fst r, snd r)"
    by (rule scan_name) (use r in \<open>auto simp: plain_recipient_def list_all_iff trimmed_def\<close>)
  with False r show ?thesis
    by (cases r) (simp add: parse_token_def recipient_text_def submitted_def recipient_match
        trimmed_group_def trimmed_trim plain_recipient_def)
qed

lemma trim_recipient_text: "plain_recipient r \<Longrightarrow> js_trim (recipient_text r) = recipient_text r"
proof (rule trimmed_trim)
  assume "plain_recipient r"
  then show "trimmed (recipient_text r)"
    by (auto simp: plain_recipient_def recipient_text_def trimmed_def) (auto simp: js_ws_def)
qed

lemma tokens_join:
  assumes "list_all plain_recipient rs"
  shows "tokens (js_join '', '' (map recipient_text rs)) = map recipient_text rs"
proof (cases rs)
  case Nil
  then show ?thesis by (simp add: tokens_def js_trim_def js_trim_start_def)
next
  case (Cons r rs')
  have ne: "recipient_text x \<noteq> []" if "plain_recipient x" for x
    using that by (simp add: recipient_text_def plain_recipient_def)
  have sep: "list_all (\<lambda>c. \<not> separator c) (recipient_text x)" if "plain_recipient x" for x
    using that by (auto simp: recipient_text_def plain_recipient_def list_all_iff separator_def)
  have trim: "map js_trim (map ((#) CHR '' '') (map recipient_text rs')) = map recipient_text rs'"
    using assms Cons by (auto simp: list_all_iff trim_recipient_text)
  have sep1: "separator CHR '',''" "\<not> separator CHR '' ''" by (simp_all add: separator_def)
  have l: "list_all (list_all (\<lambda>c. \<not> separator c)) (map recipient_text rs)"
    using assms sep by (auto simp: list_all_iff)
  have "js_split separator (js_join '', '' (map recipient_text rs))
      = recipient_text r # map ((#) CHR '' '') (map recipient_text rs')"
    using js_split_join_space [OF l, where d = "CHR '',''"] Cons sep1 by simp
  then have "tokens (js_join '', '' (map recipient_text rs))
      = filter (\<lambda>t. t \<noteq> []) (map recipient_text rs)"
    unfolding tokens_def using assms Cons trim by (simp add: trim_recipient_text del: map_map)
  with assms ne show ?thesis by (auto simp: list_all_iff filter_id_conv)
qed

lemma parse_show_recipients:
  assumes "list_all plain_recipient rs"
  shows "map_option (\<lambda>s. parseRecipients (JStr s)) (show_recipients (JArr (map stored rs)))
    = Some (JArr (map submitted rs))"
proof -
  let ?s = "js_join '', '' (map recipient_text rs)"
  have "map parse_token (tokens ?s) = map submitted rs"
    using assms by (simp add: tokens_join list_all_iff parse_token_text)
  moreover have "?s = [] \<Longrightarrow> rs = []"
    using assms tokens_join [OF assms] by (auto simp: tokens_def js_trim_def js_trim_start_def)
  ultimately show ?thesis by (auto simp: show_recipients_stored)
qed

section \<open>Properties\<close>

text \<open>
  C11. The regular expression of \<open>parseRecipients\<close> splits a token like the scanner, on every text: the
  name is the shortest prefix, within one line, that leaves optional white space, an opening
  bracket, a non-empty address without closing bracket, and one closing bracket at the very end;
  a token with no such split is an address as it stands.
\<close>

theorem parse_token_scan:
  "parse_token token =
     (case scan_recipient [] token of
        Some (n, a) \<Rightarrow> JObj [(''name'', JStr (js_trim n)), (''address'', JStr (js_trim a))]
      | None \<Rightarrow> JObj [(''address'', JStr token)])"
  by (auto simp: parse_token_def recipient_match trimmed_group_def split: option.splits)

text \<open>
  C12. Opening a stored draft and saving it again keeps its recipients: the text \<open>Compose\<close> makes of
  them parses back to the same names and addresses, in order, when no name or address holds a
  separator, no name an opening bracket or a line break, no address a closing bracket, and
  neither begins or ends with white space.
\<close>

theorem draft_recipients_roundtrip:
  assumes "list_all plain_recipient rs"
  shows "map_option (\<lambda>s. parseRecipients (JStr s)) (show_recipients (JArr (map stored rs)))
    = Some (JArr (map submitted rs))"
  by (rule parse_show_recipients [OF assms])

theorem draft_recipients_roundtrip_witness:
  "map_option (\<lambda>s. parseRecipients (JStr s))
     (show_recipients (JArr (map stored [(''Ann Lee'', ''ann@x.org''), ([], ''bob@y.org'')])))
   = Some (JArr (map submitted [(''Ann Lee'', ''ann@x.org''), ([], ''bob@y.org'')]))"
  by (rule draft_recipients_roundtrip)
    (simp add: plain_recipient_def trimmed_def separator_def js_eol_def js_ws_def)

text \<open>
  The separator matters: a stored recipient whose display name is of the form \<open>Last, First\<close>
  comes back as two recipients, the first of them an address that is only the last name.
\<close>

theorem draft_recipients_comma:
  "map_option (\<lambda>s. parseRecipients (JStr s)) (show_recipients (JArr [stored (''Doe, Jane'', ''jane@x.org'')]))
   = Some (JArr [submitted ([], ''Doe''), submitted (''Jane'', ''jane@x.org'')])"
proof -
  have joined: "js_join '', '' (map recipient_text [([], ''Doe''), (''Jane'', ''jane@x.org'')])
      = recipient_text (''Doe, Jane'', ''jane@x.org'')"
    by (simp add: recipient_text_def)
  have "list_all plain_recipient [([], ''Doe''), (''Jane'', ''jane@x.org'')]"
    by (simp add: plain_recipient_def trimmed_def separator_def js_eol_def js_ws_def)
  from parse_show_recipients [OF this] show ?thesis
    using joined show_recipients_stored [of "[(''Doe, Jane'', ''jane@x.org'')]"]
      show_recipients_stored [of "[([], ''Doe''), (''Jane'', ''jane@x.org'')]"] by simp
qed

end
