(* ===== verification/Api.thy ===== *)
theory Api imports Reactor Recipients begin

text \<open>
  The functions of \<open>web/src/api.js\<close>, in the order of the file. Each one is a request, what it
  makes of the response, and the two continuations of the promise it returns
  (\<open>Reactor.call\<close>). An identifier goes into the URL through a template literal, so it is
  converted with \<open>js_string\<close>; it is not percent-encoded, as in the code.
\<close>

type_synonym 's api = "(jsval \<Rightarrow> 's prog) \<Rightarrow> (jsval \<Rightarrow> 's prog) \<Rightarrow> 's prog"

section \<open>Results\<close>

definition res_data :: "jsval \<Rightarrow> jsval option" where
  "res_data res = js_get res ''data''"

definition res_field :: "string \<Rightarrow> jsval \<Rightarrow> jsval option" where
  "res_field k res = do { d \<leftarrow> js_get res ''data''; js_get d k }"

text \<open>\<open>res.data.k || d\<close>.\<close>

definition res_or :: "string \<Rightarrow> jsval \<Rightarrow> jsval \<Rightarrow> jsval option" where
  "res_or k d res = do { v \<leftarrow> res_field k res; Some (js_or v d) }"

definition no_result :: "jsval \<Rightarrow> jsval option" where
  "no_result res = Some Undefined"

text \<open>\<open>new URLSearchParams({ ...params })\<close>: every value is converted to a string.\<close>

definition search_params :: "jsval \<Rightarrow> (string \<times> string) list" where
  "search_params params = map (\<lambda>(k, v). (k, js_string v)) (js_entries params)"

text \<open>\<open>{ ...a, ...b }\<close>.\<close>

definition js_spread :: "jsval \<Rightarrow> jsval \<Rightarrow> jsval" where
  "js_spread a b = JObj (fold (\<lambda>(k, v) kvs. assoc_set k v kvs) (js_entries b) (js_entries a))"

section \<open>Session, labels, messages\<close>

definition login :: "jsval \<Rightarrow> jsval \<Rightarrow> 's api" where [api]:
  "login email password =
     call (request ''post'' ''/auth/login'' (Json (JObj [(''email'', email), (''password'', password)]))) (res_field ''user'')"

definition logout :: "'s api" where [api]:
  "logout =
     call (request ''post'' ''/auth/logout'' NoBody) no_result"

definition getMe :: "'s api" where [api]:
  "getMe =
     call (request ''get'' ''/auth/me'' NoBody) (res_field ''user'')"

definition getLabels :: "'s api" where [api]:
  "getLabels =
     call (request ''get'' ''/labels'' NoBody) (res_or ''labels'' (JArr []))"

definition messages_query :: "jsval \<Rightarrow> jsval \<Rightarrow> (string \<times> string) list" where
  "messages_query labelId params =
     (let query = search_params params in
      if truthy labelId then assoc_set ''label_id'' (js_string labelId) query else query)"

definition getMessages :: "jsval \<Rightarrow> jsval \<Rightarrow> 's api" where [api]:
  "getMessages labelId params =
     call (request ''get'' (''/messages?'' @ url_serialize (messages_query labelId params)) NoBody) res_data"

definition getMessage :: "jsval \<Rightarrow> 's api" where [api]:
  "getMessage ident =
     call (request ''get'' (''/messages/'' @ js_string ident) NoBody) res_data"

definition patchMessage :: "jsval \<Rightarrow> jsval \<Rightarrow> 's api" where [api]:
  "patchMessage ident updates =
     call (request ''patch'' (''/messages/'' @ js_string ident) (Json updates)) res_data"

definition deleteMessage :: "jsval \<Rightarrow> 's api" where [api]:
  "deleteMessage ident =
     call (request ''delete'' (''/messages/'' @ js_string ident) NoBody) no_result"

definition batchMessages :: "jsval \<Rightarrow> jsval \<Rightarrow> 's api" where [api]:
  "batchMessages action messageIds =
     call (request ''post'' ''/messages/batch'' (Json (JObj [(''action'', action), (''message_ids'', messageIds)]))) res_data"

definition getThread :: "jsval \<Rightarrow> 's api" where [api]:
  "getThread ident =
     call (request ''get'' (''/threads/'' @ js_string ident) NoBody) res_data"

section \<open>Drafts\<close>

text \<open>Lines 102 to 111. The argument is read with \<open>data.k\<close>, so a nullish one throws.\<close>

definition toDraftPayload :: "jsval \<Rightarrow> jsval option" where
  "toDraftPayload data = do {
     subject \<leftarrow> js_get data ''subject'';
     to \<leftarrow> js_get data ''to'';
     cc \<leftarrow> js_get data ''cc'';
     bcc \<leftarrow> js_get data ''bcc'';
     html_body \<leftarrow> js_get data ''html_body'';
     plain_text \<leftarrow> js_get data ''plain_text'';
     Some (JObj [
       (''subject'', js_or subject (JStr [])),
       (''to'', parseRecipients to),
       (''cc'', parseRecipients cc),
       (''bcc'', parseRecipients bcc),
       (''html_body'', js_or html_body (JStr [])),
       (''plain_text'', js_or plain_text (JStr []))]) }"

definition createDraft :: "jsval \<Rightarrow> 's api" where [api]:
  "createDraft data ok er = attempt (toDraftPayload data)
     (\<lambda>body. call (request ''post'' ''/drafts'' (Json body)) res_data ok er) er"

definition updateDraft :: "jsval \<Rightarrow> jsval \<Rightarrow> 's api" where [api]:
  "updateDraft ident data ok er = attempt (toDraftPayload data)
     (\<lambda>body. call (request ''put'' (''/drafts/'' @ js_string ident) (Json body)) res_data ok er) er"

definition sendDraft :: "jsval \<Rightarrow> 's api" where [api]:
  "sendDraft ident =
     call (request ''post'' (''/drafts/'' @ js_string ident @ ''/send'') NoBody) no_result"

definition listDraftAttachments :: "jsval \<Rightarrow> 's api" where [api]:
  "listDraftAttachments ident =
     call (request ''get'' (''/drafts/'' @ js_string ident @ ''/attachments'') NoBody) (res_or ''attachments'' (JArr []))"

definition with_header :: "string \<Rightarrow> string \<Rightarrow> http \<Rightarrow> http" where
  "with_header k v q = q\<lparr>req_headers := assoc_set k v (req_headers q)\<rparr>"

definition uploadDraftAttachment :: "jsval \<Rightarrow> jsval \<Rightarrow> 's api" where [api]:
  "uploadDraftAttachment ident file =
     call (with_header ''Content-Type'' ''multipart/form-data''
       (request ''post'' (''/drafts/'' @ js_string ident @ ''/attachments'') (FormData [(''file'', file)]))) res_data"

definition deleteDraftAttachment :: "jsval \<Rightarrow> jsval \<Rightarrow> 's api" where [api]:
  "deleteDraftAttachment ident attID =
     call (request ''delete'' (''/drafts/'' @ js_string ident @ ''/attachments/'' @ js_string attID) NoBody) no_result"

definition searchMessages :: "jsval \<Rightarrow> jsval \<Rightarrow> 's api" where [api]:
  "searchMessages q params =
     call (request ''get'' (''/search?'' @ url_serialize (search_params (js_spread (JObj [(''q'', q)]) params))) NoBody)
       res_data"

section \<open>Administration\<close>

definition getDomains :: "'s api" where [api]:
  "getDomains =
     call (no_base (request ''get'' ''/admin/api/v1/domains'' NoBody)) (res_or ''domains'' (JArr []))"

definition createDomain :: "jsval \<Rightarrow> 's api" where [api]:
  "createDomain data =
     call (no_base (request ''post'' ''/admin/api/v1/domains'' (Json data))) res_data"

definition updateDomain :: "jsval \<Rightarrow> jsval \<Rightarrow> 's api" where [api]:
  "updateDomain ident data =
     call (no_base (request ''put'' (''/admin/api/v1/domains/'' @ js_string ident) (Json data))) res_data"

definition deleteDomain :: "jsval \<Rightarrow> 's api" where [api]:
  "deleteDomain ident =
     call (no_base (request ''delete'' (''/admin/api/v1/domains/'' @ js_string ident) NoBody)) no_result"

definition toggleDomainActive :: "jsval \<Rightarrow> jsval \<Rightarrow> 's api" where [api]:
  "toggleDomainActive ident isActive =
     call (no_base (request ''patch'' (''/admin/api/v1/domains/'' @ js_string ident @ ''/active'') (Json (JObj [(''is_active'', isActive)])))) res_data"

definition getHealth :: "'s api" where [api]:
  "getHealth =
     call (no_base (request ''get'' ''/admin/api/v1/health'' NoBody)) res_data"

definition getAdminUsers :: "jsval \<Rightarrow> jsval \<Rightarrow> 's api" where [api]:
  "getAdminUsers limit offset =
     call (no_base (request ''get'' (''/admin/api/v1/users?limit='' @ js_string limit @ ''&offset='' @ js_string offset) NoBody)) (res_or ''users'' (JArr []))"

definition createAdminUser :: "jsval \<Rightarrow> 's api" where [api]:
  "createAdminUser data =
     call (no_base (request ''post'' ''/admin/api/v1/users'' (Json data))) res_data"

definition updateAdminUser :: "jsval \<Rightarrow> jsval \<Rightarrow> 's api" where [api]:
  "updateAdminUser ident data =
     call (no_base (request ''put'' (''/admin/api/v1/users/'' @ js_string ident) (Json data))) res_data"

definition deleteAdminUser :: "jsval \<Rightarrow> 's api" where [api]:
  "deleteAdminUser ident =
     call (no_base (request ''delete'' (''/admin/api/v1/users/'' @ js_string ident) NoBody)) no_result"

definition resetAdminUserPassword :: "jsval \<Rightarrow> jsval \<Rightarrow> 's api" where [api]:
  "resetAdminUserPassword ident password =
     call (no_base (request ''post'' (''/admin/api/v1/users/'' @ js_string ident @ ''/reset-password'') (Json (JObj [(''password'', password)])))) res_data"

definition addUserDomain :: "jsval \<Rightarrow> jsval \<Rightarrow> jsval \<Rightarrow> 's api" where [api]:
  "addUserDomain userId domainId role =
     call (no_base (request ''post'' (''/admin/api/v1/users/'' @ js_string userId @ ''/domains'') (Json (JObj [(''domain_id'', domainId), (''role'', role)])))) (res_field ''membership'')"

definition updateUserDomainRole :: "jsval \<Rightarrow> jsval \<Rightarrow> jsval \<Rightarrow> 's api" where [api]:
  "updateUserDomainRole userId domainId role =
     call (no_base (request ''put'' (''/admin/api/v1/users/'' @ js_string userId @ ''/domains/'' @ js_string domainId) (Json (JObj [(''role'', role)])))) res_data"

definition removeUserDomain :: "jsval \<Rightarrow> jsval \<Rightarrow> 's api" where [api]:
  "removeUserDomain userId domainId =
     call (no_base (request ''delete'' (''/admin/api/v1/users/'' @ js_string userId @ ''/domains/'' @ js_string domainId) NoBody)) no_result"

definition listAliases :: "jsval \<Rightarrow> 's api" where [api]:
  "listAliases domainId =
     call (no_base (request ''get'' (''/admin/api/v1/domains/'' @ js_string domainId @ ''/aliases'') NoBody)) (res_or ''aliases'' (JArr []))"

definition createAlias :: "jsval \<Rightarrow> jsval \<Rightarrow> jsval \<Rightarrow> 's api" where [api]:
  "createAlias domainId localPart userIds =
     call (no_base (request ''post'' (''/admin/api/v1/domains/'' @ js_string domainId @ ''/aliases'') (Json (JObj [(''local_part'', localPart), (''user_ids'', userIds)])))) (res_field ''alias'')"

definition setAliasTargets :: "jsval \<Rightarrow> jsval \<Rightarrow> 's api" where [api]:
  "setAliasTargets aliasId userIds =
     call (no_base (request ''put'' (''/admin/api/v1/aliases/'' @ js_string aliasId @ ''/targets'') (Json (JObj [(''user_ids'', userIds)])))) res_data"

definition deleteAlias :: "jsval \<Rightarrow> 's api" where [api]:
  "deleteAlias aliasId =
     call (no_base (request ''delete'' (''/admin/api/v1/aliases/'' @ js_string aliasId) NoBody)) no_result"

definition setDomainCatchall :: "jsval \<Rightarrow> jsval \<Rightarrow> 's api" where [api]:
  "setDomainCatchall domainId userId =
     call (no_base (request ''patch'' (''/admin/api/v1/domains/'' @ js_string domainId @ ''/catchall'') (Json (JObj [(''user_id'', userId)])))) res_data"

definition getAdminSettings :: "'s api" where [api]:
  "getAdminSettings =
     call (no_base (request ''get'' ''/admin/api/v1/settings'' NoBody)) (res_or ''settings'' (JObj []))"

definition updateAdminSettings :: "jsval \<Rightarrow> 's api" where [api]:
  "updateAdminSettings settings =
     call (no_base (request ''put'' ''/admin/api/v1/settings'' (Json settings))) res_data"

definition getTLSStatus :: "'s api" where [api]:
  "getTLSStatus =
     call (no_base (request ''get'' ''/admin/api/v1/tls/status'' NoBody)) (res_field ''status'')"

definition getTLSProviders :: "'s api" where [api]:
  "getTLSProviders =
     call (no_base (request ''get'' ''/admin/api/v1/tls/providers'' NoBody)) (res_or ''providers'' (JArr []))"

definition getTLSConfig :: "'s api" where [api]:
  "getTLSConfig =
     call (no_base (request ''get'' ''/admin/api/v1/tls/config'' NoBody)) (res_field ''config'')"

definition updateTLSConfig :: "jsval \<Rightarrow> 's api" where [api]:
  "updateTLSConfig data =
     call (no_base (request ''put'' ''/admin/api/v1/tls/config'' (Json data))) res_data"

definition getTLSDomains :: "'s api" where [api]:
  "getTLSDomains =
     call (no_base (request ''get'' ''/admin/api/v1/tls/domains'' NoBody)) (res_or ''domains'' (JArr []))"

definition addTLSDomain :: "jsval \<Rightarrow> 's api" where [api]:
  "addTLSDomain domain =
     call (no_base (request ''post'' ''/admin/api/v1/tls/domains'' (Json (JObj [(''domain'', domain)])))) res_data"

definition deleteTLSDomain :: "jsval \<Rightarrow> 's api" where [api]:
  "deleteTLSDomain ident =
     call (no_base (request ''delete'' (''/admin/api/v1/tls/domains/'' @ js_string ident) NoBody)) no_result"

definition renewTLS :: "'s api" where [api]:
  "renewTLS =
     call (no_base (request ''post'' ''/admin/api/v1/tls/renew'' (Json (JObj [])))) res_data"

definition getTLSRenewStatus :: "'s api" where [api]:
  "getTLSRenewStatus =
     call (no_base (request ''get'' ''/admin/api/v1/tls/renew/status'' NoBody)) res_data"

section \<open>Attachments, contacts, calendar\<close>

definition getMessageAttachments :: "jsval \<Rightarrow> 's api" where [api]:
  "getMessageAttachments ident =
     call (request ''get'' (''/messages/'' @ js_string ident @ ''/attachments'') NoBody) (res_or ''attachments'' (JArr []))"

definition downloadAttachment :: "jsval \<Rightarrow> jsval \<Rightarrow> 's api" where [api]:
  "downloadAttachment ident attID =
     call ((request ''get'' (''/messages/'' @ js_string ident @ ''/attachments/'' @ js_string attID) NoBody)\<lparr>req_response := ''blob''\<rparr>) res_data"

definition getContacts :: "'s api" where [api]:
  "getContacts =
     call (request ''get'' ''/contacts'' NoBody) (res_or ''contacts'' (JArr []))"

definition createContact :: "jsval \<Rightarrow> 's api" where [api]:
  "createContact data =
     call (request ''post'' ''/contacts'' (Json data)) res_data"

definition updateContact :: "jsval \<Rightarrow> jsval \<Rightarrow> 's api" where [api]:
  "updateContact ident data =
     call (request ''patch'' (''/contacts/'' @ js_string ident) (Json data)) res_data"

definition deleteContact :: "jsval \<Rightarrow> 's api" where [api]:
  "deleteContact ident =
     call (request ''delete'' (''/contacts/'' @ js_string ident) NoBody) no_result"

definition getCalendarEvents :: "jsval \<Rightarrow> jsval \<Rightarrow> 's api" where [api]:
  "getCalendarEvents start stop =
     call (request ''get'' (''/calendar/events?start='' @ js_string start @ ''&end='' @ js_string stop) NoBody) (res_or ''events'' (JArr []))"

definition createCalendarEvent :: "jsval \<Rightarrow> 's api" where [api]:
  "createCalendarEvent data =
     call (request ''post'' ''/calendar/events'' (Json data)) res_data"

definition updateCalendarEvent :: "jsval \<Rightarrow> jsval \<Rightarrow> 's api" where [api]:
  "updateCalendarEvent ident data =
     call (request ''patch'' (''/calendar/events/'' @ js_string ident) (Json data)) res_data"

definition deleteCalendarEvent :: "jsval \<Rightarrow> 's api" where [api]:
  "deleteCalendarEvent ident =
     call (request ''delete'' (''/calendar/events/'' @ js_string ident) NoBody) no_result"

section \<open>Facts\<close>

text \<open>
  \<open>Compose.jsx\<close> parses the address fields before it calls \<open>createDraft\<close> or \<open>updateDraft\<close>, which
  parse them again: an array goes through unchanged.
\<close>

definition draft_body :: "string \<Rightarrow> string \<Rightarrow> string \<Rightarrow> jsval \<Rightarrow> jsval \<Rightarrow> jsval \<Rightarrow> jsval" where
  "draft_body to cc bcc subject html text = JObj [
     (''subject'', js_or subject (JStr [])),
     (''to'', parseRecipients (JStr to)), (''cc'', parseRecipients (JStr cc)),
     (''bcc'', parseRecipients (JStr bcc)),
     (''html_body'', js_or html (JStr [])), (''plain_text'', js_or text (JStr []))]"

lemma toDraftPayload_parsed:
  "toDraftPayload (JObj [(''to'', parseRecipients (JStr to)), (''cc'', parseRecipients (JStr cc)),
      (''bcc'', parseRecipients (JStr bcc)), (''subject'', subject), (''html_body'', html),
      (''plain_text'', text)])
   = Some (draft_body to cc bcc subject html text)"
  unfolding toDraftPayload_def draft_body_def
  by (simp add: parseRecipients_idem del: parseRecipients.simps)

lemma toDraftPayload_obj: "toDraftPayload (JObj kvs) \<noteq> None"
  by (simp add: toDraftPayload_def)

lemma getMessages_label_query:
  "url_get ''label_id'' (url_serialize (messages_query labelId params)) =
     (if truthy labelId then Some (Inr (js_string labelId))
      else map_option Inr (map_of (search_params params) ''label_id''))"
  by (simp add: url_get_serialize messages_query_def Let_def)

lemma getMessages_param_query:
  "k \<noteq> ''label_id'' \<Longrightarrow>
   url_get k (url_serialize (messages_query labelId params)) =
     map_option Inr (map_of (search_params params) k)"
  by (simp add: url_get_serialize messages_query_def Let_def)

section \<open>Properties\<close>

text \<open>
  C13. \<open>getMessages\<close> is one GET of \<open>/messages?\<close> and a query string that is unambiguous: the server,
  decoding it, reads under each name exactly the parameter the caller passed, converted to a string,
  under \<open>label_id\<close> the label when there is one, every name once, and nothing else. The promise
  gives what is under \<open>data\<close> of the response, and fails with the error of the request.
\<close>

theorem getMessages_query_faithful:
  assumes "distinct (map fst (js_entries params))"
  shows "\<exists>query k. getMessages labelId params ok er = Request (request ''get'' (''/messages?'' @ query) NoBody) k \<and>
    (\<forall>name. url_get name query =
       (if name = ''label_id'' \<and> truthy labelId then Some (Inr (js_string labelId))
        else map_option (\<lambda>v. Inr (js_string v)) (map_of (js_entries params) name))) \<and>
    distinct (map fst (url_parse query)) \<and>
    set (map fst (url_parse query)) =
      Inr ` (fst ` set (js_entries params) \<union> (if truthy labelId then {''label_id''} else {})) \<and>
    (\<forall>res. k (Resolved res) = (case js_get res ''data'' of Some d \<Rightarrow> ok d | None \<Rightarrow> er type_error)) \<and>
    (\<forall>e. k (Rejected e) = er e)"
proof (intro exI conjI allI)
  let ?kvs = "messages_query labelId params" and ?q = "url_serialize (messages_query labelId params)"
  have keys: "map fst (url_parse ?q) = map Inr (map fst ?kvs)"
    by (simp add: url_parse_serialize case_prod_beta comp_def)
  have params: "map fst (search_params params) = map fst (js_entries params)"
    by (simp add: search_params_def case_prod_beta comp_def)
  show "getMessages labelId params ok er = Request (request ''get'' (''/messages?'' @ ?q) NoBody)
      (\<lambda>r. case r of Resolved res \<Rightarrow> (case js_get res ''data'' of Some d \<Rightarrow> ok d | None \<Rightarrow> er type_error)
        | Rejected e \<Rightarrow> er e)"
    by (auto simp: getMessages_def call_def res_data_def fun_eq_iff split: reply.split)
  show "url_get name ?q = (if name = ''label_id'' \<and> truthy labelId then Some (Inr (js_string labelId))
      else map_option (\<lambda>v. Inr (js_string v)) (map_of (js_entries params) name))" for name
    by (cases "name = ''label_id''")
      (simp_all add: getMessages_label_query getMessages_param_query search_params_def map_of_map
        option.map_comp comp_def)
  have ids: "fst ` set (search_params params) = fst ` set (js_entries params)"
    using arg_cong [OF params, of set] by simp
  have "distinct (map fst ?kvs)"
    using assms params ids by (simp add: messages_query_def Let_def keys_assoc_set)
  then show "distinct (map fst (url_parse ?q))" unfolding keys by (subst distinct_map) (simp add: inj_on_def)
  have "set (map fst ?kvs) = fst ` set (js_entries params) \<union> (if truthy labelId then {''label_id''} else {})"
    using ids by (simp add: messages_query_def Let_def key_set_assoc_set)
  then show "set (map fst (url_parse ?q)) =
      Inr ` (fst ` set (js_entries params) \<union> (if truthy labelId then {''label_id''} else {}))"
    by (simp only: keys list.set_map [of Inr])
qed simp_all

theorem getMessages_query_faithful_witness:
  "\<exists>query k. getMessages (JStr ''a&b'') (JObj [(''limit'', JNum 50)]) (\<lambda>_. Done) (\<lambda>_. Done) =
       Request (request ''get'' (''/messages?'' @ query) NoBody) (k :: reply \<Rightarrow> nat prog) \<and>
     url_get ''label_id'' query = Some (Inr ''a&b'') \<and> url_get ''q'' query = None"
proof -
  have "distinct (map fst (js_entries (JObj [(''limit'', JNum 50)])))" by simp
  from getMessages_query_faithful [OF this, of "JStr ''a&b''" "\<lambda>_. Done :: nat prog" "\<lambda>_. Done"]
  obtain query k where *: "getMessages (JStr ''a&b'') (JObj [(''limit'', JNum 50)]) (\<lambda>_. Done) (\<lambda>_. Done) =
       Request (request ''get'' (''/messages?'' @ query) NoBody) (k :: reply \<Rightarrow> nat prog)"
    and **: "\<forall>name. url_get name query =
       (if name = ''label_id'' \<and> truthy (JStr ''a&b'') then Some (Inr (js_string (JStr ''a&b'')))
        else map_option (\<lambda>v. Inr (js_string v)) (map_of (js_entries (JObj [(''limit'', JNum 50)])) name))"
    by blast
  have "url_get ''label_id'' query = Some (Inr ''a&b'')" "url_get ''q'' query = None"
    using spec [OF **, of "''label_id''"] spec [OF **, of "''q''"] by simp_all
  with * show ?thesis by blast
qed

text \<open>
  What \<open>Compose\<close> passes to \<open>createDraft\<close> and \<open>updateDraft\<close>, whose recipient fields are parsed
  already, is posted unchanged: parsing again does nothing, and the request is never lost to a
  TypeError.
\<close>

theorem draft_payload_posted:
  "toDraftPayload (JObj [(''to'', parseRecipients (JStr to)), (''cc'', parseRecipients (JStr cc)),
      (''bcc'', parseRecipients (JStr bcc)), (''subject'', JStr subject), (''html_body'', JStr html),
      (''plain_text'', JStr text)])
   = Some (JObj [(''subject'', JStr subject), (''to'', parseRecipients (JStr to)),
      (''cc'', parseRecipients (JStr cc)), (''bcc'', parseRecipients (JStr bcc)),
      (''html_body'', JStr html), (''plain_text'', JStr text)])"
  unfolding toDraftPayload_parsed draft_body_def by (simp add: js_or_def)

end
