(* ===== verification/Busy_Flag.thy ===== *)
theory Busy_Flag imports Reactor begin

text \<open>
  The spinners of the front end: \<open>setLoading(true)\<close> before a request, \<open>setLoading(false)\<close>
  in a \<open>finally\<close>. The property is that a spinner never stays on by itself: while the flag is
  on, some request in flight will turn it off whatever its answer is, or an interval that watches
  over it is set. Several such requests may overlap, so the argument follows who owns the flag.

  \<open>tidyw F W b p\<close>: a thread running \<open>p\<close>, which owns the flag \<open>F\<close> when \<open>b\<close>, hands the flag to a
  request or to an interval \<open>W\<close> names before it ends, or turns it off; a thread that
  clears a timer takes over the flag, since it may have cleared such an interval.
\<close>

primrec tidyw :: "('s \<Rightarrow> bool) \<Rightarrow> (nat \<Rightarrow> 's prog \<Rightarrow> bool) \<Rightarrow> bool \<Rightarrow> 's prog \<Rightarrow> bool" where
  "tidyw F W b Done = (\<not> b)"
| "tidyw F W b (SetSt f p) =
     ((\<forall>s. \<not> F (f s)) \<and> tidyw F W False p \<or> (\<forall>s. F (f s) \<longrightarrow> F s) \<and> tidyw F W b p \<or> tidyw F W True p)"
| "tidyw F W b (Get f) = (\<forall>s. tidyw F W b (f s))"
| "tidyw F W b (Perform e p) = tidyw F W b p"
| "tidyw F W b (Request q k) = (\<forall>r. tidyw F W b (k r))"
| "tidyw F W b (Fork p p') =
     ((tidyw F W b p \<and> tidyw F W False p') \<or> (tidyw F W False p \<and> tidyw F W b p'))"
| "tidyw F W b (SetTimer every body k) =
     ((\<forall>h. tidyw F W False (body h)) \<and> (\<forall>h. tidyw F W (b \<and> \<not> (every \<and> W h (body h))) (k h)))"
| "tidyw F W b (ClearTimer h p) = tidyw F W (b \<or> (\<exists>q. W h q)) p"

abbreviation tidy :: "('s \<Rightarrow> bool) \<Rightarrow> bool \<Rightarrow> 's prog \<Rightarrow> bool" where
  "tidy F \<equiv> tidyw F (\<lambda>_ _. False)"

lemma tidy_mono: "tidyw F W True p \<Longrightarrow> tidyw F W False p"
proof (induction p)
  case (SetTimer every body k)
  have "tidyw F W False (k h)" for h
    using SetTimer.prems SetTimer.IH(2) [of "k h"] by (cases "every \<and> W h (body h)") (auto dest: spec [of _ h])
  with SetTimer.prems show ?case by simp
next
  case (ClearTimer h p)
  have "tidyw F W b p" for b using ClearTimer by (cases b) simp_all
  then show ?case by simp
qed auto

lemma tidy_weaken: "tidyw F W b p \<Longrightarrow> tidyw F W False p"
  by (cases b) (auto intro: tidy_mono)

lemma tidy_call [react]:
  "tidyw F W b (call q result ok er) \<longleftrightarrow>
     (\<forall>res v. result res = Some v \<longrightarrow> tidyw F W b (ok v)) \<and>
     (\<forall>e. tidyw F W b (er e))"
proof
  assume s: "tidyw F W b (call q result ok er)"
  have "tidyw F W b (ok v)" if "result res = Some v" for res v
    using s that by (auto simp: call_def dest: spec [of _ "Resolved res"])
  moreover have "tidyw F W b (er e)" for e
    using s by (auto simp: call_def dest: spec [of _ "Rejected e"])
  ultimately show "(\<forall>res v. result res = Some v \<longrightarrow> tidyw F W b (ok v)) \<and>
     (\<forall>e. tidyw F W b (er e))" by blast
qed (auto simp: call_def split: reply.splits option.splits)

lemma tidy_attempt [react]:
  "tidyw F W b (attempt m ok er) \<longleftrightarrow>
     (case m of Some v \<Rightarrow> tidyw F W b (ok v) | None \<Rightarrow> tidyw F W b (er type_error))"
  by (cases m) auto

text \<open>
  Somebody owns the flag: a request in flight whose continuation settles it whatever the answer, or
  an interval that watches over it.
\<close>

definition watched :: "(nat \<Rightarrow> 's prog \<Rightarrow> bool) \<Rightarrow> 's config \<Rightarrow> bool" where
  "watched W c \<longleftrightarrow> (\<exists>(h, every, p) \<in> set (timers c). every \<and> W h p)"

definition owned :: "('s \<Rightarrow> bool) \<Rightarrow> (nat \<Rightarrow> 's prog \<Rightarrow> bool) \<Rightarrow> 's config \<Rightarrow> bool" where
  "owned F W c \<longleftrightarrow> (\<exists>(q, k) \<in> set (pend c). \<forall>r. tidyw F W True (k r)) \<or> watched W c"

lemma owned_updates [simp]:
  "owned F W (c\<lparr>st := s\<rparr>) = owned F W c" "owned F W (c\<lparr>effects := es\<rparr>) = owned F W c"
  "owned F W (c\<lparr>next_timer := n\<rparr>) = owned F W c"
  "owned F W (c\<lparr>rendered := r\<rparr>) = owned F W c" "owned F W (c\<lparr>cookie := k\<rparr>) = owned F W c"
  by (simp_all add: owned_def watched_def)

lemma watched_none [simp]: "\<not> watched (\<lambda>_ _. False) c"
  by (simp add: watched_def)

lemma owned_timers:
  "owned F W c \<Longrightarrow> owned F W (c\<lparr>timers := timers c @ ts, next_timer := n\<rparr>)"
  "\<not> (\<exists>q. W h q) \<Longrightarrow> owned F W c \<Longrightarrow> owned F W (c\<lparr>timers := filter (\<lambda>t. fst t \<noteq> h) (timers c)\<rparr>)"
proof -
  show "owned F W c \<Longrightarrow> owned F W (c\<lparr>timers := timers c @ ts, next_timer := n\<rparr>)"
    by (auto simp: owned_def watched_def)
  assume no: "\<not> (\<exists>q. W h q)" and o: "owned F W c"
  have "watched W (c\<lparr>timers := filter (\<lambda>t. fst t \<noteq> h) (timers c)\<rparr>)" if "watched W c"
    using that no by (fastforce simp: watched_def)
  with o show "owned F W (c\<lparr>timers := filter (\<lambda>t. fst t \<noteq> h) (timers c)\<rparr>)"
    by (auto simp: owned_def)
qed

lemma owned_request: "owned F W c \<Longrightarrow> owned F W (exec (Request q k) c)"
  by (auto simp: owned_def watched_def split: sum.splits)

lemma exec_tidy:
  "tidyw F W b p \<Longrightarrow> mounted c \<Longrightarrow> F (st c) \<longrightarrow> b \<or> x \<or> owned F W c \<Longrightarrow>
   F (st (exec p c)) \<longrightarrow> x \<or> owned F W (exec p c)"
proof (induction p arbitrary: b c x)
  case Done
  then show ?case by auto
next
  case (SetSt f p)
  let ?c = "c\<lparr>st := f (st c)\<rparr>"
  obtain b' where "tidyw F W b' p" "F (st ?c) \<longrightarrow> b' \<or> x \<or> owned F W ?c"
    using SetSt.prems by auto
  moreover have "mounted ?c" using SetSt.prems by simp
  ultimately show ?case using SetSt.IH [of b' ?c x] SetSt.prems(2) by simp
next
  case (Get f)
  then have "tidyw F W b (f (st c))" by simp
  from Get.IH [OF rangeI this Get.prems(2,3)] show ?case by simp
next
  case (Perform e p)
  then show ?case using Perform.IH [of b "c\<lparr>effects := effects c @ [e]\<rparr>" x] by simp
next
  case (Request q k)
  show ?case
  proof (cases b)
    case True
    with Request.prems(1) have "owned F W (exec (Request q k) c)"
      by (auto simp: owned_def split: sum.splits)
    then show ?thesis by blast
  next
    case False
    have "owned F W c \<Longrightarrow> owned F W (exec (Request q k) c)" by (rule owned_request)
    moreover have "st (exec (Request q k) c) = st c" by (simp split: sum.splits)
    ultimately show ?thesis using Request.prems(3) False by metis
  qed
next
  case (Fork p p')
  from Fork.prems(1) consider
      (first) "tidyw F W b p" "tidyw F W False p'" | (second) "tidyw F W False p" "tidyw F W b p'" by auto
  then show ?case
  proof cases
    case first
    have "F (st (exec p c)) \<longrightarrow> x \<or> owned F W (exec p c)"
      by (rule Fork.IH(1) [OF first(1) Fork.prems(2,3)])
    then have "F (st (exec p' (exec p c))) \<longrightarrow> x \<or> owned F W (exec p' (exec p c))"
      by (intro Fork.IH(2) [OF first(2)]) (use Fork.prems(2) in auto)
    then show ?thesis by simp
  next
    case second
    have "F (st (exec p c)) \<longrightarrow> (b \<or> x) \<or> owned F W (exec p c)"
      by (rule Fork.IH(1) [OF second(1) Fork.prems(2)]) (use Fork.prems(3) in auto)
    then have "F (st (exec p' (exec p c))) \<longrightarrow> x \<or> owned F W (exec p' (exec p c))"
      by (intro Fork.IH(2) [OF second(2)]) (use Fork.prems(2) in auto)
    then show ?thesis by simp
  qed
next
  case (SetTimer every body k)
  let ?h = "next_timer c"
  let ?c = "c\<lparr>timers := timers c @ [(?h, every, body ?h)], next_timer := Suc ?h\<rparr>"
  have "owned F W ?c" if "owned F W c \<or> every \<and> W ?h (body ?h)"
    using that owned_timers(1) [where F = F and W = W and c = c] by (auto simp: owned_def watched_def)
  then have "F (st ?c) \<longrightarrow> (b \<and> \<not> (every \<and> W ?h (body ?h))) \<or> x \<or> owned F W ?c"
    using SetTimer.prems(3) by auto
  then have "F (st (exec (k ?h) ?c)) \<longrightarrow> x \<or> owned F W (exec (k ?h) ?c)"
    by (intro SetTimer.IH(2) [of "k ?h" "b \<and> \<not> (every \<and> W ?h (body ?h))"]) (use SetTimer.prems in auto)
  then show ?case by (simp add: Let_def)
next
  case (ClearTimer h p)
  let ?c = "c\<lparr>timers := filter (\<lambda>t. fst t \<noteq> h) (timers c)\<rparr>"
  have "F (st ?c) \<longrightarrow> (b \<or> (\<exists>q. W h q)) \<or> x \<or> owned F W ?c"
    using ClearTimer.prems(3) owned_timers(2) [where F = F and W = W and c = c and h = h] by auto
  then show ?case using ClearTimer.IH [of "b \<or> (\<exists>q. W h q)" ?c x] ClearTimer.prems by simp
qed

text \<open>A timeout that falls due is no watcher.\<close>

lemma owned_spent:
  assumes "handles_ok c" "map_of (timers c) h = Some (False, p)" "owned F W c"
  shows "owned F W (c\<lparr>timers := filter (\<lambda>t. fst t \<noteq> h) (timers c)\<rparr>)"
proof -
  have "h' \<noteq> h" if "(h', True, p') \<in> set (timers c)" for h' p'
    using that assms(1,2) map_of_is_SomeI [of "timers c" h' "(True, p')"]
    by (cases "h' = h") (simp_all add: handles_ok_def)
  with assms(3) show ?thesis by (fastforce simp: owned_def watched_def)
qed

text \<open>The threads that wait, for an answer or for a timer, leave the flag in order.\<close>

definition all_tidy :: "('s \<Rightarrow> bool) \<Rightarrow> (nat \<Rightarrow> 's prog \<Rightarrow> bool) \<Rightarrow> 's config \<Rightarrow> bool" where
  "all_tidy F W c \<longleftrightarrow> (\<forall>(q, k) \<in> set (pend c). \<forall>r. tidyw F W False (k r)) \<and>
     (\<forall>(h, every, p) \<in> set (timers c). tidyw F W False p)"

lemma all_tidy_updates [simp]:
  "all_tidy F W (c\<lparr>st := s\<rparr>) = all_tidy F W c" "all_tidy F W (c\<lparr>effects := es\<rparr>) = all_tidy F W c"
  "all_tidy F W (c\<lparr>next_timer := n\<rparr>) = all_tidy F W c" "all_tidy F W (c\<lparr>rendered := r\<rparr>) = all_tidy F W c"
  "all_tidy F W (c\<lparr>cookie := k\<rparr>) = all_tidy F W c"
  by (simp_all add: all_tidy_def)

lemma all_tidy_filter [simp]:
  "all_tidy F W c \<Longrightarrow> all_tidy F W (c\<lparr>timers := filter P (timers c)\<rparr>)"
  by (auto simp: all_tidy_def)

lemma exec_all_tidy: "tidyw F W b p \<Longrightarrow> all_tidy F W c \<Longrightarrow> all_tidy F W (exec p c)"
proof (induction p arbitrary: b c)
  case (SetSt f p)
  then obtain b' where "tidyw F W b' p" by auto
  with SetSt.IH SetSt.prems(2) show ?case by auto
next
  case (Get f)
  then have "tidyw F W b (f (st c))" by simp
  from Get.IH [OF rangeI this Get.prems(2)] show ?case by simp
next
  case (Request q k)
  then have "\<forall>r. tidyw F W False (k r)" by (auto intro: tidy_weaken)
  with Request.prems(2) show ?case by (auto simp: all_tidy_def split: sum.splits)
next
  case (Fork p p')
  then obtain b1 b2 where "tidyw F W b1 p" "tidyw F W b2 p'" by auto
  with Fork.IH Fork.prems(2) show ?case by auto
next
  case (SetTimer every body k)
  let ?c = "c\<lparr>timers := timers c @ [(next_timer c, every, body (next_timer c))],
      next_timer := Suc (next_timer c)\<rparr>"
  have "all_tidy F W ?c" using SetTimer.prems by (auto simp: all_tidy_def)
  then have "all_tidy F W (exec (k (next_timer c)) ?c)"
    by (intro SetTimer.IH(2) [of "k (next_timer c)" "b \<and> \<not> (every \<and> W (next_timer c) (body (next_timer c)))"])
      (use SetTimer.prems in auto)
  then show ?case by (simp add: Let_def)
qed auto

definition flag_ok :: "('s \<Rightarrow> bool) \<Rightarrow> (nat \<Rightarrow> 's prog \<Rightarrow> bool) \<Rightarrow> 's config \<Rightarrow> bool" where
  "flag_ok F W c \<longleftrightarrow> handles_ok c \<and> all_tidy F W c \<and> (mounted c \<longrightarrow> F (st c) \<longrightarrow> owned F W c)"

lemma exec_flag_ok:
  assumes "tidyw F W b p" "handles_ok c" "all_tidy F W c" "mounted c \<longrightarrow> F (st c) \<longrightarrow> b \<or> owned F W c"
  shows "flag_ok F W (exec p c)"
  using exec_all_tidy [OF assms(1,3)] exec_tidy [OF assms(1), of c False] exec_handles_ok [OF assms(2)] assms(4)
  by (auto simp: flag_ok_def)

locale busy_flag =
  fixes C :: "('ev, 's) component" and F :: "'s \<Rightarrow> bool"
    and W :: "nat \<Rightarrow> 's prog \<Rightarrow> bool"
  assumes handle_tidy: "enabled C s ev \<Longrightarrow> tidyw F W False (handle C ev s)"
    and mount_tidy: "tidyw F W (F (initial C)) (after_commit C None (initial C))"
    and after_commit_tidy: "tidyw F W False (after_commit C (Some old) s)"
    and cleanup_inert: "inert (cleanup C s)"
begin

lemma settle_flag_ok: "flag_ok F W c \<Longrightarrow> rendered c \<noteq> None \<Longrightarrow> flag_ok F W (settle n C c)"
proof (induction n arbitrary: c)
  case 0
  then show ?case by simp
next
  case (Suc n)
  let ?c = "exec (after_commit C (rendered c) (st c)) (c\<lparr>rendered := Some (st c)\<rparr>)"
  obtain old where "rendered c = Some old" using Suc.prems(2) by auto
  then have "flag_ok F W ?c"
    using exec_flag_ok [OF after_commit_tidy, of "c\<lparr>rendered := Some (st c)\<rparr>" old "st c"] Suc.prems(1)
    by (simp add: flag_ok_def)
  with Suc.IH [of ?c] Suc.prems show ?case by simp
qed

lemma boot_flag_ok: "flag_ok F W (boot C ck path) \<and> rendered (boot C ck path) \<noteq> None"
proof -
  have "flag_ok F W (exec (after_commit C None (initial C)) (mount_config C ck path))"
    by (rule exec_flag_ok [OF mount_tidy]) (simp_all, simp_all add: all_tidy_def mount_config_def)
  moreover have "rendered (exec (after_commit C None (initial C)) (mount_config C ck path)) \<noteq> None"
    by (simp add: mount_config_def)
  ultimately show ?thesis unfolding boot_mount by (metis settle_flag_ok settle_rendered)
qed

lemma rendered_step:
  assumes "step C c i = Some c'" "rendered c \<noteq> None"
  shows "rendered c' \<noteq> None"
proof -
  have settle: "rendered d = Some y \<Longrightarrow> \<exists>y. rendered (settle m C d) = Some y" for m d y
    using settle_rendered [of d m C] by auto
  show ?thesis
    using assms by (cases i)
      (auto split: if_splits option.splits simp: answer_def timer_due_def intro!: settle)
qed

lemma answer_flag_ok:
  assumes ok: "flag_ok F W c" and i: "i < length (pend c)"
  shows "flag_ok F W (answer i r c)"
proof -
  let ?d = "c\<lparr>pend := remove_nth i (pend c), effects := effects c @ response_interceptor (pathname c) r\<rparr>"
  obtain q k where p: "pend c ! i = (q, k)" by force
  then have mem: "(q, k) \<in> set (pend c)" using i by (metis nth_mem)
  have tidies: "all_tidy F W ?d" using ok
    by (auto simp: flag_ok_def all_tidy_def dest!: in_set_remove_nthD)
  have k: "tidyw F W False (k r)" using ok mem by (auto simp: flag_ok_def all_tidy_def)
  show ?thesis
  proof (cases "\<forall>r. tidyw F W True (k r)")
    case True
    then have "tidyw F W True (k r)" by blast
    from exec_flag_ok [OF this _ tidies] ok show ?thesis by (simp add: answer_def p flag_ok_def)
  next
    case False
    have "owned F W ?d" if "owned F W c"
    proof (cases "watched W c")
      case True
      then show ?thesis by (simp add: owned_def watched_def)
    next
      case no: False
      with that obtain q' k' where o: "(q', k') \<in> set (pend c)" "\<forall>r. tidyw F W True (k' r)"
        by (auto simp: owned_def)
      with False p set_remove_nth_cases [OF o(1) i] show ?thesis by (auto simp: owned_def)
    qed
    with exec_flag_ok [OF k _ tidies] ok show ?thesis by (simp add: answer_def p flag_ok_def)
  qed
qed

lemma timer_flag_ok:
  assumes ok: "flag_ok F W c" and t: "map_of (timers c) h = Some t"
  shows "flag_ok F W (timer_due h t c)"
proof -
  obtain every p where tp: "t = (every, p)" by force
  have "(h, every, p) \<in> set (timers c)" using map_of_SomeD [OF t] tp by simp
  then have p: "tidyw F W False p" using ok by (auto simp: flag_ok_def all_tidy_def)
  have o: "owned F W (c\<lparr>timers := filter (\<lambda>t. fst t \<noteq> h) (timers c)\<rparr>)" if "owned F W c" "\<not> every"
    using owned_spent [of c h p F W] that ok t tp by (simp add: flag_ok_def)
  show ?thesis unfolding timer_due_def tp
    by (rule exec_flag_ok) (use ok p o in \<open>auto simp: flag_ok_def handles_ok_filter\<close>)
qed

lemma step_flag_ok:
  assumes ok: "flag_ok F W c" and r: "rendered c \<noteq> None" and s: "step C c i = Some c'"
  shows "flag_ok F W c'"
proof (cases i)
  case (UserDo ev)
  have "flag_ok F W (exec (handle C ev (st c)) c)" if "enabled C (st c) ev"
    by (rule exec_flag_ok [OF handle_tidy [OF that]]) (use ok in \<open>auto simp: flag_ok_def\<close>)
  with UserDo s r show ?thesis by (auto split: if_splits intro!: settle_flag_ok)
next
  case (Answer j rp)
  with s ok r answer_flag_ok show ?thesis
    by (auto split: if_splits simp: answer_def intro!: settle_flag_ok)
next
  case (TimerDue h)
  with s ok r timer_flag_ok show ?thesis
    by (auto split: option.splits simp: timer_due_def intro!: settle_flag_ok)
next
  case (CookieIs ck)
  with s ok show ?thesis by (auto simp: flag_ok_def)
next
  case Unmount
  have "inert (cleanup C (st c))" by (rule cleanup_inert)
  then have "all_tidy F W (exec (cleanup C (st c)) (c\<lparr>mounted := False\<rparr>))"
    using exec_inert [of "cleanup C (st c)" "c\<lparr>mounted := False\<rparr>"] ok
    by (fastforce simp: flag_ok_def all_tidy_def)
  moreover have "handles_ok (exec (cleanup C (st c)) (c\<lparr>mounted := False\<rparr>))"
    by (rule exec_handles_ok) (use ok in \<open>simp add: flag_ok_def\<close>)
  ultimately show ?thesis using Unmount s by (auto simp: flag_ok_def split: if_splits)
qed

theorem reachable_flag_ok: "reachable C c \<Longrightarrow> flag_ok F W c \<and> rendered c \<noteq> None"
proof (induction rule: reachable.induct)
  case (start ck path)
  show ?case by (rule boot_flag_ok)
next
  case (advance c i c')
  then show ?case by (blast intro: step_flag_ok dest: rendered_step)
qed

text \<open>When nothing is in flight the flag is off.\<close>

lemma idle_off: "reachable C c \<Longrightarrow> mounted c \<Longrightarrow> pend c = [] \<Longrightarrow> \<not> watched W c \<Longrightarrow> \<not> F (st c)"
  using reachable_flag_ok [of c] by (auto simp: flag_ok_def owned_def)

lemma on_owned: "reachable C c \<Longrightarrow> mounted c \<Longrightarrow> F (st c) \<Longrightarrow> owned F W c"
  using reachable_flag_ok [of c] by (auto simp: flag_ok_def)

end

end
