(* ===== verification/Admin_State.thy ===== *)
theory Admin_State imports Api Busy_Flag begin

text \<open>
  \<open>web/src/components/Admin.jsx\<close>, lines 18 to 96: the state of the administration page, shared by
  its five tabs, and the fetches every tab uses. Each tab has a theory of its own
  (\<open>Admin_Domains\<close>, \<open>Admin_Users\<close>, \<open>Admin_Tls\<close>, \<open>Admin_Security\<close>); \<open>Admin\<close> puts them together.

  \<open>ad_poll\<close> is the handle \<open>t\<close> of the health effect; its flag \<open>active\<close> is false exactly after
  unmount, when state updates are ignored anyway. \<open>ad_joins\<close> holds the \<open>Promise.all\<close> calls of
  \<open>fetchTLS\<close>: for each one the results that have arrived, or none once it is settled.
\<close>

record domain_form =
  df_name :: jsval
  df_token :: jsval
  df_stream :: jsval
  df_active :: bool

record alias_form =
  af_local :: string
  af_users :: "string list"

record user_form =
  uf_email :: jsval
  uf_password :: jsval
  uf_name :: jsval
  uf_admin :: jsval

record member_form =
  mf_domain :: string
  mf_role :: string

record tls_form =
  tf_enabled :: jsval
  tf_email :: jsval
  tf_directory :: jsval
  tf_provider :: jsval
  tf_credentials :: "(string \<times> jsval) list"

record ad_state =
  ad_tab :: string
  ad_health :: jsval
  ad_domains :: jsval
  ad_users :: jsval
  ad_settings :: jsval
  ad_loading :: bool
  ad_error :: jsval
  ad_domainModal :: jsval
  ad_userModal :: jsval
  ad_resetModal :: jsval
  ad_domainForm :: domain_form
  ad_editingDomain :: jsval
  ad_aliases :: jsval
  ad_allUsers :: jsval
  ad_aliasForm :: alias_form
  ad_userForm :: user_form
  ad_editingUser :: jsval
  ad_memberForm :: member_form
  ad_resetPassword :: string
  ad_settingsForm :: jsval
  ad_tlsStatus :: jsval
  ad_tlsProviders :: jsval
  ad_tlsConfig :: jsval
  ad_tlsForm :: tls_form
  ad_tlsDomains :: jsval
  ad_newTls :: string
  ad_tlsBusy :: bool
  ad_poll :: "nat option"
  ad_joins :: "jsval option list list"

definition new_domain :: domain_form where
  "new_domain = \<lparr>df_name = JStr [], df_token = JStr [], df_stream = JStr ''outbound'', df_active = True\<rparr>"

definition new_alias :: alias_form where
  "new_alias = \<lparr>af_local = [], af_users = []\<rparr>"

definition new_user :: user_form where
  "new_user = \<lparr>uf_email = JStr [], uf_password = JStr [], uf_name = JStr [], uf_admin = JBool False\<rparr>"

definition new_member :: member_form where
  "new_member = \<lparr>mf_domain = [], mf_role = ''user''\<rparr>"

definition ad_initial :: ad_state where
  "ad_initial = \<lparr>ad_tab = ''overview'', ad_health = Null, ad_domains = JArr [], ad_users = JArr [],
     ad_settings = JObj [], ad_loading = True, ad_error = JStr [], ad_domainModal = Null,
     ad_userModal = Null, ad_resetModal = Null, ad_domainForm = new_domain, ad_editingDomain = Null,
     ad_aliases = JArr [], ad_allUsers = JArr [], ad_aliasForm = new_alias, ad_userForm = new_user,
     ad_editingUser = Null, ad_memberForm = new_member, ad_resetPassword = [], ad_settingsForm = JObj [],
     ad_tlsStatus = Null, ad_tlsProviders = JArr [], ad_tlsConfig = Null,
     ad_tlsForm = \<lparr>tf_enabled = JBool False, tf_email = JStr [], tf_directory = JStr ''staging'',
       tf_provider = JStr ''cloudflare'', tf_credentials = []\<rparr>,
     ad_tlsDomains = JArr [], ad_newTls = [], ad_tlsBusy = False, ad_poll = None, ad_joins = []\<rparr>"

text \<open>\<open>setError(..)\<close>, and the message of a failed request.\<close>

definition set_error :: "string \<Rightarrow> ad_state prog \<Rightarrow> ad_state prog" where
  "set_error t p = SetSt (ad_error_update (\<lambda>_. JStr t)) p"

definition fail_with :: "string \<Rightarrow> jsval \<Rightarrow> ad_state prog" where
  "fail_with t err = SetSt (ad_error_update (\<lambda>_. err_text err (JStr t))) Done"

section \<open>Fetches\<close>

definition loaded :: "ad_state prog" where
  "loaded = SetSt (ad_loading_update (\<lambda>_. False)) Done"

definition failed_load :: "string \<Rightarrow> jsval \<Rightarrow> ad_state prog" where
  "failed_load t err = SetSt (ad_error_update (\<lambda>_. err_text err (JStr t))) loaded"

definition fetchDomains :: "ad_state prog" where
  "fetchDomains = SetSt (ad_loading_update (\<lambda>_. True))
     (getDomains (\<lambda>data. SetSt (ad_domains_update (\<lambda>_. data)) loaded)
       (failed_load ''Failed to load domains''))"

text \<open>\<open>getAdminUsers(limit = 20, offset = 0)\<close>.\<close>

definition fetchUsers :: "ad_state prog" where
  "fetchUsers = SetSt (ad_loading_update (\<lambda>_. True))
     (getAdminUsers (JNum 20) (JNum 0) (\<lambda>data. SetSt (ad_users_update (\<lambda>_. data)) loaded)
       (failed_load ''Failed to load users''))"

definition fetchSettings :: "ad_state prog" where
  "fetchSettings = getAdminSettings
     (\<lambda>data. SetSt (ad_settings_update (\<lambda>_. data)) (SetSt (ad_settingsForm_update (\<lambda>_. data)) Done))
     (fail_with ''Failed to load settings'')"

text \<open>The poll of lines 88 to 92.\<close>

definition poll_health :: "ad_state prog" where
  "poll_health = getHealth (\<lambda>h. SetSt (ad_health_update (\<lambda>_. h)) Done)
     (\<lambda>_. SetSt (ad_health_update (\<lambda>_. Null)) Done)"

definition watch_health :: "ad_state prog" where
  "watch_health = Fork poll_health
     (SetTimer True (\<lambda>_. poll_health) (\<lambda>h. SetSt (ad_poll_update (\<lambda>_. Some h)) Done))"

lemmas ad_fetch_defs = set_error_def fail_with_def loaded_def failed_load_def fetchDomains_def
  fetchUsers_def fetchSettings_def poll_health_def watch_health_def

section \<open>Forms as JSON\<close>

definition domain_json :: "domain_form \<Rightarrow> jsval" where
  "domain_json f = JObj [(''name'', df_name f), (''postmark_token'', df_token f),
     (''postmark_stream'', df_stream f), (''is_active'', JBool (df_active f))]"

definition user_json :: "user_form \<Rightarrow> jsval" where
  "user_json f = JObj [(''email'', uf_email f), (''password'', uf_password f),
     (''display_name'', uf_name f), (''is_super_admin'', uf_admin f)]"

definition tls_json :: "tls_form \<Rightarrow> jsval" where
  "tls_json f = JObj [(''enabled'', tf_enabled f), (''email'', tf_email f), (''directory'', tf_directory f),
     (''dns_provider'', tf_provider f), (''credentials'', JObj (tf_credentials f))]"

text \<open>\<open>delete o.k\<close> on a copy.\<close>

definition without_key :: "string \<Rightarrow> jsval \<Rightarrow> jsval" where
  "without_key k v = JObj (filter (\<lambda>(k', _). k' \<noteq> k) (js_entries v))"

end
