(* ===== verification/Admin_Domains.thy ===== *)
theory Admin_Domains imports Admin_State begin

text \<open>
  The domains tab of \<open>Admin.jsx\<close>: the table of domains, the form for one domain, its catch-all user
  and its aliases (lines 199 to 295 and 510 to 712). The answer the user gives to \<open>confirm\<close> is part of
  the event.
\<close>

datatype dom_event =
    DomOpen jsval
  | DomClose
  | is_DomName: DomName string
  | is_DomToken: DomToken string
  | is_DomStream: DomStream string
  | is_DomActive: DomActive bool
  | DomSave
  | DomRemove jsval bool
  | DomToggle jsval jsval
  | is_DomCatchall: DomCatchall string
  | is_DomLocal: DomLocal string
  | is_DomTargets: DomTargets "string list"
  | DomAddAlias
  | DomRemoveAlias jsval

definition openDomainModal :: "jsval \<Rightarrow> ad_state prog" where
  "openDomainModal domain =
     (let finish = SetSt (\<lambda>s. s\<lparr>ad_aliasForm := new_alias, ad_error := JStr []\<rparr>) Done in
      if truthy domain
      then SetSt (\<lambda>s. s\<lparr>ad_domainForm := \<lparr>df_name = js_or (js_prop domain ''name'') (JStr []),
             df_token = js_or (js_prop domain ''postmark_token'') (JStr []),
             df_stream = js_or (js_prop domain ''postmark_stream'') (JStr ''outbound''),
             df_active = (js_prop domain ''is_active'' \<noteq> JBool False)\<rparr>,
             ad_editingDomain := domain, ad_domainModal := js_prop domain ''id''\<rparr>)
        (Fork (listAliases (js_prop domain ''id'') (\<lambda>as. SetSt (ad_aliases_update (\<lambda>_. as)) Done)
                (\<lambda>_. SetSt (ad_aliases_update (\<lambda>_. JArr [])) Done))
        (Fork (getAdminUsers (JNum 100) (JNum 0) (\<lambda>us. SetSt (ad_allUsers_update (\<lambda>_. us)) Done)
                (\<lambda>_. SetSt (ad_allUsers_update (\<lambda>_. JArr [])) Done))
          finish))
      else SetSt (\<lambda>s. s\<lparr>ad_domainForm := new_domain, ad_editingDomain := Null, ad_aliases := JArr [],
             ad_domainModal := JStr ''new''\<rparr>) finish)"

definition refreshAliases :: "jsval \<Rightarrow> ad_state prog" where
  "refreshAliases i = listAliases i (\<lambda>as. SetSt (ad_aliases_update (\<lambda>_. as)) Done)
     (\<lambda>_. SetSt (ad_aliases_update (\<lambda>_. JArr [])) Done)"

definition addAlias :: "ad_state \<Rightarrow> ad_state prog" where
  "addAlias s =
     (let f = ad_aliasForm s; failed = fail_with ''Failed to create alias'' in
      if af_local f = [] \<or> af_users f = [] then Done
      else set_error []
        (attempt (js_get (ad_editingDomain s) ''id'')
          (\<lambda>i. createAlias i (JStr (af_local f)) (JArr (map JStr (af_users f)))
            (\<lambda>_. SetSt (ad_aliasForm_update (\<lambda>_. new_alias)) (refreshAliases i)) failed)
          failed))"

definition removeAlias :: "ad_state \<Rightarrow> jsval \<Rightarrow> ad_state prog" where
  "removeAlias s aliasId =
     (let failed = fail_with ''Failed to delete alias'' in
      set_error []
      (deleteAlias aliasId
        (\<lambda>_. attempt (js_get (ad_editingDomain s) ''id'') refreshAliases failed) failed))"

definition changeCatchall :: "ad_state \<Rightarrow> string \<Rightarrow> ad_state prog" where
  "changeCatchall s userId =
     (let failed = fail_with ''Failed to set catch-all''; u = js_or (JStr userId) Null in
      set_error []
      (attempt (js_get (ad_editingDomain s) ''id'')
        (\<lambda>i. setDomainCatchall i u
          (\<lambda>_. SetSt (ad_editingDomain_update (\<lambda>_. js_spread_set (ad_editingDomain s) ''catchall_user_id'' u))
             fetchDomains) failed)
        failed))"

definition saveDomain :: "ad_state \<Rightarrow> ad_state prog" where
  "saveDomain s =
     (let failed = fail_with ''Failed to save domain'';
          saved = (\<lambda>_. SetSt (ad_domainModal_update (\<lambda>_. Null)) fetchDomains) in
      set_error []
      (if ad_domainModal s = JStr ''new'' then createDomain (domain_json (ad_domainForm s)) saved failed
       else updateDomain (ad_domainModal s) (domain_json (ad_domainForm s)) saved failed))"

definition removeDomain :: "jsval \<Rightarrow> bool \<Rightarrow> ad_state prog" where
  "removeDomain i confirmed =
     Perform (AskConfirm ''Delete this domain and all its data? This cannot be undone.'')
     (if \<not> confirmed then Done
      else deleteDomain i (\<lambda>_. fetchDomains) (fail_with ''Failed to delete domain''))"

definition toggleDomain :: "jsval \<Rightarrow> jsval \<Rightarrow> ad_state prog" where
  "toggleDomain i current = toggleDomainActive i (js_not current) (\<lambda>_. fetchDomains)
     (fail_with ''Failed to toggle domain'')"

definition set_domain_form :: "domain_form \<Rightarrow> ad_state prog" where
  "set_domain_form f = SetSt (ad_domainForm_update (\<lambda>_. f)) Done"

definition set_alias_form :: "alias_form \<Rightarrow> ad_state prog" where
  "set_alias_form f = SetSt (ad_aliasForm_update (\<lambda>_. f)) Done"

fun dom_handle :: "dom_event \<Rightarrow> ad_state \<Rightarrow> ad_state prog" where
  "dom_handle (DomOpen d) s = openDomainModal d"
| "dom_handle DomClose s = SetSt (ad_domainModal_update (\<lambda>_. Null)) Done"
| "dom_handle (DomName v) s = set_domain_form ((ad_domainForm s)\<lparr>df_name := JStr v\<rparr>)"
| "dom_handle (DomToken v) s = set_domain_form ((ad_domainForm s)\<lparr>df_token := JStr v\<rparr>)"
| "dom_handle (DomStream v) s = set_domain_form ((ad_domainForm s)\<lparr>df_stream := JStr v\<rparr>)"
| "dom_handle (DomActive b) s = set_domain_form ((ad_domainForm s)\<lparr>df_active := b\<rparr>)"
| "dom_handle DomSave s = saveDomain s"
| "dom_handle (DomRemove i confirmed) s = removeDomain i confirmed"
| "dom_handle (DomToggle i current) s = toggleDomain i current"
| "dom_handle (DomCatchall u) s = changeCatchall s u"
| "dom_handle (DomLocal v) s = set_alias_form ((ad_aliasForm s)\<lparr>af_local := v\<rparr>)"
| "dom_handle (DomTargets us) s = set_alias_form ((ad_aliasForm s)\<lparr>af_users := us\<rparr>)"
| "dom_handle DomAddAlias s = addAlias s"
| "dom_handle (DomRemoveAlias i) s = removeAlias s i"

section \<open>The view\<close>

definition dom_row :: "jsval \<Rightarrow> dom_event ui option" where
  "dom_row d = do {
     i \<leftarrow> js_get d ''id'';
     name \<leftarrow> js_child (js_prop d ''name'');
     users \<leftarrow> js_child (js_coalesce (js_prop d ''user_count'') (JStr ''-''));
     stream \<leftarrow> js_child (js_or (js_prop d ''postmark_stream'') (JStr ''outbound''));
     Some (Box [Txt name,
       Btn False (DomToggle i (js_prop d ''is_active''))
         [Txt (if truthy (js_prop d ''is_active'') then ''Active'' else ''Inactive'')],
       Txt users, Txt stream, Btn False (DomOpen d) [Icon ''Edit2''],
       Btn False (DomRemove i True) [Icon ''Trash2''], Btn False (DomRemove i False) [Icon ''Trash2'']]) }"

definition dom_list :: "ad_state \<Rightarrow> dom_event ui list option" where
  "dom_list s =
     (if ad_loading s then Some [Icon ''spinner'']
      else do {
        n \<leftarrow> js_get (ad_domains s) ''length'';
        if n = JNum 0 then Some [Txt ''No domains configured'']
        else do {
          ds \<leftarrow> js_elems (ad_domains s);
          rows \<leftarrow> sequence (map dom_row ds);
          Some ([Txt ''Domain'', Txt ''Status'', Txt ''Users'', Txt ''Stream'', Txt ''Actions''] @ rows) } })"

text \<open>The options of the two \<open>select\<close>s.\<close>

definition user_option :: "jsval \<Rightarrow> dom_event ui option" where
  "user_option u = do { e \<leftarrow> js_get u ''email''; text_child e }"

definition alias_row :: "jsval \<Rightarrow> jsval \<Rightarrow> dom_event ui option" where
  "alias_row domain a = do {
     i \<leftarrow> js_get a ''id'';
     name \<leftarrow> js_child (js_prop a ''local_part'');
     at \<leftarrow> js_child (js_prop domain ''name'');
     ts \<leftarrow> js_elems (js_or (js_prop a ''targets'') (JArr []));
     es \<leftarrow> sequence (map (\<lambda>t. js_get t ''user_email'') ts);
     Some (Box [Txt (name @ ''@'' @ at),
       Txt (let t = js_join_values '', '' es in if t = [] then ''(no targets)'' else t),
       Btn False (DomRemoveAlias i) [Icon ''Trash2'']]) }"

definition alias_view :: "ad_state \<Rightarrow> dom_event ui list option" where
  "alias_view s = do {
     us \<leftarrow> js_elems (ad_allUsers s);
     options \<leftarrow> sequence (map user_option us);
     n \<leftarrow> js_get (ad_aliases s) ''length'';
     as \<leftarrow> js_elems (ad_aliases s);
     rows \<leftarrow> sequence (map (alias_row (ad_editingDomain s)) as);
     let f = ad_aliasForm s;
     Some (
       [Txt ''Catch-all User'', Txt ''Unmatched mail at this domain delivers here.'',
        Field (js_or (js_prop (ad_editingDomain s) ''catchall_user_id'') (JStr [])) is_DomCatchall,
        Txt ''None (reject unmatched)''] @ options @ [Txt ''Aliases''] @
       shown (n = JNum 0) [Txt ''No aliases.''] @ rows @
       [Field (JStr (af_local f)) is_DomLocal, Field (JArr (map JStr (af_users f))) is_DomTargets] @ options @
       [Btn (af_local f = [] \<or> af_users f = []) DomAddAlias
         [Txt (''Add alias ('' @ nat_str (length (af_users f)) @ '' target'' @
            (if length (af_users f) = 1 then [] else ''s'') @ '')'')]]) }"

definition dom_modal :: "ad_state \<Rightarrow> dom_event ui list option" where
  "dom_modal s =
     (let f = ad_domainForm s; is_new = (ad_domainModal s = JStr ''new'') in
      do {
        extra \<leftarrow> (if \<not> is_new \<and> truthy (ad_editingDomain s) then alias_view s else Some []);
        Some ([Txt (if is_new then ''New Domain'' else ''Edit Domain''), Btn False DomClose [Icon ''X''],
           Txt ''Domain Name'', Field (df_name f) is_DomName,
           Txt ''Postmark Token'', Field (df_token f) is_DomToken,
           Txt ''Postmark Stream'', Field (df_stream f) is_DomStream,
           Field (JBool (df_active f)) is_DomActive, Txt ''Active''] @ extra @
          [Btn False DomClose [Txt ''Cancel''], Btn False DomSave [Icon ''Save'', Txt ''Save'']]) })"

definition dom_view :: "ad_state \<Rightarrow> dom_event ui option" where
  "dom_view s = do {
     list \<leftarrow> dom_list s;
     modal \<leftarrow> (if truthy (ad_domainModal s) then dom_modal s
       else map_option (\<lambda>t. [Txt t]) (js_child (ad_domainModal s)));
     Some (Box ([Txt ''Managed Domains'', Btn False (DomOpen Null) [Icon ''Plus'', Txt ''Add Domain'']] @
       list @ modal)) }"

lemmas dom_defs = openDomainModal_def refreshAliases_def addAlias_def removeAlias_def changeCatchall_def
  saveDomain_def removeDomain_def toggleDomain_def set_domain_form_def set_alias_form_def

end
