(* ===== verification/Admin_Users.thy ===== *)
theory Admin_Users imports Admin_State begin

text \<open>
  The users tab of \<open>Admin.jsx\<close>: the table of users, the form for one user, the domain memberships and
  the password reset (lines 298 to 398 and 714 to 943).
\<close>

datatype usr_event =
    UsrOpen jsval
  | UsrClose
  | is_UsrEmail: UsrEmail string
  | is_UsrPassword: UsrPassword string
  | is_UsrName: UsrName string
  | is_UsrAdmin: UsrAdmin bool
  | UsrSave
  | UsrRemove jsval bool
  | is_UsrDomain: UsrDomain string
  | is_UsrRole: UsrRole string
  | UsrAddMember
  | is_UsrChangeRole: UsrChangeRole jsval string
  | UsrRemoveMember jsval
  | UsrOpenReset jsval
  | UsrCloseReset
  | is_UsrNewPassword: UsrNewPassword string
  | UsrReset

definition openUserModal :: "jsval \<Rightarrow> ad_state prog" where
  "openUserModal user =
     (let finish = SetSt (\<lambda>s. s\<lparr>ad_memberForm := new_member, ad_error := JStr []\<rparr>) Done in
      if truthy user
      then SetSt (\<lambda>s. s\<lparr>ad_userForm := \<lparr>uf_email = js_or (js_prop user ''email'') (JStr []),
             uf_password = JStr [], uf_name = js_or (js_prop user ''display_name'') (JStr []),
             uf_admin = js_or (js_prop user ''is_super_admin'') (JBool False)\<rparr>,
             ad_editingUser := user, ad_userModal := js_prop user ''id''\<rparr>) finish
      else SetSt (\<lambda>s. s\<lparr>ad_userForm := new_user, ad_editingUser := Null, ad_userModal := JStr ''new''\<rparr>) finish)"

text \<open>
  Lines 317 to 322; it is awaited inside the \<open>try\<close> of its callers, so what it throws goes to
  their \<open>catch\<close>.
\<close>

definition refreshEditingUser :: "jsval \<Rightarrow> (jsval \<Rightarrow> ad_state prog) \<Rightarrow> ad_state prog" where
  "refreshEditingUser i failed =
     getAdminUsers (JNum 20) (JNum 0)
       (\<lambda>list. SetSt (ad_users_update (\<lambda>_. list))
          (attempt (do { us \<leftarrow> js_elems list; js_find ''id'' i us })
            (\<lambda>found. if truthy found then SetSt (ad_editingUser_update (\<lambda>_. found)) Done else Done)
            failed))
       failed"

definition addMembership :: "ad_state \<Rightarrow> ad_state prog" where
  "addMembership s =
     (let f = ad_memberForm s; failed = fail_with ''Failed to add domain membership'' in
      if mf_domain f = [] then Done
      else set_error []
        (attempt (js_get (ad_editingUser s) ''id'')
          (\<lambda>i. addUserDomain i (JStr (mf_domain f)) (JStr (mf_role f))
            (\<lambda>_. SetSt (ad_memberForm_update (\<lambda>_. new_member)) (refreshEditingUser i failed)) failed)
          failed))"

definition changeMembershipRole :: "ad_state \<Rightarrow> jsval \<Rightarrow> string \<Rightarrow> ad_state prog" where
  "changeMembershipRole s domainId role =
     (let failed = fail_with ''Failed to update role'' in
      set_error []
      (attempt (js_get (ad_editingUser s) ''id'')
        (\<lambda>i. updateUserDomainRole i domainId (JStr role) (\<lambda>_. refreshEditingUser i failed) failed) failed))"

definition removeMembership :: "ad_state \<Rightarrow> jsval \<Rightarrow> ad_state prog" where
  "removeMembership s domainId =
     (let failed = fail_with ''Failed to remove domain membership'' in
      set_error []
      (attempt (js_get (ad_editingUser s) ''id'')
        (\<lambda>i. removeUserDomain i domainId (\<lambda>_. refreshEditingUser i failed) failed) failed))"

text \<open>Lines 356 to 371: an existing user is saved without the password field.\<close>

definition saveUser :: "ad_state \<Rightarrow> ad_state prog" where
  "saveUser s =
     (let failed = fail_with ''Failed to save user'';
          saved = (\<lambda>_. SetSt (ad_userModal_update (\<lambda>_. Null)) fetchUsers) in
      set_error []
      (if ad_userModal s = JStr ''new'' then createAdminUser (user_json (ad_userForm s)) saved failed
       else updateAdminUser (ad_userModal s) (without_key ''password'' (user_json (ad_userForm s))) saved failed))"

definition removeUser :: "jsval \<Rightarrow> bool \<Rightarrow> ad_state prog" where
  "removeUser i confirmed =
     Perform (AskConfirm ''Delete this user? This cannot be undone.'')
     (if \<not> confirmed then Done
      else deleteAdminUser i (\<lambda>_. fetchUsers) (fail_with ''Failed to delete user''))"

definition openResetModal :: "jsval \<Rightarrow> ad_state prog" where
  "openResetModal user =
     SetSt (\<lambda>s. s\<lparr>ad_resetModal := user, ad_resetPassword := [], ad_error := JStr []\<rparr>) Done"

definition doResetPassword :: "ad_state \<Rightarrow> ad_state prog" where
  "doResetPassword s =
     (let failed = fail_with ''Failed to reset password'' in
      set_error []
      (attempt (js_get (ad_resetModal s) ''id'')
        (\<lambda>i. resetAdminUserPassword i (JStr (ad_resetPassword s))
          (\<lambda>_. SetSt (\<lambda>s. s\<lparr>ad_resetModal := Null, ad_resetPassword := []\<rparr>) Done) failed)
        failed))"

definition set_user_form :: "user_form \<Rightarrow> ad_state prog" where
  "set_user_form f = SetSt (ad_userForm_update (\<lambda>_. f)) Done"

definition set_member_form :: "member_form \<Rightarrow> ad_state prog" where
  "set_member_form f = SetSt (ad_memberForm_update (\<lambda>_. f)) Done"

fun usr_handle :: "usr_event \<Rightarrow> ad_state \<Rightarrow> ad_state prog" where
  "usr_handle (UsrOpen u) s = openUserModal u"
| "usr_handle UsrClose s = SetSt (ad_userModal_update (\<lambda>_. Null)) Done"
| "usr_handle (UsrEmail v) s = set_user_form ((ad_userForm s)\<lparr>uf_email := JStr v\<rparr>)"
| "usr_handle (UsrPassword v) s = set_user_form ((ad_userForm s)\<lparr>uf_password := JStr v\<rparr>)"
| "usr_handle (UsrName v) s = set_user_form ((ad_userForm s)\<lparr>uf_name := JStr v\<rparr>)"
| "usr_handle (UsrAdmin b) s = set_user_form ((ad_userForm s)\<lparr>uf_admin := JBool b\<rparr>)"
| "usr_handle UsrSave s = saveUser s"
| "usr_handle (UsrRemove i confirmed) s = removeUser i confirmed"
| "usr_handle (UsrDomain v) s = set_member_form ((ad_memberForm s)\<lparr>mf_domain := v\<rparr>)"
| "usr_handle (UsrRole v) s = set_member_form ((ad_memberForm s)\<lparr>mf_role := v\<rparr>)"
| "usr_handle UsrAddMember s = addMembership s"
| "usr_handle (UsrChangeRole d r) s = changeMembershipRole s d r"
| "usr_handle (UsrRemoveMember d) s = removeMembership s d"
| "usr_handle (UsrOpenReset u) s = openResetModal u"
| "usr_handle UsrCloseReset s = SetSt (ad_resetModal_update (\<lambda>_. Null)) Done"
| "usr_handle (UsrNewPassword v) s = SetSt (ad_resetPassword_update (\<lambda>_. v)) Done"
| "usr_handle UsrReset s = doResetPassword s"

section \<open>The view\<close>

definition ROLES :: "string list" where
  "ROLES = [''admin'', ''user'', ''readonly'']"

definition usr_row :: "jsval \<Rightarrow> usr_event ui option" where
  "usr_row u = do {
     i \<leftarrow> js_get u ''id'';
     email \<leftarrow> js_child (js_prop u ''email'');
     name \<leftarrow> js_child (js_or (js_prop u ''display_name'') (JStr ''-''));
     n \<leftarrow> js_child (js_coalesce (js_oget (js_prop u ''memberships'') ''length'') (JNum 0));
     Some (Box [Txt email, Txt name,
       Txt (if truthy (js_prop u ''is_super_admin'') then ''Super Admin'' else ''User''), Txt n,
       Btn False (UsrOpen u) [Icon ''Edit2''], Btn False (UsrOpenReset u) [Icon ''Lock''],
       Btn False (UsrRemove i True) [Icon ''Trash2''], Btn False (UsrRemove i False) [Icon ''Trash2'']]) }"

definition usr_list :: "ad_state \<Rightarrow> usr_event ui list option" where
  "usr_list s =
     (if ad_loading s then Some [Icon ''spinner'']
      else do {
        n \<leftarrow> js_get (ad_users s) ''length'';
        if n = JNum 0 then Some [Txt ''No users found'']
        else do {
          us \<leftarrow> js_elems (ad_users s);
          rows \<leftarrow> sequence (map usr_row us);
          Some ([Txt ''Email'', Txt ''Name'', Txt ''Role'', Txt ''Domains'', Txt ''Actions''] @ rows) } })"

text \<open>The roles a \<open>select\<close> offers; it raises a change to one of them.\<close>

definition member_row :: "jsval \<Rightarrow> usr_event ui option" where
  "member_row m = do {
     d \<leftarrow> js_get m ''domain_id'';
     name \<leftarrow> js_child (js_or (js_prop m ''domain_name'') d);
     Some (Box [Txt name,
       Field (js_prop m ''role'') (\<lambda>e. \<exists>r \<in> set ROLES. e = UsrChangeRole d r),
       Btn False (UsrRemoveMember d) [Icon ''Trash2'']]) }"

text \<open>The domains the user does not belong to yet.\<close>

fun is_member :: "jsval \<Rightarrow> jsval list \<Rightarrow> bool option" where
  "is_member d [] = Some False"
| "is_member d (m # ms) = do {
     held \<leftarrow> js_get m ''domain_id'';
     i \<leftarrow> js_get d ''id'';
     if held = i then Some True else is_member d ms }"

definition joinable :: "jsval \<Rightarrow> jsval \<Rightarrow> jsval list option" where
  "joinable memberships domains = do {
     ds \<leftarrow> js_elems domains;
     filter_option (\<lambda>d. do {
       ms \<leftarrow> js_elems (js_or memberships (JArr []));
       held \<leftarrow> is_member d ms;
       Some (\<not> held) }) ds }"

definition member_view :: "ad_state \<Rightarrow> usr_event ui list option" where
  "member_view s =
     (let memberships = js_oget (ad_editingUser s) ''memberships''; f = ad_memberForm s in
      do {
        ms \<leftarrow> js_elems (js_or memberships (JArr []));
        rows \<leftarrow> sequence (map member_row ms);
        ds \<leftarrow> joinable memberships (ad_domains s);
        names \<leftarrow> sequence (map (\<lambda>d. text_child (js_oget d ''name'')) ds);
        Some ([Txt ''Domain Memberships''] @
          shown (js_coalesce (js_oget memberships ''length'') (JNum 0) = JNum 0)
            [Txt ''No domains. User has no mailbox access until added.''] @ rows @
          [Field (JStr (mf_domain f)) (\<lambda>e. \<exists>d \<in> set (JStr [] # map (\<lambda>d. js_oget d ''id'') ds).
             e = UsrDomain (js_string d)), Txt ''Add domain...''] @ names @
          [Field (JStr (mf_role f)) (\<lambda>e. \<exists>r \<in> set ROLES. e = UsrRole r),
           Btn (mf_domain f = []) UsrAddMember [Txt ''Add'']]) })"

definition usr_modal :: "ad_state \<Rightarrow> usr_event ui list option" where
  "usr_modal s =
     (let f = ad_userForm s; is_new = (ad_userModal s = JStr ''new'') in
      do {
        members \<leftarrow> (if \<not> is_new \<and> truthy (ad_editingUser s) then member_view s else Some []);
        Some ([Txt (if is_new then ''New User'' else ''Edit User''), Btn False UsrClose [Icon ''X''],
           Txt ''Email'', Field (uf_email f) is_UsrEmail] @
          shown is_new [Txt ''Password'', Field (uf_password f) is_UsrPassword] @
          [Txt ''Display Name'', Field (uf_name f) is_UsrName,
           Field (uf_admin f) is_UsrAdmin, Txt ''Super Admin''] @ members @
          [Btn False UsrClose [Txt ''Cancel''], Btn False UsrSave [Icon ''Save'', Txt ''Save'']]) })"

definition reset_modal :: "ad_state \<Rightarrow> usr_event ui list option" where
  "reset_modal s = do {
     email \<leftarrow> js_child (js_prop (ad_resetModal s) ''email'');
     Some [Txt ''Reset Password'', Btn False UsrCloseReset [Icon ''X''],
       Txt ''Set a new password for '', Txt email, Field (JStr (ad_resetPassword s)) is_UsrNewPassword,
       Btn False UsrCloseReset [Txt ''Cancel''], Btn False UsrReset [Icon ''Lock'', Txt ''Reset'']] }"

definition usr_view :: "ad_state \<Rightarrow> usr_event ui option" where
  "usr_view s = do {
     list \<leftarrow> usr_list s;
     modal \<leftarrow> (if truthy (ad_userModal s) then usr_modal s
       else map_option (\<lambda>t. [Txt t]) (js_child (ad_userModal s)));
     reset \<leftarrow> (if truthy (ad_resetModal s) then reset_modal s
       else map_option (\<lambda>t. [Txt t]) (js_child (ad_resetModal s)));
     Some (Box ([Txt ''Users'', Btn False (UsrOpen Null) [Icon ''Plus'', Txt ''Add User'']] @
       list @ modal @ reset)) }"

lemmas usr_defs = openUserModal_def refreshEditingUser_def addMembership_def changeMembershipRole_def
  removeMembership_def saveUser_def removeUser_def openResetModal_def doResetPassword_def
  set_user_form_def set_member_form_def

end
