(* ===== verification/Admin_Tls.thy ===== *)
theory Admin_Tls imports Admin_State begin

text \<open>
  The certificates tab of \<open>Admin.jsx\<close>: certificate status, ACME configuration, the list of domains and
  the forced renewal with its polling (lines 98 to 190 and 1028 to 1209). The ellipsis of a message
  is three dots here.
\<close>

datatype tls_event =
    is_TlsEnabled: TlsEnabled bool
  | is_TlsEmail: TlsEmail string
  | is_TlsDirectory: TlsDirectory string
  | is_TlsProvider: TlsProvider string
  | is_TlsCred: TlsCred jsval string
  | TlsSave
  | is_TlsNew: TlsNew string
  | TlsEnter
  | TlsAdd
  | TlsDelete jsval bool
  | TlsRenew bool

section \<open>Loading: \<open>Promise.all\<close>\<close>

text \<open>The callback of lines 106 to 120.\<close>

definition tls_loaded :: "jsval \<Rightarrow> jsval \<Rightarrow> jsval \<Rightarrow> jsval \<Rightarrow> ad_state \<Rightarrow> ad_state" where
  "tls_loaded status providers config domains s =
     (let s1 = s\<lparr>ad_tlsStatus := status, ad_tlsProviders := providers, ad_tlsConfig := config,
          ad_tlsDomains := domains\<rparr> in
      if truthy config
      then s1\<lparr>ad_tlsForm := \<lparr>tf_enabled = js_or (js_prop config ''enabled'') (JBool False),
             tf_email = js_or (js_prop config ''email'') (JStr []),
             tf_directory = js_or (js_prop config ''directory'') (JStr ''staging''),
             tf_provider = js_or (js_prop config ''dns_provider'') (JStr ''cloudflare''),
             tf_credentials = []\<rparr>\<rparr>
      else s1)"

text \<open>
  One result of the join \<open>j\<close> arrives: it is kept, and with the last one the callback runs, then
  \<open>finally\<close>. A join that is settled ignores what arrives.
\<close>

definition join_part :: "nat \<Rightarrow> nat \<Rightarrow> jsval \<Rightarrow> ad_state \<Rightarrow> ad_state" where
  "join_part j i v s =
     (if j < length (ad_joins s) \<and> ad_joins s ! j \<noteq> []
      then (let parts = (ad_joins s ! j)[i := Some v] in
        case sequence parts of
          None \<Rightarrow> s\<lparr>ad_joins := (ad_joins s)[j := parts]\<rparr>
        | Some vs \<Rightarrow> (tls_loaded (vs ! 0) (vs ! 1) (vs ! 2) (vs ! 3) s)
            \<lparr>ad_joins := (ad_joins s)[j := []], ad_loading := False\<rparr>)
      else s)"

text \<open>One of them fails: the first failure settles the join, with the \<open>catch\<close> and the \<open>finally\<close>.\<close>

definition join_fail :: "nat \<Rightarrow> jsval \<Rightarrow> ad_state \<Rightarrow> ad_state" where
  "join_fail j err s =
     (if j < length (ad_joins s) \<and> ad_joins s ! j \<noteq> []
      then s\<lparr>ad_joins := (ad_joins s)[j := []],
          ad_error := err_text err (JStr ''Failed to load TLS settings''), ad_loading := False\<rparr>
      else s)"

definition part_of :: "nat \<Rightarrow> nat \<Rightarrow> (ad_state api) \<Rightarrow> ad_state prog" where
  "part_of j i ask = ask (\<lambda>v. SetSt (join_part j i v) Done) (\<lambda>err. SetSt (join_fail j err) Done)"

definition fetch_all :: "nat \<Rightarrow> ad_state prog" where
  "fetch_all j =
     SetSt (\<lambda>s. s\<lparr>ad_joins := ad_joins s @ [[None, None, None, None]]\<rparr>)
     (Fork (part_of j 0 getTLSStatus)
     (Fork (part_of j 1 getTLSProviders)
     (Fork (part_of j 2 getTLSConfig) (part_of j 3 getTLSDomains))))"

definition fetchTLS :: "ad_state prog" where
  "fetchTLS = SetSt (ad_loading_update (\<lambda>_. True)) (Get (\<lambda>s. fetch_all (length (ad_joins s))))"

section \<open>Handlers\<close>

definition free_tls :: "ad_state prog" where
  "free_tls = SetSt (ad_tlsBusy_update (\<lambda>_. False)) Done"

definition failed_tls :: "string \<Rightarrow> jsval \<Rightarrow> ad_state prog" where
  "failed_tls t err = SetSt (ad_error_update (\<lambda>_. err_text err (JStr t))) free_tls"

definition take_tls :: "string \<Rightarrow> ad_state prog \<Rightarrow> ad_state prog" where
  "take_tls t p = SetSt (ad_tlsBusy_update (\<lambda>_. True)) (set_error t p)"

text \<open>Lines 125 to 137.\<close>

definition saveTLSConfig :: "ad_state \<Rightarrow> ad_state prog" where
  "saveTLSConfig s = take_tls []
     (updateTLSConfig (tls_json (ad_tlsForm s))
       (\<lambda>_. set_error ''TLS configuration saved'' (Fork fetchTLS free_tls))
       (failed_tls ''Failed to save TLS configuration''))"

definition addTlsDomainHandler :: "ad_state \<Rightarrow> ad_state prog" where
  "addTlsDomainHandler s =
     (if js_trim (ad_newTls s) = [] then Done
      else take_tls []
        (addTLSDomain (JStr (js_trim (ad_newTls s)))
          (\<lambda>_. SetSt (ad_newTls_update (\<lambda>_. [])) (Fork fetchTLS free_tls))
          (failed_tls ''Failed to add domain'')))"

definition deleteTlsDomainHandler :: "jsval \<Rightarrow> bool \<Rightarrow> ad_state prog" where
  "deleteTlsDomainHandler i confirmed =
     Perform (AskConfirm ''Remove this domain? The certificate will be re-issued without it.'')
     (if \<not> confirmed then Done
      else take_tls []
        (deleteTLSDomain i (\<lambda>_. Fork fetchTLS free_tls) (failed_tls ''Failed to remove domain'')))"

text \<open>Lines 174 to 185: the body of the interval \<open>h\<close>. An answer that says the renewal is still running
  changes nothing, and an exception is not caught.\<close>

definition poll_renewal :: "nat \<Rightarrow> ad_state prog" where
  "poll_renewal h = getTLSRenewStatus
     (\<lambda>r. attempt (js_get r ''renewing'')
       (\<lambda>renewing. if truthy renewing then Done
          else ClearTimer h (SetSt (ad_tlsBusy_update (\<lambda>_. False))
            (if truthy (js_prop r ''last_error'')
             then SetSt (ad_error_update (\<lambda>_. js_prop r ''last_error'')) Done
             else set_error ''Certificate renewed'' fetchTLS)))
       uncaught)
     uncaught"

definition forceRenewHandler :: "bool \<Rightarrow> ad_state prog" where
  "forceRenewHandler confirmed =
     Perform (AskConfirm ''Force certificate renewal now?'')
     (if \<not> confirmed then Done
      else take_tls ''Renewal in progress...''
        (renewTLS (\<lambda>_. SetTimer True poll_renewal (\<lambda>_. Done))
          (\<lambda>err. SetSt (ad_tlsBusy_update (\<lambda>_. False)) (fail_with ''Renewal failed'' err))))"

text \<open>The form is updated with functions of the current form (\<open>(p) => ({ ...p, .. })\<close>).\<close>

definition change_tls_form :: "(tls_form \<Rightarrow> tls_form) \<Rightarrow> ad_state prog" where
  "change_tls_form f = SetSt (\<lambda>s. s\<lparr>ad_tlsForm := f (ad_tlsForm s)\<rparr>) Done"

fun tls_handle :: "tls_event \<Rightarrow> ad_state \<Rightarrow> ad_state prog" where
  "tls_handle (TlsEnabled b) s = change_tls_form (tf_enabled_update (\<lambda>_. JBool b))"
| "tls_handle (TlsEmail v) s = change_tls_form (tf_email_update (\<lambda>_. JStr v))"
| "tls_handle (TlsDirectory v) s = change_tls_form (tf_directory_update (\<lambda>_. JStr v))"
| "tls_handle (TlsProvider v) s = change_tls_form (\<lambda>f. f\<lparr>tf_provider := JStr v, tf_credentials := []\<rparr>)"
| "tls_handle (TlsCred k v) s = change_tls_form
     (\<lambda>f. f\<lparr>tf_credentials := assoc_set (js_string k) (JStr v) (tf_credentials f)\<rparr>)"
| "tls_handle TlsSave s = saveTLSConfig s"
| "tls_handle (TlsNew v) s = SetSt (ad_newTls_update (\<lambda>_. v)) Done"
| "tls_handle TlsEnter s = addTlsDomainHandler s"
| "tls_handle TlsAdd s = addTlsDomainHandler s"
| "tls_handle (TlsDelete i confirmed) s = deleteTlsDomainHandler i confirmed"
| "tls_handle (TlsRenew confirmed) s = forceRenewHandler confirmed"

section \<open>The view\<close>

definition dash :: "jsval \<Rightarrow> tls_event ui option" where
  "dash v = text_child (js_or v (JStr ''-''))"

text \<open>Lines 1044 to 1079.\<close>

definition tls_status_view :: "locale_fns \<Rightarrow> jsval \<Rightarrow> tls_event ui list option" where
  "tls_status_view loc info =
     (if truthy info then do {
        issuer \<leftarrow> dash (js_prop info ''issuer'');
        directory \<leftarrow> dash (js_prop info ''directory'');
        let expires = (if truthy (js_prop info ''not_after'') then date_time loc (js_prop info ''not_after'') else ''-'');
        days \<leftarrow> (if truthy (js_prop info ''has_cert'')
          then map_option (\<lambda>t. [Txt (''('' @ t @ ''d)'')]) (js_child (js_prop info ''days_remaining''))
          else map_option (\<lambda>t. [Txt t]) (js_child (js_prop info ''has_cert'')));
        provider \<leftarrow> dash (js_prop info ''dns_provider'');
        ds \<leftarrow> js_elems (js_or (js_prop info ''domains'') (JArr []));
        Some ([Txt ''Issuer'', issuer, Txt ''Directory'', directory, Txt ''Expires'', Txt expires] @ days @
          [Txt ''DNS Provider'', provider, Txt ''SAN Domains'',
           Txt (let t = js_join_values '', '' ds in if t = [] then ''-'' else t)]) }
      else Some [Icon ''AlertTriangle'',
        Txt ''ACME/TLS is not configured. Set POSTNEST_SECRET_KEY and enable ACME.''])"

text \<open>Lines 1133 to 1160: the fields of the chosen provider.\<close>

definition cred_view :: "ad_state \<Rightarrow> jsval \<Rightarrow> tls_event ui option" where
  "cred_view s f = do {
     k \<leftarrow> js_get f ''key'';
     label \<leftarrow> js_child (js_prop f ''label'');
     let stored = js_oget (js_oget (ad_tlsConfig s) ''creds_set'') (js_string k);
     let value = js_or (js_prop (JObj (tf_credentials (ad_tlsForm s))) (js_string k)) (JStr []);
     required \<leftarrow> (if truthy (js_prop f ''required'') then Some [Txt '' *'']
       else map_option (\<lambda>t. [Txt t]) (js_child (js_prop f ''required'')));
     Some (Box ([Txt label] @ required @
       [Field value (\<lambda>e. \<exists>v. e = TlsCred k v), Txt (if truthy stored then ''(stored)'' else [])])) }"

definition creds_view :: "ad_state \<Rightarrow> tls_event ui list option" where
  "creds_view s = do {
     ps \<leftarrow> js_elems (ad_tlsProviders s);
     p \<leftarrow> js_find ''name'' (tf_provider (ad_tlsForm s)) ps;
     fs \<leftarrow> js_elems (js_or (js_oget p ''fields'') (JArr []));
     sequence (map (cred_view s) fs) }"

definition provider_option :: "jsval \<Rightarrow> tls_event ui option" where
  "provider_option p = do { d \<leftarrow> js_get p ''display''; text_child d }"

definition tls_config_view :: "ad_state \<Rightarrow> tls_event ui list option" where
  "tls_config_view s =
     (let f = ad_tlsForm s in
      do {
        ps \<leftarrow> js_elems (ad_tlsProviders s);
        options \<leftarrow> sequence (map provider_option ps);
        creds \<leftarrow> creds_view s;
        Some ([Txt ''ACME Configuration'', Field (tf_enabled f) is_TlsEnabled, Txt ''Enable ACME'',
           Txt ''Account Email'', Field (tf_email f) is_TlsEmail,
           Txt ''Directory'', Field (tf_directory f)
             (\<lambda>e. e = TlsDirectory ''staging'' \<or> e = TlsDirectory ''production''),
           Txt ''DNS Provider'', Field (tf_provider f)
             (\<lambda>e. \<exists>p \<in> set ps. e = TlsProvider (js_string (js_oget p ''name'')))] @ options @
          [Txt ''Credentials are encrypted at rest. Leave a field blank to keep the stored value.''] @ creds @
          [Btn (ad_tlsBusy s) TlsSave [Icon ''Save'', Txt ''Save Configuration'']]) })"

definition tls_domain_row :: "ad_state \<Rightarrow> jsval \<Rightarrow> tls_event ui option" where
  "tls_domain_row s d = do {
     i \<leftarrow> js_get d ''id'';
     name \<leftarrow> js_child (js_prop d ''domain'');
     Some (Box [Txt name, Btn (ad_tlsBusy s) (TlsDelete i True) [Icon ''Trash2''],
       Btn (ad_tlsBusy s) (TlsDelete i False) [Icon ''Trash2'']]) }"

text \<open>Lines 1170 to 1207; the Enter key adds the domain whether or not the button is disabled.\<close>

definition tls_domains_view :: "ad_state \<Rightarrow> tls_event ui list option" where
  "tls_domains_view s = do {
     n \<leftarrow> js_get (ad_tlsDomains s) ''length'';
     rows \<leftarrow> (if js_positive n
       then do { ds \<leftarrow> js_elems (ad_tlsDomains s); sequence (map (tls_domain_row s) ds) }
       else Some [Txt ''No domains configured.'']);
     Some ([Txt ''SAN Domains'', Field (JStr (ad_newTls s)) (\<lambda>e. is_TlsNew e \<or> e = TlsEnter),
       Btn (ad_tlsBusy s) TlsAdd [Icon ''Plus'', Txt ''Add'']] @ rows) }"

definition tls_view :: "locale_fns \<Rightarrow> ad_state \<Rightarrow> tls_event ui option" where
  "tls_view loc s = do {
     status \<leftarrow> tls_status_view loc (ad_tlsStatus s);
     config \<leftarrow> tls_config_view s;
     domains \<leftarrow> tls_domains_view s;
     let locked = (ad_tlsBusy s \<or> \<not> truthy (ad_tlsStatus s));
     Some (Box ([Txt ''TLS / Certificates'', Txt ''Certificate Status'',
       Btn locked (TlsRenew True) [Icon ''RefreshCw'', Txt ''Force Renew''],
       Btn locked (TlsRenew False) [Icon ''RefreshCw'', Txt ''Force Renew'']] @ status @ config @ domains)) }"

lemmas tls_defs = part_of_def fetch_all_def fetchTLS_def free_tls_def failed_tls_def take_tls_def
  saveTLSConfig_def addTlsDomainHandler_def deleteTlsDomainHandler_def poll_renewal_def
  forceRenewHandler_def change_tls_form_def

end
