(* ===== verification/Admin_Security.thy ===== *)
theory Admin_Security imports Admin_State begin

text \<open>
  The overview and security tabs of \<open>Admin.jsx\<close>: the health figures (lines 457 to 508), and the
  settings with their form (lines 400 to 415 and 945 to 1026).
\<close>

datatype sec_event = is_SecSetting: SecSetting string string | SecSave

text \<open>Lines 401 to 411; the message goes away after two seconds.\<close>

definition saveSettings :: "ad_state \<Rightarrow> ad_state prog" where
  "saveSettings s = set_error []
     (updateAdminSettings (ad_settingsForm s)
       (\<lambda>_. SetSt (ad_settings_update (\<lambda>_. JObj (js_entries (ad_settingsForm s))))
          (set_error ''Settings saved''
            (SetTimer False (\<lambda>_. set_error [] Done) (\<lambda>_. Done))))
       (fail_with ''Failed to save settings''))"

definition handleSettingChange :: "string \<Rightarrow> string \<Rightarrow> ad_state prog" where
  "handleSettingChange k v = SetSt (\<lambda>s. s\<lparr>ad_settingsForm := js_spread_set (ad_settingsForm s) k (JStr v)\<rparr>) Done"

fun sec_handle :: "sec_event \<Rightarrow> ad_state \<Rightarrow> ad_state prog" where
  "sec_handle (SecSetting k v) s = handleSettingChange k v"
| "sec_handle SecSave s = saveSettings s"

section \<open>Views\<close>

definition setting_on :: "ad_state \<Rightarrow> string \<Rightarrow> bool" where
  "setting_on s k \<longleftrightarrow> js_prop (ad_settingsForm s) k = JStr ''true''"

definition setting_switch :: "ad_state \<Rightarrow> string \<Rightarrow> sec_event ui" where
  "setting_switch s k = Btn False (SecSetting k (if setting_on s k then ''false'' else ''true''))
     [Icon (if setting_on s k then ''on'' else ''off'')]"

definition setting_input :: "ad_state \<Rightarrow> string \<Rightarrow> string \<Rightarrow> sec_event ui" where
  "setting_input s k d = Field (js_or (js_prop (ad_settingsForm s) k) (JStr d)) (\<lambda>e. \<exists>v. e = SecSetting k v)"

text \<open>Reading a property of a nullish form throws.\<close>

definition sec_view :: "ad_state \<Rightarrow> sec_event ui option" where
  "sec_view s =
     (if nullish (ad_settingsForm s) then None
      else Some (Box [Txt ''Security Settings'',
        Txt ''Allow Insecure Auth'', setting_switch s ''allow_insecure_auth'',
        Txt ''Require Strong Passwords'', setting_switch s ''require_strong_passwords'',
        Txt ''Session Timeout (minutes)'', setting_input s ''session_timeout_minutes'' ''60'',
        Txt ''Rate Limit (requests/minute)'', setting_input s ''rate_limit_requests_per_minute'' ''100'',
        Btn False SecSave [Icon ''Save'', Txt ''Save Settings'']]))"

text \<open>Lines 480 to 502: one service, and the queue of the worker.\<close>

definition service_line :: "string \<Rightarrow> jsval \<Rightarrow> string option" where
  "service_line label c =
     (let up = (js_oget c ''status'' = JStr ''up''); ms = js_oget c ''latency_ms''; err = js_oget c ''error'' in
      Some (label @ '': '' @ (if up then ''Running'' else ''Down'') @
        (if up \<and> \<not> nullish ms then '' ('' @ js_string ms @ ''ms)'' else []) @
        (if \<not> up \<and> truthy err then '' - '' @ js_string err else [])))"

definition overview_view :: "ad_state \<Rightarrow> sec_event ui option" where
  "overview_view s =
     (let h = ad_health s; figure = (\<lambda>k. text_child (js_coalesce (js_oget h k) (JStr ''-''))) in
      do {
        domains \<leftarrow> figure ''total_domains'';
        users \<leftarrow> figure ''active_users'';
        messages \<leftarrow> figure ''messages_today'';
        status \<leftarrow> (if \<not> truthy h then Some [Txt ''Loading status...'']
          else do {
            lines \<leftarrow> sequence (map (\<lambda>(label, k). service_line label (js_prop h k))
              [(''Database'', ''database''), (''Redis'', ''redis''),
               (''IMAP Server'', ''imap''), (''SMTP Server'', ''smtp'')]);
            depth \<leftarrow> js_child (js_coalesce (js_oget (js_prop h ''worker_queue'') ''depth'') (JNum 0));
            dead \<leftarrow> js_child (js_coalesce (js_oget (js_prop h ''worker_queue'') ''dead'') (JNum 0));
            Some (map Txt lines @ [Txt (''Worker queue: '' @ depth @ '' pending, '' @ dead @ '' dead'')]) });
        Some (Box ([Txt ''Total Domains'', domains, Txt ''Active Users'', users,
          Txt ''Messages Today'', messages, Txt ''System Status''] @ status)) })"

lemmas sec_defs = saveSettings_def handleSettingChange_def

end
