(* ===== verification/Admin.thy ===== *)
theory Admin imports Admin_Domains Admin_Users Admin_Tls Admin_Security begin

text \<open>
  \<open>web/src/components/Admin.jsx\<close>: the administration page as one component, from the state and the
  tabs of the other \<open>Admin_*\<close> theories; its effects (lines 86 to 96 and 192 to 197), and the properties.
\<close>

datatype ad_event =
    AdTab string
  | Dom dom_event
  | Usr usr_event
  | Sec sec_event
  | Tls tls_event

text \<open>An event of a tab as an event of the page.\<close>

fun lift_ui :: "('a \<Rightarrow> 'b) \<Rightarrow> 'a ui \<Rightarrow> 'b ui" where
  "lift_ui f (Txt t) = Txt t"
| "lift_ui f (Icon t) = Icon t"
| "lift_ui f (Btn b e us) = Btn b (f e) (map (lift_ui f) us)"
| "lift_ui f (Clickable e us) = Clickable (f e) (map (lift_ui f) us)"
| "lift_ui f (Field v p) = Field v (\<lambda>e. \<exists>a. p a \<and> e = f a)"
| "lift_ui f (Form b e us) = Form b (f e) (map (lift_ui f) us)"
| "lift_ui f (Frame a d) = Frame a d"
| "lift_ui f (Box us) = Box (map (lift_ui f) us)"

definition tabs :: "(string \<times> string \<times> string) list" where
  "tabs = [(''overview'', ''Overview'', ''Activity''), (''domains'', ''Domains'', ''Globe''),
     (''users'', ''Users'', ''Users''), (''security'', ''Security'', ''Shield''),
     (''tls'', ''TLS / Certificates'', ''Lock'')]"

text \<open>The effect of lines 192 to 197.\<close>

definition open_tab :: "string \<Rightarrow> ad_state prog" where
  "open_tab t =
     (if t = ''domains'' then fetchDomains
      else if t = ''users''
      then Fork fetchUsers (getDomains (\<lambda>ds. SetSt (ad_domains_update (\<lambda>_. ds)) Done) (\<lambda>_. Done))
      else if t = ''security'' then fetchSettings
      else if t = ''tls'' then fetchTLS else Done)"

definition ad_commit :: "ad_state option \<Rightarrow> ad_state \<Rightarrow> ad_state prog" where
  "ad_commit old s =
     Fork (if old = None then watch_health else Done)
       (if map_option ad_tab old = Some (ad_tab s) then Done else open_tab (ad_tab s))"

definition ad_cleanup :: "ad_state \<Rightarrow> ad_state prog" where
  "ad_cleanup s = (case ad_poll s of Some h \<Rightarrow> ClearTimer h Done | None \<Rightarrow> Done)"

fun ad_handle :: "ad_event \<Rightarrow> ad_state \<Rightarrow> ad_state prog" where
  "ad_handle (AdTab t) s = SetSt (\<lambda>s. s\<lparr>ad_tab := t, ad_error := JStr []\<rparr>) Done"
| "ad_handle (Dom e) s = dom_handle e s"
| "ad_handle (Usr e) s = usr_handle e s"
| "ad_handle (Sec e) s = sec_handle e s"
| "ad_handle (Tls e) s = tls_handle e s"

definition tab_button :: "(string \<times> string \<times> string) \<Rightarrow> ad_event ui" where
  "tab_button = (\<lambda>(i, label, icon). Btn False (AdTab i) [Icon icon, Txt label])"

definition tab_view :: "locale_fns \<Rightarrow> ad_state \<Rightarrow> ad_event ui option" where
  "tab_view loc s =
     (if ad_tab s = ''overview'' then map_option (lift_ui Sec) (overview_view s)
      else if ad_tab s = ''domains'' then map_option (lift_ui Dom) (dom_view s)
      else if ad_tab s = ''users'' then map_option (lift_ui Usr) (usr_view s)
      else if ad_tab s = ''security'' then map_option (lift_ui Sec) (sec_view s)
      else if ad_tab s = ''tls'' then map_option (lift_ui Tls) (tls_view loc s)
      else Some (Box []))"

definition renderError :: "ad_state \<Rightarrow> ad_event ui list option" where
  "renderError s =
     (if \<not> truthy (ad_error s) then Some []
      else map_option (\<lambda>t. [Box [Icon ''AlertTriangle'', Txt t]]) (js_child (ad_error s)))"

definition ad_view :: "locale_fns \<Rightarrow> ad_state \<Rightarrow> ad_event ui option" where
  "ad_view loc s = do {
     err \<leftarrow> renderError s;
     tab \<leftarrow> tab_view loc s;
     Some (Box ([Icon ''Shield'', Txt ''Admin Dashboard''] @ map tab_button tabs @ err @ [tab])) }"

definition Admin :: "locale_fns \<Rightarrow> (ad_event, ad_state) component" where
  "Admin loc = \<lparr>initial = ad_initial, handle = ad_handle, after_commit = ad_commit,
     cleanup = ad_cleanup, view = ad_view loc, external = \<lambda>_. False\<rparr>"

lemma Admin_simps [simp]:
  "initial (Admin loc) = ad_initial" "handle (Admin loc) = ad_handle" "after_commit (Admin loc) = ad_commit"
  "cleanup (Admin loc) = ad_cleanup" "view (Admin loc) = ad_view loc" "external (Admin loc) e = False"
  by (simp_all add: Admin_def)

text \<open>A page raises what a tab raises.\<close>

lemma offers_lift: "offers (lift_ui f u) e \<longleftrightarrow> (\<exists>a. e = f a \<and> offers u a)"
proof (induction u)
  case (Btn b ev us)
  then show ?case by (auto simp: list_ex_iff)
next
  case (Clickable ev us)
  then show ?case by (auto simp: list_ex_iff)
next
  case (Form b ev us)
  then show ?case by (auto simp: list_ex_iff)
next
  case (Box us)
  then show ?case by (auto simp: list_ex_iff)
qed auto

section \<open>The lock of the certificates tab\<close>

definition polls_renewal :: "nat \<Rightarrow> ad_state prog \<Rightarrow> bool" where
  "polls_renewal h p \<longleftrightarrow> p = poll_renewal h"

lemma polls_renewal_poll [simp]: "polls_renewal h (poll_renewal h)" "\<exists>q. polls_renewal h q"
  by (auto simp: polls_renewal_def)

abbreviation tidy_tls :: "bool \<Rightarrow> ad_state prog \<Rightarrow> bool" where
  "tidy_tls \<equiv> tidyw ad_tlsBusy polls_renewal"

lemma fetchTLS_tidy [simp]: "tidy_tls False fetchTLS"
  by (auto simp: tls_defs api react tls_loaded_def join_part_def join_fail_def Let_def split: option.split)

lemma poll_renewal_tidy [simp]: "tidy_tls False (poll_renewal h)"
  by (auto simp: poll_renewal_def set_error_def uncaught_def api react simp del: tidyw.simps(3) split: option.split)

lemma ad_open_tab_tidy [simp]: "tidy_tls False (open_tab t)"
  by (simp add: open_tab_def ad_fetch_defs api react)

lemma ad_commit_tidy: "tidy_tls False (ad_commit old s)"
  by (simp add: ad_commit_def ad_fetch_defs api react)

lemma tls_handle_tidy: "tidy_tls False (tls_handle e s)"
  by (cases e) (auto simp: tls_defs(4-9) tls_defs(11-12) ad_fetch_defs api react)

lemma dom_handle_tidy: "tidy_tls False (dom_handle e s)"
  by (cases e) (auto simp: dom_defs ad_fetch_defs api react Let_def split: option.split)

lemma usr_handle_tidy: "tidy_tls False (usr_handle e s)"
  by (cases e) (auto simp: usr_defs ad_fetch_defs api react Let_def split: option.split)

lemma sec_handle_tidy: "tidy_tls False (sec_handle e s)"
  by (cases e) (auto simp: sec_defs ad_fetch_defs api react)

interpretation tls_lock: busy_flag "Admin loc" ad_tlsBusy polls_renewal
proof unfold_locales
  show "tidy_tls False (handle (Admin loc) ev s)" for ev s
    by (cases ev) (auto simp: tls_handle_tidy dom_handle_tidy usr_handle_tidy sec_handle_tidy)
  show "inert (cleanup (Admin loc) s)" for s by (simp add: ad_cleanup_def split: option.split)
qed (simp_all add: ad_initial_def ad_commit_tidy)

section \<open>Requests\<close>

definition admin_path :: string where
  "admin_path = ''/admin/api/v1/''"

text \<open>
  A request of the administration interface; a property \<open>password\<close> is in the body of the creation of
  a user and of a password reset, and in the settings only when the server put one there.
\<close>

definition carries_password :: "http \<Rightarrow> bool" where
  "carries_password q = (case req_body q of
     Json v \<Rightarrow> js_prop v ''password'' \<noteq> Undefined | _ \<Rightarrow> False)"

definition may_carry :: "http \<Rightarrow> bool" where
  "may_carry q \<longleftrightarrow> (req_method q, req_url q) = (''post'', admin_path @ ''users'') \<or>
     (\<exists>i. (req_method q, req_url q) = (''post'', admin_path @ ''users/'' @ i @ ''/reset-password'')) \<or>
     (req_method q, req_url q) = (''put'', admin_path @ ''settings'')"

definition ad_request_ok :: "http \<Rightarrow> bool" where
  "ad_request_ok q \<longleftrightarrow> req_base q = [] \<and> (\<exists>rest. req_url q = admin_path @ rest) \<and>
     (carries_password q \<longrightarrow> may_carry q)"

abbreviation ad_safe :: "ad_state prog \<Rightarrow> bool" where
  "ad_safe \<equiv> safe (\<lambda>_. True) ad_request_ok (\<lambda>_. True)"

lemma admin_path_split [simp]: "\<exists>rest. CHR ''/'' # CHR ''a'' # CHR ''d'' # CHR ''m'' # CHR ''i'' # CHR ''n'' # CHR ''/'' #
    CHR ''a'' # CHR ''p'' # CHR ''i'' # CHR ''/'' # CHR ''v'' # CHR ''1'' # CHR ''/'' # u = admin_path @ rest"
  by (simp add: admin_path_def)

lemma ok_no_body [simp]:
  "\<exists>rest. u = admin_path @ rest \<Longrightarrow> ad_request_ok (no_base (request m u NoBody))"
  by (simp add: ad_request_ok_def carries_password_def)

lemma ok_no_password [simp]:
  "\<exists>rest. u = admin_path @ rest \<Longrightarrow> js_prop v ''password'' = Undefined \<Longrightarrow>
   ad_request_ok (no_base (request m u (Json v)))"
  by (simp add: ad_request_ok_def carries_password_def)

lemma ok_password [simp]:
  "ad_request_ok (no_base (request ''post'' ''/admin/api/v1/users'' b))"
  "ad_request_ok (no_base (request ''put'' ''/admin/api/v1/settings'' b))"
  by (auto simp: ad_request_ok_def may_carry_def admin_path_def)

lemma ok_reset: "ad_request_ok (no_base (request ''post'' (''/admin/api/v1/users/'' @ i @ ''/reset-password'') b))"
  by (auto simp: ad_request_ok_def may_carry_def admin_path_def)

lemmas ok_reset_unfolded [simp] = ok_reset [simplified]

lemma no_password_json [simp]:
  "js_prop (domain_json f) ''password'' = Undefined" "js_prop (tls_json t) ''password'' = Undefined"
  "js_prop (without_key ''password'' v) ''password'' = Undefined"
proof -
  have "map_of (filter (\<lambda>(k', _). k' \<noteq> k) kvs) k = None" for k and kvs :: "(string \<times> jsval) list"
    by (induction kvs) auto
  then show "js_prop (without_key ''password'' v) ''password'' = Undefined" by (simp add: without_key_def)
qed (simp_all add: domain_json_def tls_json_def)

lemma fetches_safe [simp]:
  "ad_safe fetchDomains" "ad_safe fetchUsers" "ad_safe fetchSettings" "ad_safe watch_health" "ad_safe fetchTLS"
  "ad_safe (fail_with t err)" "ad_safe (set_error t p) = ad_safe p"
  by (simp_all add: ad_fetch_defs tls_defs(1-3) api react)

lemma tls_handle_safe: "ad_safe (tls_handle e s)"
  by (cases e) (auto simp: tls_defs(4-12) api react uncaught_def split: option.split)

lemma dom_handle_safe: "ad_safe (dom_handle e s)"
  by (cases e) (auto simp: dom_defs api react Let_def split: option.split)

lemma usr_handle_safe: "ad_safe (usr_handle e s)"
  by (cases e) (auto simp: usr_defs api react Let_def split: option.split)

lemma sec_handle_safe: "ad_safe (sec_handle e s)"
  by (cases e) (auto simp: sec_defs api react)

interpretation ad_discipline: disciplined "Admin loc" "\<lambda>_. True" ad_request_ok "\<lambda>_. True"
proof unfold_locales
  show "ad_safe (handle (Admin loc) ev s)" for ev s
    by (cases ev) (auto simp: tls_handle_safe dom_handle_safe usr_handle_safe sec_handle_safe)
  show "ad_safe (after_commit (Admin loc) old s)" for old s
    by (simp add: ad_commit_def open_tab_def api react)
  show "ad_safe (cleanup (Admin loc) s)" for s by (simp add: ad_cleanup_def split: option.split)
qed simp

section \<open>Commits\<close>

lemma ad_settle:
  "map_option ad_tab (rendered c) = Some (ad_tab (st c)) \<Longrightarrow> mounted c \<Longrightarrow> 0 < n \<Longrightarrow>
   settle n (Admin loc) c = c\<lparr>rendered := Some (st c)\<rparr>"
  by (subst settle_noop) (auto simp: ad_commit_def)

definition health_request :: http where
  "health_request = no_base (request ''get'' ''/admin/api/v1/health'' NoBody)"

lemma get_passes_base: "request_interceptor ck (no_base (request ''get'' u b)) = Inr (no_base (request ''get'' u b))"
  by (simp add: request_interceptor_def get_not_mutating)

lemma ad_boot: "health_request \<in> set (sent (boot (Admin loc) ck path))"
  "st (boot (Admin loc) ck path) = ad_initial\<lparr>ad_poll := Some 0\<rparr>"
  "rendered (boot (Admin loc) ck path) = Some (ad_initial\<lparr>ad_poll := Some 0\<rparr>)"
  "mounted (boot (Admin loc) ck path)" "cookie (boot (Admin loc) ck path) = ck"
proof -
  let ?c = "exec (ad_commit None ad_initial) (mount_config (Admin loc) ck path)"
  have c: "health_request \<in> set (sent ?c)" "st ?c = ad_initial\<lparr>ad_poll := Some 0\<rparr>" "mounted ?c"
      "rendered ?c = Some ad_initial" "cookie ?c = ck"
    by (simp_all add: ad_commit_def open_tab_def ad_initial_def watch_health_def poll_health_def api call_def
        mount_config_def get_passes_base health_request_def Let_def)
  have "boot (Admin loc) ck path = settle 49 (Admin loc) ?c"
    by (simp add: boot_mount commit_limit_def)
  also have "\<dots> = ?c\<lparr>rendered := Some (st ?c)\<rparr>"
    by (rule ad_settle) (simp_all only: c, simp_all add: ad_initial_def)
  finally have "boot (Admin loc) ck path = ?c\<lparr>rendered := Some (st ?c)\<rparr>" .
  with c show "health_request \<in> set (sent (boot (Admin loc) ck path))"
    "st (boot (Admin loc) ck path) = ad_initial\<lparr>ad_poll := Some 0\<rparr>"
    "rendered (boot (Admin loc) ck path) = Some (ad_initial\<lparr>ad_poll := Some 0\<rparr>)"
    "mounted (boot (Admin loc) ck path)" "cookie (boot (Admin loc) ck path) = ck"
    by simp_all
qed

section \<open>Properties\<close>

text \<open>
  C27. Every request the page ever sends goes to the administration interface, and a password is in
  the body of one only when a user is created or a password is reset; in particular saving an
  existing user never sends one.
\<close>

theorem admin_requests:
  assumes "reachable (Admin loc) c" "q \<in> set (sent c)"
  shows "req_base q = [] \<and> (\<exists>rest. req_url q = admin_path @ rest) \<and>
    (carries_password q \<longrightarrow> may_carry q) \<and>
    (req_method q = ''put'' \<and> req_url q \<noteq> admin_path @ ''settings'' \<longrightarrow> \<not> carries_password q)"
proof -
  obtain p ck where p: "ad_request_ok p" "request_interceptor ck p = Inr q"
    using ad_discipline.requests [OF assms] by blast
  note same = request_interceptor_same [OF p(2)]
  have "carries_password q = carries_password p" "may_carry q = may_carry p"
    by (simp_all add: carries_password_def may_carry_def same)
  with p(1) same show ?thesis by (auto simp: ad_request_ok_def may_carry_def)
qed

theorem admin_requests_witness:
  "\<exists>q \<in> set (sent (boot (Admin plain_locale) [] ''/admin'')). req_base q = [] \<and> \<not> carries_password q"
proof -
  have "reachable (Admin plain_locale) (boot (Admin plain_locale) [] ''/admin'')" by (rule reachable.start)
  from admin_requests [OF this ad_boot(1)] have "req_base health_request = []" by blast
  moreover have "\<not> carries_password health_request" by (simp add: carries_password_def health_request_def)
  ultimately show ?thesis using ad_boot(1) by blast
qed

end
