(* ===== verification/Admin_Flows.thy ===== *)
theory Admin_Flows imports Admin begin

text \<open>
  What the actions of the administration page achieve: saving a user, editing the settings, loading
  the certificates tab with its \<open>Promise.all\<close>, and the polling of a forced renewal.
\<close>

section \<open>The certificates tab loads as one\<close>

text \<open>
  The result of the \<open>i\<close>-th request of \<open>fetchTLS\<close>, a value or an error, and what its arrival does.
\<close>

definition tls_result :: "nat \<Rightarrow> reply \<Rightarrow> jsval + jsval" where
  "tls_result i r = (case r of
     Rejected e \<Rightarrow> Inl e
   | Resolved res \<Rightarrow> (case ([res_field ''status'', res_or ''providers'' (JArr []), res_field ''config'',
         res_or ''domains'' (JArr [])] ! i) res of Some v \<Rightarrow> Inr v | None \<Rightarrow> Inl type_error))"

definition tls_arrival :: "nat \<Rightarrow> nat \<times> (jsval + jsval) \<Rightarrow> ad_state \<Rightarrow> ad_state" where
  "tls_arrival j = (\<lambda>(i, x). case x of Inr v \<Rightarrow> join_part j i v | Inl e \<Rightarrow> join_fail j e)"

text \<open>
  The specification of \<open>Promise.all\<close> on results listed in the order they arrive: the first failure, or
  the values in the order of the requests.
\<close>

definition promise_all :: "(nat \<times> (jsval + jsval)) list \<Rightarrow> jsval + jsval list" where
  "promise_all xs = (case filter (isl \<circ> snd) xs of
     (_, x) # _ \<Rightarrow> Inl (projl x)
   | [] \<Rightarrow> Inr (map (\<lambda>i. projr (the (map_of xs i))) [0..<4]))"

definition tls_settled :: "nat \<Rightarrow> jsval + jsval list \<Rightarrow> ad_state \<Rightarrow> ad_state" where
  "tls_settled j x s = (case x of
     Inr vs \<Rightarrow> (tls_loaded (vs ! 0) (vs ! 1) (vs ! 2) (vs ! 3) s)
       \<lparr>ad_joins := (ad_joins s)[j := []], ad_loading := False\<rparr>
   | Inl e \<Rightarrow> s\<lparr>ad_joins := (ad_joins s)[j := []],
       ad_error := err_text e (JStr ''Failed to load TLS settings''), ad_loading := False\<rparr>)"

lemma join_settled: "j < length (ad_joins s) \<Longrightarrow> ad_joins s ! j = [] \<Longrightarrow> fold (tls_arrival j) xs s = s"
  by (induction xs) (auto simp: tls_arrival_def join_part_def join_fail_def split: sum.split)

lemma tls_loaded_joins [simp]:
  "tls_loaded a b c d (s\<lparr>ad_joins := js\<rparr>) = (tls_loaded a b c d s)\<lparr>ad_joins := js\<rparr>"
  by (simp add: tls_loaded_def Let_def)

lemma tls_settled_joins [simp]:
  "tls_settled j x (s\<lparr>ad_joins := (ad_joins s)[j := ps]\<rparr>) = tls_settled j x s"
  by (auto simp: tls_settled_def split: sum.split)

text \<open>The parts collected so far, completed by what is still to come.\<close>

definition completed :: "jsval option list \<Rightarrow> (nat \<times> (jsval + jsval)) list \<Rightarrow> jsval + jsval list" where
  "completed ps xs = (case filter (isl \<circ> snd) xs of
     (_, x) # _ \<Rightarrow> Inl (projl x)
   | [] \<Rightarrow> Inr (map (\<lambda>i. case ps ! i of Some v \<Rightarrow> v | None \<Rightarrow> projr (the (map_of xs i))) [0..<length ps]))"

lemma completed_value:
  assumes "i < length ps" "ps ! i = None" "i \<notin> fst ` set xs"
  shows "completed ps ((i, Inr v) # xs) = completed (ps[i := Some v]) xs"
proof -
  have "map_of xs i = None" using assms(3) by (simp add: map_of_eq_None_iff)
  then show ?thesis using assms(1,2)
    by (auto simp: completed_def nth_list_update split: list.split option.split)
qed

lemma join_arrivals:
  assumes "j < length (ad_joins s)" "ad_joins s ! j = ps" "distinct (map fst xs)" "xs \<noteq> []"
    "fst ` set xs = {i. i < length ps \<and> ps ! i = None}"
  shows "fold (tls_arrival j) xs s = tls_settled j (completed ps xs) s"
  using assms
proof (induction xs arbitrary: ps s)
  case (Cons a xs)
  obtain i x where a: "a = (i, x)" by force
  with Cons.prems have i: "i < length ps" "ps ! i = None" "i \<notin> fst ` set xs" by auto
  then have ne: "ps \<noteq> []" by auto
  show ?case
  proof (cases x)
    case (Inl e)
    let ?s = "s\<lparr>ad_joins := (ad_joins s)[j := []],
        ad_error := err_text e (JStr ''Failed to load TLS settings''), ad_loading := False\<rparr>"
    have "tls_arrival j a s = ?s" using Cons.prems(1,2) a ne Inl by (simp add: tls_arrival_def join_fail_def)
    moreover have "fold (tls_arrival j) xs ?s = ?s" by (rule join_settled) (use Cons.prems(1) in simp_all)
    ultimately show ?thesis using a Inl by (simp add: completed_def tls_settled_def)
  next
    case (Inr v)
    let ?ps = "ps[i := Some v]"
    have rest: "fst ` set xs = {i. i < length ?ps \<and> ?ps ! i = None}"
      using Cons.prems(5) i a by (auto simp: nth_list_update split: if_splits)
    show ?thesis
    proof (cases "xs = []")
      case True
      with rest have "\<forall>k < length ?ps. ?ps ! k \<noteq> None" by auto
      then have "?ps = map Some (map the ?ps)" by (intro nth_equalityI) auto
      then have "sequence ?ps = Some (map the ?ps)" by (simp only: sequence_eq_Some)
      moreover have "completed ps [(i, Inr v)] = Inr (map the ?ps)"
      proof -
        have "map (\<lambda>k. case ?ps ! k of Some v \<Rightarrow> v | None \<Rightarrow> projr (the (map_of ([] :: (nat \<times> (jsval + jsval)) list) k)))
            [0..<length ?ps] = map the ?ps"
          using \<open>\<forall>k < length ?ps. ?ps ! k \<noteq> None\<close> by (intro nth_equalityI) (auto split: option.split)
        then have "completed ?ps [] = Inr (map the ?ps)" by (simp only: completed_def filter.simps list.case)
        then show ?thesis using completed_value [of i ps "[]" v] i by simp
      qed
      ultimately show ?thesis using Cons.prems(1,2) a Inr True ne
        by (simp add: tls_arrival_def join_part_def tls_settled_def Let_def)
    next
      case False
      then obtain k where k: "k < length ?ps" "?ps ! k = None" using rest by (cases xs) auto
      have "sequence ?ps = None"
      proof (rule ccontr)
        assume "sequence ?ps \<noteq> None"
        then obtain ys where "?ps = map Some ys" by (auto simp: sequence_eq_Some)
        with k show False by (metis length_map nth_map option.distinct(1))
      qed
      then have "tls_arrival j a s = s\<lparr>ad_joins := (ad_joins s)[j := ?ps]\<rparr>" using Cons.prems(1,2) a Inr ne
        by (simp add: tls_arrival_def join_part_def Let_def)
      moreover have "fold (tls_arrival j) xs (s\<lparr>ad_joins := (ad_joins s)[j := ?ps]\<rparr>) =
          tls_settled j (completed ?ps xs) (s\<lparr>ad_joins := (ad_joins s)[j := ?ps]\<rparr>)"
        by (rule Cons.IH) (use Cons.prems False rest in auto)
      ultimately show ?thesis using completed_value [OF i] a Inr by simp
    qed
  qed
qed simp

text \<open>The four requests and their continuations.\<close>

lemma part_requests:
  "exec (part_of j 0 getTLSStatus) c = c\<lparr>pend := pend c @
      [(Wire (no_base (request ''get'' ''/admin/api/v1/tls/status'' NoBody)), \<lambda>r. SetSt (tls_arrival j (0, tls_result 0 r)) Done)],
      sent := sent c @ [no_base (request ''get'' ''/admin/api/v1/tls/status'' NoBody)]\<rparr>"
  "exec (part_of j 1 getTLSProviders) c = c\<lparr>pend := pend c @
      [(Wire (no_base (request ''get'' ''/admin/api/v1/tls/providers'' NoBody)), \<lambda>r. SetSt (tls_arrival j (1, tls_result 1 r)) Done)],
      sent := sent c @ [no_base (request ''get'' ''/admin/api/v1/tls/providers'' NoBody)]\<rparr>"
  "exec (part_of j 2 getTLSConfig) c = c\<lparr>pend := pend c @
      [(Wire (no_base (request ''get'' ''/admin/api/v1/tls/config'' NoBody)), \<lambda>r. SetSt (tls_arrival j (2, tls_result 2 r)) Done)],
      sent := sent c @ [no_base (request ''get'' ''/admin/api/v1/tls/config'' NoBody)]\<rparr>"
  "exec (part_of j 3 getTLSDomains) c = c\<lparr>pend := pend c @
      [(Wire (no_base (request ''get'' ''/admin/api/v1/tls/domains'' NoBody)), \<lambda>r. SetSt (tls_arrival j (3, tls_result 3 r)) Done)],
      sent := sent c @ [no_base (request ''get'' ''/admin/api/v1/tls/domains'' NoBody)]\<rparr>"
  by (simp_all add: part_of_def api call_def get_passes_base tls_arrival_def tls_result_def fun_eq_iff
      split: reply.split option.split)

definition tls_requests :: "http list" where
  "tls_requests = map (\<lambda>u. no_base (request ''get'' (''/admin/api/v1/tls/'' @ u) NoBody))
     [''status'', ''providers'', ''config'', ''domains'']"

lemma fetchTLS_exec:
  assumes "mounted c"
  shows "exec fetchTLS c = c\<lparr>st := (st c)\<lparr>ad_loading := True, ad_joins := ad_joins (st c) @ [[None, None, None, None]]\<rparr>,
    pend := pend c @ zip (map Wire tls_requests)
      (map (\<lambda>i r. SetSt (tls_arrival (length (ad_joins (st c))) (i, tls_result i r)) Done) [0, 1, 2, 3]),
    sent := sent c @ tls_requests\<rparr>"
  using assms by (simp add: fetchTLS_def fetch_all_def part_requests [simplified] tls_requests_def)

text \<open>
  C29. Opening the certificates tab sends its four requests at once, and their answers act on the page
  as \<open>Promise.all\<close> does: in whatever order they arrive, nothing is shown until the last one, which
  shows all four results together, each in its place whatever its time of arrival; or the first
  failure shows its message and whatever arrives later is ignored. Either way the spinner goes
  away, once.
\<close>

theorem admin_tls_join:
  assumes "mounted c" "distinct (map fst xs)" "fst ` set xs = {0..<4}"
  defines "c' \<equiv> exec fetchTLS c" and "j \<equiv> length (ad_joins (st c))"
  shows "sent c' = sent c @ tls_requests \<and> ad_loading (st c') \<and>
    map snd (pend c') = map snd (pend c) @ map (\<lambda>i r. SetSt (tls_arrival j (i, tls_result i r)) Done) [0..<4] \<and>
    fold (tls_arrival j) xs (st c') = tls_settled j (promise_all xs) (st c')"
proof -
  let ?ps = "[None, None, None, None] :: jsval option list"
  have four: "[0..<4] = [0, 1, 2, 3 :: nat]" by (simp add: upt_rec)
  have "xs \<noteq> []" using assms(3) by auto
  moreover have "{i. i < length ?ps \<and> ?ps ! i = None} = {0..<4}"
    by (auto simp: less_Suc_eq nth_Cons' numeral_eq_Suc)
  ultimately have "fold (tls_arrival j) xs (st c') = tls_settled j (completed ?ps xs) (st c')"
    using assms by (intro join_arrivals) (simp_all add: fetchTLS_exec)
  moreover have "completed ?ps xs = promise_all xs"
  proof -
    have "[0..<length ?ps] = [0..<4]" by (simp add: four)
    then have "map (\<lambda>i. case ?ps ! i of Some v \<Rightarrow> v | None \<Rightarrow> projr (the (map_of xs i))) [0..<length ?ps] =
        map (\<lambda>i. projr (the (map_of xs i))) [0..<4]" by (simp only: four) simp
    then show ?thesis by (simp only: completed_def promise_all_def)
  qed
  moreover have "sent c' = sent c @ tls_requests \<and> ad_loading (st c') \<and>
    map snd (pend c') = map snd (pend c) @ map (\<lambda>i r. SetSt (tls_arrival j (i, tls_result i r)) Done) [0..<4]"
    unfolding assms(4,5) fetchTLS_exec [OF assms(1)] four by (simp add: tls_requests_def)
  ultimately show ?thesis by simp
qed

section \<open>Saving a user\<close>

definition save_user_request :: "ad_state \<Rightarrow> http" where
  "save_user_request s = no_base
     (if ad_userModal s = JStr ''new''
      then request ''post'' ''/admin/api/v1/users'' (Json (user_json (ad_userForm s)))
      else request ''put'' (''/admin/api/v1/users/'' @ js_string (ad_userModal s))
        (Json (without_key ''password'' (user_json (ad_userForm s)))))"

definition users_request :: http where
  "users_request = no_base (request ''get'' ''/admin/api/v1/users?limit=20&offset=0'' NoBody)"

lemma users_request_url [simp]: "''/admin/api/v1/users?limit='' @ js_string (JNum 20) @ ''&offset='' @ js_string (JNum 0) =
    ''/admin/api/v1/users?limit=20&offset=0''"
  by code_simp

definition save_user_answer :: "reply \<Rightarrow> ad_state prog" where
  "save_user_answer r = (case r of
     Resolved res \<Rightarrow> (case res_data res of
       Some _ \<Rightarrow> SetSt (ad_userModal_update (\<lambda>_. Null)) fetchUsers
     | None \<Rightarrow> fail_with ''Failed to save user'' type_error)
   | Rejected err \<Rightarrow> fail_with ''Failed to save user'' err)"

lemma saveUser_shape:
  "saveUser s = SetSt (ad_error_update (\<lambda>_. JStr [])) (Request (save_user_request s) (save_user_answer))"
  by (simp add: saveUser_def set_error_def save_user_request_def save_user_answer_def api call_def Let_def fun_eq_iff
      split: option.split reply.split)

text \<open>
  C30. Saving the form of a user sends one request: the whole form as a new user, or, for an existing
  one, email, display name and role without any password. When the server accepts it the form
  closes and the list is fetched again; on any failure the form stays open as it is, with a
  message.
\<close>

theorem admin_save_user:
  assumes "rendered c = Some (st c)" "cookie_ok (cookie c)"
    and "run (Admin loc) c [UserDo (Usr UsrSave), Answer (length (pend c)) r] = Some c'"
  defines "f \<equiv> ad_userForm (st c)"
  defines "q \<equiv> (if ad_userModal (st c) = JStr ''new''
      then (''post'', ''/admin/api/v1/users'', Json (JObj [(''email'', uf_email f), (''password'', uf_password f),
        (''display_name'', uf_name f), (''is_super_admin'', uf_admin f)]))
      else (''put'', ''/admin/api/v1/users/'' @ js_string (ad_userModal (st c)), Json (JObj [(''email'', uf_email f),
        (''display_name'', uf_name f), (''is_super_admin'', uf_admin f)])))"
  shows "case r of
      Resolved res \<Rightarrow>
        (if nullish res then map wire (sent c') = map wire (sent c) @ [q] \<and>
           truthy (ad_error (st c')) \<and> (st c')\<lparr>ad_error := ad_error (st c)\<rparr> = st c
         else map wire (sent c') = map wire (sent c) @ [q, wire users_request] \<and>
           (st c')\<lparr>ad_error := ad_error (st c), ad_loading := ad_loading (st c)\<rparr> =
             (st c)\<lparr>ad_userModal := Null\<rparr>)
    | Rejected _ \<Rightarrow> map wire (sent c') = map wire (sent c) @ [q] \<and>
        truthy (ad_error (st c')) \<and> (st c')\<lparr>ad_error := ad_error (st c)\<rparr> = st c"
proof -
  have h: "handle (Admin loc) (Usr UsrSave) (st c) =
      SetSt (ad_error_update (\<lambda>_. JStr [])) (Request (save_user_request (st c)) save_user_answer)"
    by (simp add: saveUser_shape)
  have q: "wire (save_user_request (st c)) = q"
    by (simp add: save_user_request_def q_def f_def wire_def user_json_def without_key_def)
  have "after_commit (Admin loc) (rendered c) ((st c)\<lparr>ad_error := JStr []\<rparr>) = Fork Done Done"
    using assms(1) by (simp add: ad_commit_def)
  then have quiet: "settle commit_limit (Admin loc) d = d\<lparr>rendered := Some (st d)\<rparr>"
    if "mounted d" "rendered d = rendered c" "st d = (st c)\<lparr>ad_error := JStr []\<rparr>" for d
    using that assms(1) by (intro ad_settle) simp_all
  let ?e = "effects c @ response_interceptor (pathname c) r"
  let ?d = "c\<lparr>st := (st c)\<lparr>ad_error := JStr []\<rparr>, sent := sent c @ [signed (cookie c) (save_user_request (st c))],
    rendered := Some ((st c)\<lparr>ad_error := JStr []\<rparr>), effects := ?e\<rparr>"
  have c': "c' = settle commit_limit (Admin loc) (exec (save_user_answer r) ?d)" "mounted c"
    using update_ask_settle [OF h _ assms(3), unfolded interceptor_signed [OF assms(2)] sum.case] quiet
    by blast+
  show ?thesis
  proof (cases "\<exists>res. r = Resolved res \<and> \<not> nullish res")
    case True
    then obtain res where r: "r = Resolved res" "\<not> nullish res" by blast
    then have "save_user_answer r = SetSt (ad_userModal_update (\<lambda>_. Null)) fetchUsers"
      by (simp add: save_user_answer_def res_data_def js_get_def)
    then have "sent c' = sent c @ [signed (cookie c) (save_user_request (st c)), users_request] \<and>
        st c' = (st c)\<lparr>ad_error := JStr [], ad_userModal := Null, ad_loading := True\<rparr>"
      using c' by (simp add: fetchUsers_def getAdminUsers_def call_def get_passes_base users_request_def ad_settle
        del: append.simps js_string.simps)
    with r q show ?thesis by simp
  next
    case False
    then obtain e where "save_user_answer r = fail_with ''Failed to save user'' e"
      by (cases r) (auto simp: save_user_answer_def res_data_def js_get_def)
    then have "sent c' = sent c @ [signed (cookie c) (save_user_request (st c))] \<and>
        st c' = (st c)\<lparr>ad_error := err_text e (JStr ''Failed to save user'')\<rparr>"
      using c' by (simp add: fail_with_def ad_settle)
    with False q show ?thesis by (cases r) (auto simp: truthy_err_text)
  qed
qed

section \<open>Editing the settings\<close>

definition edit_settings :: "(string \<times> string) list \<Rightarrow> ad_event input list" where
  "edit_settings edits = map (\<lambda>(k, v). UserDo (Sec (SecSetting k v))) edits"

definition edited :: "(string \<times> string) list \<Rightarrow> (string \<times> jsval) list \<Rightarrow> (string \<times> jsval) list" where
  "edited edits kvs = fold (\<lambda>(k, v). assoc_set k (JStr v)) edits kvs"

lemma edited_values: "map_of (edited edits kvs) = map_of kvs ++ (map_option JStr \<circ> map_of (rev edits))"
  by (induction edits arbitrary: kvs)
    (auto simp: edited_def fun_eq_iff map_add_def split: option.splits)

lemma run_append: "run C c (xs @ ys) = do { c' \<leftarrow> run C c xs; run C c' ys }"
  by (induction xs arbitrary: c) (auto split: option.split)

lemma run_edits:
  assumes "rendered c = Some (st c)" "ad_settingsForm (st c) = JObj kvs"
    "run (Admin loc) c (edit_settings edits) = Some c'"
  shows "rendered c' = Some (st c') \<and> ad_settingsForm (st c') = JObj (edited edits kvs) \<and>
    sent c' = sent c \<and> cookie c' = cookie c"
  using assms
proof (induction edits arbitrary: c kvs)
  case Nil
  then show ?case by (simp add: edit_settings_def edited_def)
next
  case (Cons e edits)
  obtain k v where e: "e = (k, v)" by force
  let ?s = "(st c)\<lparr>ad_settingsForm := JObj (assoc_set k (JStr v) kvs)\<rparr>"
  have "run (Admin loc) (c\<lparr>st := ?s, rendered := Some ?s\<rparr>) (edit_settings edits) = Some c'"
    using Cons.prems e
    by (auto simp: edit_settings_def handleSettingChange_def js_spread_set_def ad_settle split: if_splits)
  from Cons.IH [OF _ _ this] show ?case by (simp add: edited_def e)
qed

definition settings_request :: http where
  "settings_request = no_base (request ''get'' ''/admin/api/v1/settings'' NoBody)"

definition settings_answer :: "reply \<Rightarrow> ad_state prog" where
  "settings_answer r = (case r of
     Resolved res \<Rightarrow> (case res_or ''settings'' (JObj []) res of
       Some data \<Rightarrow> SetSt (ad_settings_update (\<lambda>_. data)) (SetSt (ad_settingsForm_update (\<lambda>_. data)) Done)
     | None \<Rightarrow> fail_with ''Failed to load settings'' type_error)
   | Rejected err \<Rightarrow> fail_with ''Failed to load settings'' err)"

lemma fetchSettings_shape: "fetchSettings = Request settings_request settings_answer"
  by (simp add: fetchSettings_def settings_request_def settings_answer_def api call_def fun_eq_iff)

lemma open_tab_commit:
  assumes "mounted c" "rendered c = Some (st c)" "ad_tab (st c) \<noteq> t"
  defines "s \<equiv> (st c)\<lparr>ad_tab := t, ad_error := JStr []\<rparr>"
  shows "settle commit_limit (Admin loc) (exec (ad_handle (AdTab t) (st c)) c) =
    settle 49 (Admin loc) (exec (open_tab t) (c\<lparr>st := s, rendered := Some s\<rparr>))"
proof -
  have "ad_tab s \<noteq> ad_tab (st c)" using assms(3) by (simp add: s_def)
  then have "s \<noteq> st c" by blast
  moreover have n: "commit_limit = Suc 49" by (simp add: commit_limit_def)
  ultimately have "settle commit_limit (Admin loc) (c\<lparr>st := s\<rparr>) =
      settle 49 (Admin loc) (exec (ad_commit (Some (st c)) s) (c\<lparr>st := s, rendered := Some s\<rparr>))"
    using assms(1,2) unfolding n by (subst settle.simps(2)) simp
  also have "ad_commit (Some (st c)) s = Fork Done (open_tab t)"
    using assms(3) by (simp add: ad_commit_def s_def)
  finally show ?thesis using assms(1) by (simp add: s_def)
qed

lemma open_security:
  assumes "mounted c" "rendered c = Some (st c)" "ad_tab (st c) \<noteq> ''security''"
  defines "s \<equiv> (st c)\<lparr>ad_tab := ''security'', ad_error := JStr []\<rparr>"
  shows "settle commit_limit (Admin loc) (exec (ad_handle (AdTab ''security'') (st c)) c) =
    c\<lparr>st := s, rendered := Some s, pend := pend c @ [(Wire settings_request, settings_answer)],
      sent := sent c @ [settings_request]\<rparr>"
  unfolding open_tab_commit [OF assms(1-3)] s_def
  using assms(1) by (simp add: open_tab_def fetchSettings_shape settings_request_def get_passes_base settle_settled)

text \<open>
  C31. The settings make the round trip: opening the security tab, loading the settings, editing any
  of them any number of times and saving sends back one object, in which every key has the last
  text typed for it, or, when it was not edited, exactly the value the server sent, of whatever
  type.
\<close>

theorem admin_settings_roundtrip:
  assumes "rendered c = Some (st c)" "cookie_ok (cookie c)" "ad_tab (st c) \<noteq> ''security''"
    and "res_or ''settings'' (JObj []) res = Some (JObj kvs)"
    and "run (Admin loc) c ([UserDo (AdTab ''security''), Answer (length (pend c)) (Resolved res)] @
      edit_settings edits @ [UserDo (Sec SecSave)]) = Some c'"
  shows "\<exists>body. map wire (sent c') = map wire (sent c) @
      [(''get'', ''/admin/api/v1/settings'', NoBody), (''put'', ''/admin/api/v1/settings'', Json (JObj body))] \<and>
    (\<forall>k. map_of body k = (case map_of (rev edits) k of Some v \<Rightarrow> Some (JStr v) | None \<Rightarrow> map_of kvs k))"
proof -
  obtain c1 where c1: "run (Admin loc) c [UserDo (AdTab ''security''), Answer (length (pend c)) (Resolved res)] = Some c1"
      and rest: "run (Admin loc) c1 (edit_settings edits @ [UserDo (Sec SecSave)]) = Some c'"
    using assms(5) unfolding run_append by (auto simp: bind_Some_iff)
  obtain c2 where c2: "run (Admin loc) c1 (edit_settings edits) = Some c2"
      "run (Admin loc) c2 [UserDo (Sec SecSave)] = Some c'"
    using rest unfolding run_append by (auto simp: bind_Some_iff)
  have 1: "rendered c1 = Some (st c1)" "ad_settingsForm (st c1) = JObj kvs" "cookie c1 = cookie c"
      "map wire (sent c1) = map wire (sent c) @ [(''get'', ''/admin/api/v1/settings'', NoBody)]"
  proof -
    let ?s = "(st c)\<lparr>ad_tab := ''security'', ad_error := JStr []\<rparr>"
    let ?s1 = "?s\<lparr>ad_settings := JObj kvs, ad_settingsForm := JObj kvs\<rparr>"
    let ?e = "effects c @ response_interceptor (pathname c) (Resolved res)"
    have m: "mounted c" using c1 by (auto split: if_splits)
    have "c1 = c\<lparr>st := ?s1, rendered := Some ?s1, sent := sent c @ [settings_request], effects := ?e\<rparr>"
      using c1 m open_security [OF m assms(1,3)] assms(4)
      by (auto simp: answer_def remove_nth_def nth_append settings_answer_def ad_settle split: if_splits)
    then show "rendered c1 = Some (st c1)" "ad_settingsForm (st c1) = JObj kvs" "cookie c1 = cookie c"
      "map wire (sent c1) = map wire (sent c) @ [(''get'', ''/admin/api/v1/settings'', NoBody)]"
      by (simp_all add: settings_request_def wire_def)
  qed
  have 2: "rendered c2 = Some (st c2)" "ad_settingsForm (st c2) = JObj (edited edits kvs)" "sent c2 = sent c1"
      "cookie c2 = cookie c"
    using run_edits [OF 1(1,2) c2(1)] 1(3) by simp_all
  then have "map wire (sent c') = map wire (sent c2) @ [(''put'', ''/admin/api/v1/settings'', Json (JObj (edited edits kvs)))]"
    using c2(2) assms(2)
    by (auto simp: saveSettings_def set_error_def api call_def interceptor_signed ad_settle wire_def [of "no_base q" for q]
        split: if_splits)
  with 1(4) 2(3) show ?thesis
    by (intro exI [of _ "edited edits kvs"]) (auto simp: edited_values map_add_def split: option.split)
qed

section \<open>A forced renewal\<close>

text \<open>The status an answer to the poll carries, if it carries one.\<close>

definition renewal_status :: "reply \<Rightarrow> jsval option" where
  "renewal_status r = (case r of
     Resolved res \<Rightarrow> (case res_data res of Some v \<Rightarrow> if nullish v then None else Some v | None \<Rightarrow> None)
   | Rejected _ \<Rightarrow> None)"

definition renewal_request :: http where
  "renewal_request = no_base (request ''get'' ''/admin/api/v1/tls/renew/status'' NoBody)"

definition poll_answer :: "nat \<Rightarrow> reply \<Rightarrow> ad_state prog" where
  "poll_answer h r = (case renewal_status r of
     Some v \<Rightarrow> (if truthy (js_prop v ''renewing'') then Done
       else ClearTimer h (SetSt (ad_tlsBusy_update (\<lambda>_. False))
         (if truthy (js_prop v ''last_error'')
          then SetSt (ad_error_update (\<lambda>_. js_prop v ''last_error'')) Done
          else set_error ''Certificate renewed'' fetchTLS)))
   | None \<Rightarrow> uncaught (case r of Rejected e \<Rightarrow> e | Resolved _ \<Rightarrow> type_error))"

lemma poll_renewal_shape: "poll_renewal h = Request renewal_request (poll_answer h)"
  by (auto simp: poll_renewal_def renewal_request_def poll_answer_def renewal_status_def js_get_def api call_def
      fun_eq_iff split: option.split reply.split)

text \<open>
  C32. One round of the polling of a renewal. While the server says the renewal is running, or gives no
  answer, the page keeps its lock and the interval. When it says the renewal has ended, the lock is
  released, the interval is gone, and the page shows the error the server reports, or says that
  the certificate is renewed and loads the tab again.
\<close>

theorem admin_renewal:
  assumes "rendered c = Some (st c)" "mounted c" "map_of (timers c) h = Some (True, poll_renewal h)"
    and "run (Admin loc) c [TimerDue h, Answer (length (pend c)) r] = Some c'"
  shows "case renewal_status r of
      None \<Rightarrow> st c' = st c \<and> timers c' = timers c \<and> sent c' = sent c @ [renewal_request]
    | Some v \<Rightarrow>
        if truthy (js_prop v ''renewing'')
        then st c' = st c \<and> timers c' = timers c \<and> sent c' = sent c @ [renewal_request]
        else \<not> ad_tlsBusy (st c') \<and> timers c' = filter (\<lambda>t. fst t \<noteq> h) (timers c) \<and>
          (if truthy (js_prop v ''last_error'')
           then ad_error (st c') = js_prop v ''last_error'' \<and> sent c' = sent c @ [renewal_request]
           else ad_error (st c') = JStr ''Certificate renewed'' \<and> ad_loading (st c') \<and>
             sent c' = sent c @ [renewal_request] @ tls_requests)"
proof -
  have c': "c' = settle commit_limit (Admin loc) (exec (poll_answer h r)
      (c\<lparr>sent := sent c @ [renewal_request], effects := effects c @ response_interceptor (pathname c) r\<rparr>))"
    using assms
    by (auto simp: timer_due_def poll_renewal_shape renewal_request_def get_passes_base settle_settled answer_def
        remove_nth_def nth_append split: if_splits)
  show ?thesis
  proof (cases "renewal_status r")
    case None
    then show ?thesis using assms(1,2) c' by (simp add: poll_answer_def uncaught_def settle_settled)
  next
    case (Some v)
    then show ?thesis using assms(1,2) c'
      by (simp add: poll_answer_def set_error_def fetchTLS_exec ad_settle settle_settled)
  qed
qed

section \<open>Examples\<close>

text \<open>A page that was last committed in the state \<open>s\<close>.\<close>

definition ad_page :: "ad_state \<Rightarrow> ad_state config" where
  "ad_page s = (mount_config (Admin plain_locale) [] ''/admin'')\<lparr>st := s, rendered := Some s\<rparr>"

lemma ad_page_simps [simp]:
  "st (ad_page s) = s" "rendered (ad_page s) = Some s" "mounted (ad_page s)" "pend (ad_page s) = []"
  "timers (ad_page s) = []" "sent (ad_page s) = []" "cookie (ad_page s) = []"
  by (simp_all add: ad_page_def mount_config_def)

lemma tab_offered: "ad_view loc s \<noteq> None \<Longrightarrow> (t, l, i) \<in> set tabs \<Longrightarrow> enabled (Admin loc) s (AdTab t)"
  by (force simp: enabled_def ad_view_def bind_Some_iff list_ex_iff tab_button_def)

lemma overview_shows:
  "ad_tab s = ''overview'' \<Longrightarrow> ad_health s = Null \<Longrightarrow> ad_error s = JStr [] \<Longrightarrow> ad_view loc s \<noteq> None"
  by (simp add: ad_view_def renderError_def tab_view_def overview_view_def text_child_def js_coalesce_def Let_def)

lemma security_shows:
  "ad_tab s = ''security'' \<Longrightarrow> \<not> nullish (ad_settingsForm s) \<Longrightarrow> ad_error s = JStr [] \<Longrightarrow>
   enabled (Admin loc) s (Sec e) \<longleftrightarrow> offers (the (sec_view s)) e"
  by (auto simp: enabled_def ad_view_def renderError_def tab_view_def sec_view_def offers_lift list_ex_iff tab_button_def)

lemma security_offers:
  assumes "ad_tab s = ''security''" "\<not> nullish (ad_settingsForm s)" "ad_error s = JStr []"
  shows "enabled (Admin loc) s (Sec (SecSetting ''session_timeout_minutes'' v))" "enabled (Admin loc) s (Sec SecSave)"
  unfolding security_shows [OF assms] using assms(2) by (simp_all add: sec_view_def setting_input_def)

theorem admin_renewal_witness:
  "let s = ad_initial\<lparr>ad_tab := ''tls'', ad_tlsBusy := True\<rparr>;
       c = (ad_page s)\<lparr>timers := [(0, True, poll_renewal 0)], next_timer := 1\<rparr>
   in \<exists>c'. run (Admin plain_locale) c [TimerDue 0, Answer 0 (Resolved (JObj [(''data'', JObj [(''renewing'', JBool False)])]))] = Some c' \<and>
      \<not> ad_tlsBusy (st c') \<and> timers c' = [] \<and> ad_error (st c') = JStr ''Certificate renewed''"
proof -
  let ?s = "ad_initial\<lparr>ad_tab := ''tls'', ad_tlsBusy := True\<rparr>"
  let ?c = "(ad_page ?s)\<lparr>timers := [(0, True, poll_renewal 0)], next_timer := 1\<rparr>"
  let ?r = "Resolved (JObj [(''data'', JObj [(''renewing'', JBool False)])])"
  obtain c' where c': "run (Admin plain_locale) ?c [TimerDue 0, Answer 0 ?r] = Some c'"
    by (simp add: timer_due_def poll_renewal_shape renewal_request_def get_passes_base settle_settled)
  have "renewal_status ?r = Some (JObj [(''renewing'', JBool False)])"
    by (simp add: renewal_status_def res_data_def)
  with admin_renewal [of ?c 0 plain_locale ?r c'] c' show ?thesis by auto
qed

theorem admin_tls_join_witness:
  "let c = ad_page ad_initial; e = JObj [(''message'', JStr ''Network Error'')];
       c' = exec fetchTLS c
   in st (exec fetchTLS c) \<noteq> st c \<and>
      fold (tls_arrival 0) [(2, Inr (JObj [])), (3, Inl e), (0, Inr Null), (1, Inl Null)] (st c') = tls_settled 0 (Inl e) (st c')"
proof -
  let ?e = "JObj [(''message'', JStr ''Network Error'')]"
  let ?xs = "[(2, Inr (JObj [])), (3, Inl ?e), (0, Inr Null), (1, Inl Null)] :: (nat \<times> (jsval + jsval)) list"
  have "fst ` set ?xs = {0..<4}" by auto
  from admin_tls_join [of "ad_page ad_initial" ?xs, OF _ _ this]
  have "fold (tls_arrival 0) ?xs (st (exec fetchTLS (ad_page ad_initial))) =
      tls_settled 0 (promise_all ?xs) (st (exec fetchTLS (ad_page ad_initial)))"
    by (simp add: ad_initial_def)
  moreover have "promise_all ?xs = Inl ?e" by (simp add: promise_all_def)
  moreover have "st (exec fetchTLS (ad_page ad_initial)) \<noteq> st (ad_page ad_initial)"
    by (simp add: fetchTLS_exec ad_initial_def)
  ultimately show ?thesis unfolding Let_def by metis
qed

definition new_user_page :: ad_state where
  "new_user_page = ad_initial\<lparr>ad_tab := ''users'', ad_loading := False, ad_userModal := JStr ''new'',
     ad_userForm := \<lparr>uf_email = JStr ''a@b.c'', uf_password = JStr ''hunter2'', uf_name = JStr [], uf_admin = JBool False\<rparr>\<rparr>"

lemma new_user_offers: "enabled (Admin plain_locale) new_user_page (Usr UsrSave)"
  by (simp add: enabled_def ad_view_def renderError_def tab_view_def new_user_page_def ad_initial_def usr_view_def
      usr_list_def usr_modal_def shown_def Let_def)

theorem admin_save_user_witness:
  "\<exists>c'. run (Admin plain_locale) (ad_page new_user_page)
      [UserDo (Usr UsrSave), Answer 0 (Resolved (JObj [(''data'', JObj [])]))] = Some c' \<and>
    ad_userModal (st c') = Null \<and> length (sent c') = 2"
proof -
  let ?c = "ad_page new_user_page" and ?r = "Resolved (JObj [(''data'', JObj [])])"
  have "\<exists>c'. run (Admin plain_locale) ?c [UserDo (Usr UsrSave), Answer 0 ?r] = Some c'"
    by (simp add: new_user_offers saveUser_shape interceptor_signed ad_settle)
  then obtain c' where c': "run (Admin plain_locale) ?c [UserDo (Usr UsrSave), Answer 0 ?r] = Some c'" by blast
  from admin_save_user [of ?c plain_locale ?r c'] c'
  have "map wire (sent c') = map wire (sent ?c) @ [(''post'', ''/admin/api/v1/users'', Json (JObj [(''email'', JStr ''a@b.c''),
      (''password'', JStr ''hunter2''), (''display_name'', JStr []), (''is_super_admin'', JBool False)])), wire users_request]"
    "(st c')\<lparr>ad_error := ad_error new_user_page, ad_loading := ad_loading new_user_page\<rparr> = new_user_page\<lparr>ad_userModal := Null\<rparr>"
    by (simp_all add: new_user_page_def)
  from arg_cong [OF this(1), of length] arg_cong [OF this(2), of ad_userModal] c' show ?thesis by auto
qed

theorem admin_settings_roundtrip_witness:
  "\<exists>c' body. run (Admin plain_locale) (ad_page ad_initial) [UserDo (AdTab ''security''),
      Answer 0 (Resolved (JObj [(''data'', JObj [(''settings'', JObj [(''motd'', JStr ''hi''), (''session_timeout_minutes'', JNum 60)])])])),
      UserDo (Sec (SecSetting ''session_timeout_minutes'' ''90'')), UserDo (Sec SecSave)] = Some c' \<and>
    map wire (sent c') = [(''get'', ''/admin/api/v1/settings'', NoBody), (''put'', ''/admin/api/v1/settings'', Json (JObj body))] \<and>
    map_of body ''motd'' = Some (JStr ''hi'') \<and> map_of body ''session_timeout_minutes'' = Some (JStr ''90'')"
proof -
  let ?kvs = "[(''motd'', JStr ''hi''), (''session_timeout_minutes'', JNum 60)]"
  let ?res = "JObj [(''data'', JObj [(''settings'', JObj ?kvs)])]"
  let ?edits = "[(''session_timeout_minutes'', ''90'')]"
  let ?A = "Admin plain_locale" and ?c = "ad_page ad_initial"
  let ?s = "ad_initial\<lparr>ad_tab := ''security'', ad_error := JStr []\<rparr>"
  have kvs: "res_or ''settings'' (JObj []) ?res = Some (JObj ?kvs)" by (simp add: res_or_def res_field_def)
  have tab: "enabled ?A ad_initial (AdTab ''security'')"
    by (intro tab_offered overview_shows) (auto simp: ad_initial_def tabs_def)
  have on: "ad_tab (st ?c) \<noteq> ''security''" by (simp add: ad_initial_def)
  let ?s1 = "?s\<lparr>ad_settings := JObj ?kvs, ad_settingsForm := JObj ?kvs\<rparr>"
  have "\<exists>c'. run ?A ?c ([UserDo (AdTab ''security''), Answer (length (pend ?c)) (Resolved ?res)] @
      edit_settings ?edits @ [UserDo (Sec SecSave)]) = Some c'"
    using open_security [of ?c, OF _ _ on] tab kvs
      security_offers(1) [of ?s1 plain_locale "''90''"] security_offers(2) [of "?s1\<lparr>ad_settingsForm := JObj (assoc_set ''session_timeout_minutes'' (JStr ''90'') ?kvs)\<rparr>"]
    by (simp add: answer_def settings_answer_def settings_request_def ad_settle edit_settings_def handleSettingChange_def
        js_spread_set_def del: assoc_set.simps)
  then obtain c' where c': "run ?A ?c ([UserDo (AdTab ''security''), Answer (length (pend ?c)) (Resolved ?res)] @
      edit_settings ?edits @ [UserDo (Sec SecSave)]) = Some c'" by blast
  from admin_settings_roundtrip [of ?c, OF _ _ on kvs c'] obtain body where
    "map wire (sent c') = [(''get'', ''/admin/api/v1/settings'', NoBody), (''put'', ''/admin/api/v1/settings'', Json (JObj body))]"
    "\<forall>k. map_of body k = (case map_of (rev ?edits) k of Some v \<Rightarrow> Some (JStr v) | None \<Rightarrow> map_of ?kvs k)" by auto
  with c' show ?thesis by (intro exI [of _ c'] exI [of _ body]) (simp add: edit_settings_def)
qed

section \<open>What the certificates tab offers\<close>

lemma tls_tab_offers:
  assumes "ad_tab s = ''tls''" "ad_tlsProviders s = JArr []" "ad_tlsDomains s = JArr []"
    and "ad_tlsStatus s = Null \<or> ad_tlsStatus s = JObj []" "ad_error s = JStr t"
  shows "enabled (Admin loc) s (Tls (TlsNew v))" "enabled (Admin loc) s (Tls TlsEnter)"
    "truthy (ad_tlsStatus s) \<Longrightarrow> \<not> ad_tlsBusy s \<Longrightarrow> enabled (Admin loc) s (Tls (TlsRenew b))"
proof -
  obtain status where status: "tls_status_view loc (ad_tlsStatus s) = Some status"
    using assms(4) by (auto simp: tls_status_view_def dash_def text_child_def)
  obtain config where config: "tls_config_view s = Some config"
    using assms(2) by (simp add: tls_config_view_def creds_view_def Let_def)
  obtain rows where rows: "tls_domains_view s = Some rows" "list_ex (\<lambda>u. offers u (TlsNew v)) rows"
      "list_ex (\<lambda>u. offers u TlsEnter) rows"
    using assms(3) by (simp add: tls_domains_view_def)
  obtain err where err: "renderError s = Some err"
    by (cases "t = []") (auto simp: renderError_def assms(5))
  have view: "ad_view loc s = Some (Box ([Icon ''Shield'', Txt ''Admin Dashboard''] @ map tab_button tabs @ err @
      [lift_ui Tls (the (tls_view loc s))]))" "tls_view loc s \<noteq> None"
    using assms(1) status config rows(1) err by (simp_all add: ad_view_def tab_view_def tls_view_def Let_def)
  have o: "enabled (Admin loc) s (Tls e)" if "offers (the (tls_view loc s)) e" for e
    using that by (simp add: enabled_def view offers_lift)
  show "enabled (Admin loc) s (Tls (TlsNew v))" "enabled (Admin loc) s (Tls TlsEnter)"
    "truthy (ad_tlsStatus s) \<Longrightarrow> \<not> ad_tlsBusy s \<Longrightarrow> enabled (Admin loc) s (Tls (TlsRenew b))"
    by (rule o; use status config rows in \<open>cases b; simp add: tls_view_def Let_def\<close>)+
qed

text \<open>
  C28. The lock of the certificates tab never stays on by itself: while it is on, a request is in
  flight that releases it whatever its answer, or the interval that polls the renewal is still
  set, under the handle it will clear. So with nothing in flight and no such interval the
  buttons are enabled.
\<close>

theorem admin_lock_owned:
  assumes "reachable (Admin loc) c" "mounted c" "ad_tlsBusy (st c)"
  shows "(\<exists>(i, k) \<in> set (pend c). \<forall>r. tidyw ad_tlsBusy polls_renewal True (k r)) \<or>
    (\<exists>h. (h, True, poll_renewal h) \<in> set (timers c))"
  using tls_lock.on_owned [OF assms] by (auto simp: owned_def watched_def polls_renewal_def)

lemma settle_cookie [simp]: "cookie (settle n C c) = cookie c"
  by (induction n C c rule: settle.induct) auto

lemma open_certificates:
  assumes "mounted c" "rendered c = Some (st c)" "ad_tab (st c) \<noteq> ''tls''"
    and d: "d = settle commit_limit (Admin loc) (exec (ad_handle (AdTab ''tls'') (st c)) c)"
  shows "st d = (st c)\<lparr>ad_tab := ''tls'', ad_error := JStr [], ad_loading := True,
      ad_joins := ad_joins (st c) @ [[None, None, None, None]]\<rparr>" "rendered d = Some (st d)" "mounted d"
proof -
  let ?s = "(st c)\<lparr>ad_tab := ''tls'', ad_error := JStr []\<rparr>"
  let ?e = "exec fetchTLS (c\<lparr>st := ?s, rendered := Some ?s\<rparr>)"
  have e: "st ?e = ?s\<lparr>ad_loading := True, ad_joins := ad_joins (st c) @ [[None, None, None, None]]\<rparr>"
      "rendered ?e = Some ?s" "mounted ?e"
    using assms(1) by (simp_all add: fetchTLS_exec)
  have "d = settle 49 (Admin loc) ?e"
    unfolding d open_tab_commit [OF assms(1-3)] by (simp add: open_tab_def)
  also have "\<dots> = ?e\<lparr>rendered := Some (st ?e)\<rparr>" by (rule ad_settle) (simp_all only: e, simp_all)
  finally have d: "d = ?e\<lparr>rendered := Some (st ?e)\<rparr>" .
  show "st d = (st c)\<lparr>ad_tab := ''tls'', ad_error := JStr [], ad_loading := True,
      ad_joins := ad_joins (st c) @ [[None, None, None, None]]\<rparr>" "rendered d = Some (st d)" "mounted d"
    unfolding d using e by simp_all
qed

theorem admin_lock_owned_witness:
  "\<exists>c. reachable (Admin plain_locale) c \<and> mounted c \<and> ad_tlsBusy (st c) \<and>
    ((\<exists>(i, k) \<in> set (pend c). \<forall>r. tidyw ad_tlsBusy polls_renewal True (k r)) \<or>
     (\<exists>h. (h, True, poll_renewal h) \<in> set (timers c)))"
proof -
  let ?A = "Admin plain_locale"
  let ?b = "boot ?A [] ''/admin''"
  let ?d = "settle commit_limit ?A (exec (ad_handle (AdTab ''tls'') (st ?b)) ?b)"
  let ?s = "ad_initial\<lparr>ad_poll := Some 0, ad_tab := ''tls'', ad_error := JStr [], ad_loading := True,
      ad_joins := [[None, None, None, None]]\<rparr>"
  have b: "mounted ?b" "rendered ?b = Some (st ?b)" "ad_tab (st ?b) \<noteq> ''tls''" by (simp_all add: ad_boot ad_initial_def)
  have d: "st ?d = ?s" "rendered ?d = Some ?s" "mounted ?d"
    using open_certificates [OF b refl, of plain_locale] by (simp_all add: ad_boot ad_initial_def)
  have tab: "enabled ?A (st ?b) (AdTab ''tls'')" unfolding ad_boot(2)
    by (intro tab_offered overview_shows) (auto simp: ad_initial_def tabs_def)
  have 1: "enabled ?A ?s (Tls (TlsNew ''x''))" "enabled ?A (?s\<lparr>ad_newTls := ''x''\<rparr>) (Tls TlsEnter)"
    by (rule tls_tab_offers; simp add: ad_initial_def)+
  have "js_trim ''x'' = ''x''" by code_simp
  then have h: "addTlsDomainHandler (?s\<lparr>ad_newTls := ''x''\<rparr>) = take_tls [] (addTLSDomain (JStr ''x'')
      (\<lambda>_. SetSt (ad_newTls_update (\<lambda>_. [])) (Fork fetchTLS free_tls)) (failed_tls ''Failed to add domain''))"
    by (simp add: addTlsDomainHandler_def)
  obtain c where c: "run ?A ?b [UserDo (AdTab ''tls''), UserDo (Tls (TlsNew ''x'')), UserDo (Tls TlsEnter)] = Some c"
      "mounted c" "ad_tlsBusy (st c)"
    using b tab d 1 h by (simp add: ad_settle take_tls_def set_error_def addTLSDomain_def call_def
        interceptor_signed ad_boot(5))
  have "reachable ?A c" by (rule reachable_run [OF reachable.start c(1)])
  with admin_lock_owned [OF this c(2,3)] c show ?thesis by blast
qed

end
