(* ===== verification/Calendar.thy ===== *)
theory Calendar imports Api Busy_Flag "HOL-Library.Sublist" begin

text \<open>
  \<open>web/src/components/Calendar.jsx\<close>: a month of events. A \<open>Date\<close> is its time value in
  milliseconds; what depends on the time zone of the browser or comes from \<open>date-fns\<close> is the
  parameter \<open>cal_env\<close>. \<open>ca_nav\<close> counts the calls of \<open>setCurrentDate\<close>: the dependency array
  compares \<open>Date\<close> objects by identity. The clock (\<open>new Date()\<close>) is part of the events that read it.
  The state \<open>selectedDate\<close> of the code is never set, and is left out.
\<close>

section \<open>Dates\<close>

record cal_env =
  parse_date :: "jsval \<Rightarrow> int option"       \<comment> \<open>\<open>new Date(v)\<close>, \<open>None\<close> for an invalid date\<close>
  to_iso :: "int \<Rightarrow> string"                 \<comment> \<open>\<open>toISOString\<close>\<close>
  at_hour :: "int \<Rightarrow> int \<Rightarrow> int"             \<comment> \<open>\<open>setHours(h, 0, 0, 0)\<close>\<close>
  start_of_month :: "int \<Rightarrow> int"
  end_of_month :: "int \<Rightarrow> int"
  start_of_week :: "int \<Rightarrow> int"
  end_of_week :: "int \<Rightarrow> int"
  add_days :: "int \<Rightarrow> int \<Rightarrow> int"
  add_months :: "int \<Rightarrow> int \<Rightarrow> int"          \<comment> \<open>\<open>subMonths(d, n)\<close> is \<open>addMonths(d, -n)\<close>\<close>
  same_day :: "int \<Rightarrow> int \<Rightarrow> bool"
  same_month :: "int \<Rightarrow> int \<Rightarrow> bool"
  format_date :: "string \<Rightarrow> int \<Rightarrow> string"

record ca_form =
  ca_title :: jsval
  ca_start :: jsval
  ca_end :: jsval
  ca_description :: jsval
  ca_location :: jsval

record ca_state =
  ca_current :: int
  ca_nav :: nat
  ca_events :: jsval
  ca_loading :: bool
  ca_showForm :: bool
  ca_editing :: jsval
  ca_form :: ca_form
  ca_formError :: jsval

datatype ca_event =
    CaPrev
  | CaNext
  | is_CaToday: CaToday int
  | is_CaNew: CaNew int
  | CaDay int
  | CaOpen jsval
  | is_CaTitle: CaTitle string
  | is_CaStart: CaStart string
  | is_CaEnd: CaEnd string
  | is_CaLocation: CaLocation string
  | is_CaDescription: CaDescription string
  | CaSave
  | CaDelete jsval bool
  | CaClose

definition ca_empty_form :: ca_form where
  "ca_empty_form = \<lparr>ca_title = JStr [], ca_start = JStr [], ca_end = JStr [],
     ca_description = JStr [], ca_location = JStr []\<rparr>"

definition ca_initial :: "int \<Rightarrow> ca_state" where
  "ca_initial now = \<lparr>ca_current = now, ca_nav = 0, ca_events = JArr [], ca_loading = True,
     ca_showForm = False, ca_editing = Null, ca_form = ca_empty_form, ca_formError = JStr []\<rparr>"

section \<open>Handlers\<close>

text \<open>Lines 16 to 28.\<close>

definition fetchEvents :: "cal_env \<Rightarrow> ca_state \<Rightarrow> ca_state prog" where
  "fetchEvents env s =
     (let finish = SetSt (ca_loading_update (\<lambda>_. False)) Done;
          first = format_date env ''yyyy-MM-dd'' (start_of_month env (ca_current s));
          last = format_date env ''yyyy-MM-dd'' (end_of_month env (ca_current s)) in
      SetSt (ca_loading_update (\<lambda>_. True))
      (getCalendarEvents (JStr first) (JStr last)
        (\<lambda>data. SetSt (ca_events_update (\<lambda>_. data)) finish)
        (\<lambda>err. Perform (ConsoleError ''Failed to load events:'' err) finish)))"

definition ca_commit :: "cal_env \<Rightarrow> ca_state option \<Rightarrow> ca_state \<Rightarrow> ca_state prog" where
  "ca_commit env old s = (if map_option ca_nav old = Some (ca_nav s) then Done else fetchEvents env s)"

text \<open>Lines 56 to 62; \<open>toISOString\<close> throws on an invalid date.\<close>

definition ca_payload :: "cal_env \<Rightarrow> ca_form \<Rightarrow> jsval option" where
  "ca_payload env f = do {
     start \<leftarrow> parse_date env (ca_start f);
     stop \<leftarrow> parse_date env (ca_end f);
     Some (JObj [(''title'', ca_title f), (''description'', ca_description f),
       (''location'', ca_location f), (''start'', JStr (to_iso env start)), (''end'', JStr (to_iso env stop))]) }"

definition ca_saved :: "cal_env \<Rightarrow> ca_state \<Rightarrow> ca_state prog" where
  "ca_saved env s =
     SetSt (ca_showForm_update (\<lambda>_. False))
     (SetSt (ca_editing_update (\<lambda>_. Null))
     (SetSt (ca_form_update (\<lambda>_. ca_empty_form)) (fetchEvents env s)))"

definition ca_failed :: "jsval \<Rightarrow> ca_state prog" where
  "ca_failed err = SetSt (ca_formError_update (\<lambda>_. err_text err (JStr ''Failed to save event''))) Done"

text \<open>Lines 53 to 75.\<close>

definition ca_save :: "cal_env \<Rightarrow> ca_state \<Rightarrow> ca_state prog" where
  "ca_save env s =
     SetSt (ca_formError_update (\<lambda>_. JStr []))
     (attempt (ca_payload env (ca_form s))
       (\<lambda>payload. if truthy (ca_editing s)
          then attempt (js_get (ca_editing s) ''uid'')
            (\<lambda>i. updateCalendarEvent i payload (\<lambda>_. ca_saved env s) ca_failed) ca_failed
          else createCalendarEvent payload (\<lambda>_. ca_saved env s) ca_failed)
       ca_failed)"

text \<open>Lines 77 to 87.\<close>

definition ca_delete :: "cal_env \<Rightarrow> ca_state \<Rightarrow> jsval \<Rightarrow> bool \<Rightarrow> ca_state prog" where
  "ca_delete env s i confirmed =
     Perform (AskConfirm ''Delete this event?'')
     (if \<not> confirmed then Done
      else deleteCalendarEvent i
        (\<lambda>_. SetSt (ca_showForm_update (\<lambda>_. False))
             (SetSt (ca_editing_update (\<lambda>_. Null)) (fetchEvents env s)))
        (\<lambda>err. Perform (ConsoleError ''Delete failed:'' err) Done))"

definition minute_text :: "cal_env \<Rightarrow> int \<Rightarrow> jsval" where
  "minute_text env d = JStr (format_date env ''yyyy-MM-dd'T'HH:mm'' d)"

text \<open>Lines 89 to 103.\<close>

definition openNewEvent :: "cal_env \<Rightarrow> int \<Rightarrow> ca_state prog" where
  "openNewEvent env date =
     SetSt (ca_form_update (\<lambda>_. \<lparr>ca_title = JStr [],
        ca_start = minute_text env (at_hour env 9 date), ca_end = minute_text env (at_hour env 10 date),
        ca_description = JStr [], ca_location = JStr []\<rparr>))
     (SetSt (ca_editing_update (\<lambda>_. Null)) (SetSt (ca_showForm_update (\<lambda>_. True)) Done))"

text \<open>Lines 158 to 164; \<open>format\<close> throws on an invalid date, after \<open>setEditingEvent\<close>.\<close>

definition ca_event_form :: "cal_env \<Rightarrow> jsval \<Rightarrow> ca_form option" where
  "ca_event_form env e = do {
     title \<leftarrow> js_get e ''title'';
     start \<leftarrow> parse_date env (js_prop e ''start'');
     stop \<leftarrow> parse_date env (js_prop e ''end'');
     Some \<lparr>ca_title = js_or title (JStr []), ca_start = minute_text env start,
       ca_end = minute_text env stop, ca_description = js_or (js_prop e ''description'') (JStr []),
       ca_location = js_or (js_prop e ''location'') (JStr [])\<rparr> }"

definition openEvent :: "cal_env \<Rightarrow> jsval \<Rightarrow> ca_state prog" where
  "openEvent env e =
     SetSt (ca_editing_update (\<lambda>_. e))
     (attempt (ca_event_form env e)
       (\<lambda>f. SetSt (ca_form_update (\<lambda>_. f)) (SetSt (ca_showForm_update (\<lambda>_. True)) Done)) uncaught)"

definition setCurrentDate :: "int \<Rightarrow> ca_state prog" where
  "setCurrentDate d = SetSt (\<lambda>s. s\<lparr>ca_current := d, ca_nav := Suc (ca_nav s)\<rparr>) Done"

fun ca_handle :: "cal_env \<Rightarrow> ca_event \<Rightarrow> ca_state \<Rightarrow> ca_state prog" where
  "ca_handle env CaPrev s = setCurrentDate (add_months env (-1) (ca_current s))"
| "ca_handle env CaNext s = setCurrentDate (add_months env 1 (ca_current s))"
| "ca_handle env (CaToday now) s = setCurrentDate now"
| "ca_handle env (CaNew now) s = openNewEvent env now"
| "ca_handle env (CaDay d) s = openNewEvent env d"
| "ca_handle env (CaOpen e) s = openEvent env e"
| "ca_handle env (CaTitle v) s = SetSt (ca_form_update (\<lambda>_. (ca_form s)\<lparr>ca_title := JStr v\<rparr>)) Done"
| "ca_handle env (CaStart v) s = SetSt (ca_form_update (\<lambda>_. (ca_form s)\<lparr>ca_start := JStr v\<rparr>)) Done"
| "ca_handle env (CaEnd v) s = SetSt (ca_form_update (\<lambda>_. (ca_form s)\<lparr>ca_end := JStr v\<rparr>)) Done"
| "ca_handle env (CaLocation v) s = SetSt (ca_form_update (\<lambda>_. (ca_form s)\<lparr>ca_location := JStr v\<rparr>)) Done"
| "ca_handle env (CaDescription v) s = SetSt (ca_form_update (\<lambda>_. (ca_form s)\<lparr>ca_description := JStr v\<rparr>)) Done"
| "ca_handle env CaSave s = ca_save env s"
| "ca_handle env (CaDelete i confirmed) s = ca_delete env s i confirmed"
| "ca_handle env CaClose s = SetSt (ca_showForm_update (\<lambda>_. False)) Done"

section \<open>The view\<close>

text \<open>The loop of lines 39 to 44; not returning is \<open>None\<close>.\<close>

partial_function (option) days_from :: "cal_env \<Rightarrow> int \<Rightarrow> int \<Rightarrow> int list option" where
  "days_from env day stop =
     (if day \<le> stop
      then do { ds \<leftarrow> days_from env (add_days env 1 day) stop; Some (day # ds) }
      else Some [])"

text \<open>Lines 34 to 44.\<close>

definition grid_days :: "cal_env \<Rightarrow> int \<Rightarrow> int list option" where
  "grid_days env current =
     (let monthStart = start_of_month env current; monthEnd = end_of_month env monthStart in
      days_from env (start_of_week env monthStart) (end_of_week env monthEnd))"

definition starts_on :: "cal_env \<Rightarrow> int \<Rightarrow> jsval \<Rightarrow> bool option" where
  "starts_on env date e = do {
     v \<leftarrow> js_get e ''start'';
     Some (case parse_date env v of Some d \<Rightarrow> same_day env d date | None \<Rightarrow> False) }"

definition getEventsForDay :: "cal_env \<Rightarrow> jsval \<Rightarrow> int \<Rightarrow> jsval list option" where
  "getEventsForDay env evs date = do { es \<leftarrow> js_elems evs; filter_option (starts_on env date) es }"

text \<open>Lines 137 to 176: one day, at most three of its events, and how many more there are.\<close>

definition ca_event_view :: "jsval \<Rightarrow> ca_event ui option" where
  "ca_event_view e = map_option (\<lambda>t. Clickable (CaOpen e) [Txt t]) (js_child (js_prop e ''title''))"

definition ca_cell :: "cal_env \<Rightarrow> (int \<Rightarrow> bool) \<Rightarrow> ca_state \<Rightarrow> int \<Rightarrow> ca_event ui option" where
  "ca_cell env isToday s d = do {
     es \<leftarrow> getEventsForDay env (ca_events s) d;
     shown_es \<leftarrow> sequence (map ca_event_view (take 3 es));
     Some (Clickable (CaDay d)
       (shown (\<not> same_month env d (ca_current s)) [Icon ''other month''] @
        shown (isToday d) [Icon ''today''] @ [Txt (format_date env ''d'' d)] @ shown_es @
        shown (3 < length es) [Txt (''+'' @ nat_str (length es - 3) @ '' more'')])) }"

definition weekDays :: "string list" where
  "weekDays = [''Sun'', ''Mon'', ''Tue'', ''Wed'', ''Thu'', ''Fri'', ''Sat'']"

definition ca_form_view :: "ca_state \<Rightarrow> ca_event ui option" where
  "ca_form_view s = do {
     err \<leftarrow> shown_value (ca_formError s) (\<lambda>t. [Txt t]);
     Some (Box
       ([Txt (if truthy (ca_editing s) then ''Edit Event'' else ''New Event''),
         Btn False CaClose [Icon ''X'']] @ err @
        [Field (ca_title (ca_form s)) is_CaTitle, Field (ca_start (ca_form s)) is_CaStart,
         Field (ca_end (ca_form s)) is_CaEnd, Field (ca_location (ca_form s)) is_CaLocation,
         Field (ca_description (ca_form s)) is_CaDescription] @
        shown (truthy (ca_editing s))
          [Btn False (CaDelete (js_oget (ca_editing s) ''uid'') True) [Txt ''Delete''],
           Btn False (CaDelete (js_oget (ca_editing s) ''uid'') False) [Txt ''Delete'']] @
        [Btn False CaClose [Txt ''Cancel''], Btn False CaSave [Txt ''Save'']])) }"

definition ca_view :: "cal_env \<Rightarrow> (int \<Rightarrow> bool) \<Rightarrow> ca_state \<Rightarrow> ca_event ui option" where
  "ca_view env isToday s = do {
     days \<leftarrow> grid_days env (ca_current s);
     cells \<leftarrow> sequence (map (ca_cell env isToday s) days);
     modal \<leftarrow> (if ca_showForm s then map_option (\<lambda>u. [u]) (ca_form_view s) else Some []);
     Some (Box
       ([Txt (format_date env ''MMMM yyyy'' (ca_current s)),
         Btn False CaPrev [Icon ''ChevronLeft''], Btn False CaNext [Icon ''ChevronRight''],
         Field Undefined is_CaToday, Field Undefined is_CaNew] @
        map Txt weekDays @ cells @ modal)) }"

definition CalendarView ::
  "cal_env \<Rightarrow> (int \<Rightarrow> bool) \<Rightarrow> int \<Rightarrow> (ca_event, ca_state) component" where
  "CalendarView env isToday now = \<lparr>initial = ca_initial now, handle = ca_handle env,
     after_commit = ca_commit env, cleanup = \<lambda>_. Done, view = ca_view env isToday,
     external = \<lambda>_. False\<rparr>"

lemma CalendarView_simps [simp]:
  "initial (CalendarView env td n) = ca_initial n" "handle (CalendarView env td n) = ca_handle env"
  "after_commit (CalendarView env td n) = ca_commit env" "cleanup (CalendarView env td n) s = Done"
  "view (CalendarView env td n) = ca_view env td" "external (CalendarView env td n) e = False"
  by (simp_all add: CalendarView_def)

lemmas ca_defs = fetchEvents_def ca_commit_def ca_saved_def ca_failed_def ca_save_def ca_delete_def
  openNewEvent_def openEvent_def setCurrentDate_def

interpretation ca_spinner: busy_flag "CalendarView env td n" ca_loading "\<lambda>_ _. False"
proof unfold_locales
  show "tidy ca_loading False (handle (CalendarView env td n) ev s)" for ev s
    by (cases ev) (auto simp: ca_defs api react uncaught_def Let_def split: option.split)
qed (auto simp: ca_initial_def ca_defs api react Let_def split: option.split)

section \<open>A date library for the examples\<close>

text \<open>
  The functions of \<open>cal_env\<close> for a browser in UTC, with the Gregorian calendar: \<open>civil_of_day\<close> and
  \<open>day_of_civil\<close> convert between the number of a day since the epoch and year, month and day.
\<close>

definition civil_of_day :: "int \<Rightarrow> int \<times> int \<times> int" where
  "civil_of_day n =
     (let z = n + 719468; era = z div 146097; doe = z mod 146097;
          yoe = (doe - doe div 1460 + doe div 36524 - doe div 146096) div 365;
          doy = doe - (365 * yoe + yoe div 4 - yoe div 100);
          mp = (5 * doy + 2) div 153;
          m = (if mp < 10 then mp + 3 else mp - 9) in
      (yoe + era * 400 + (if m \<le> 2 then 1 else 0), m, doy - (153 * mp + 2) div 5 + 1))"

definition day_of_civil :: "int \<Rightarrow> int \<Rightarrow> int \<Rightarrow> int" where
  "day_of_civil y m d =
     (let y' = (if m \<le> 2 then y - 1 else y); era = y' div 400; yoe = y' - era * 400;
          doy = (153 * (if m > 2 then m - 3 else m + 9) + 2) div 5 + d - 1 in
      era * 146097 + (yoe * 365 + yoe div 4 - yoe div 100 + doy) - 719468)"

definition day_ms :: int where
  "day_ms = 86400000"

definition utc_day :: "int \<Rightarrow> int" where
  "utc_day t = t div day_ms"

definition padded :: "nat \<Rightarrow> int \<Rightarrow> string" where
  "padded n i = replicate (n - length (int_str i)) CHR ''0'' @ int_str i"

definition utc_text :: "int \<Rightarrow> string" where
  "utc_text t = (case civil_of_day (utc_day t) of (y, m, d) \<Rightarrow>
     padded 4 y @ ''-'' @ padded 2 m @ ''-'' @ padded 2 d)"

definition utc_minutes :: "int \<Rightarrow> string" where
  "utc_minutes t = (let k = t mod day_ms div 60000 in
     utc_text t @ ''T'' @ padded 2 (k div 60) @ '':'' @ padded 2 (k mod 60))"

definition digits :: "string \<Rightarrow> int" where
  "digits cs = fold (\<lambda>c n. 10 * n + (int (char_code c) - 48)) cs 0"

definition utc_parse :: "jsval \<Rightarrow> int option" where
  "utc_parse v = (case v of
     JStr t \<Rightarrow> (if length t < 16 then None
       else Some (day_ms * day_of_civil (digits (take 4 t)) (digits (take 2 (drop 5 t))) (digits (take 2 (drop 8 t)))
         + 3600000 * digits (take 2 (drop 11 t)) + 60000 * digits (take 2 (drop 14 t))))
   | _ \<Rightarrow> None)"

definition utc_env :: cal_env where
  "utc_env = \<lparr>parse_date = utc_parse, to_iso = \<lambda>t. utc_minutes t @ '':00.000Z'',
     at_hour = \<lambda>h t. day_ms * utc_day t + 3600000 * h,
     start_of_month = \<lambda>t. case civil_of_day (utc_day t) of (y, m, d) \<Rightarrow> day_ms * day_of_civil y m 1,
     end_of_month = \<lambda>t. case civil_of_day (utc_day t) of (y, m, d) \<Rightarrow>
       day_ms * (if m = 12 then day_of_civil (y + 1) 1 1 else day_of_civil y (m + 1) 1) - 1,
     start_of_week = \<lambda>t. day_ms * (utc_day t - (utc_day t + 4) mod 7),
     end_of_week = \<lambda>t. day_ms * (utc_day t - (utc_day t + 4) mod 7 + 7) - 1,
     add_days = \<lambda>n t. t + day_ms * n,
     add_months = \<lambda>n t. case civil_of_day (utc_day t) of (y, m, d) \<Rightarrow>
       day_ms * day_of_civil (y + (m - 1 + n) div 12) ((m - 1 + n) mod 12 + 1) (min d 28) + t mod day_ms,
     same_day = \<lambda>t u. utc_day t = utc_day u,
     same_month = \<lambda>t u. (case (civil_of_day (utc_day t), civil_of_day (utc_day u)) of
       ((y, m, _), (y', m', _)) \<Rightarrow> y = y' \<and> m = m'),
     format_date = \<lambda>f t. if length f = 10 then utc_text t else utc_minutes t\<rparr>"

section \<open>The grid\<close>

text \<open>
  The documented behaviour of \<open>date-fns\<close> the grid relies on, around one date: \<open>day\<close> numbers the local
  days, 0 being the Thursday the epoch fell on. Adding a day goes to the next local day; a later
  time is never on an earlier day; a month begins and ends around its dates; a week begins on
  Sunday and ends at the last moment of Saturday.
\<close>

definition weekday :: "int \<Rightarrow> int" where
  "weekday d = (d + 4) mod 7"

definition date_laws :: "cal_env \<Rightarrow> (int \<Rightarrow> int) \<Rightarrow> int \<Rightarrow> bool" where
  "date_laws env day current \<longleftrightarrow>
     (\<forall>t. day (add_days env 1 t) = day t + 1) \<and> (\<forall>t u. t \<le> u \<longrightarrow> day t \<le> day u) \<and>
     (let m = start_of_month env current; e = end_of_month env m;
          s = start_of_week env m; w = end_of_week env e in
      day m \<le> day current \<and> day current \<le> day e \<and>
      day s = day m - weekday (day m) \<and> day w = day e + 6 - weekday (day e) \<and>
      (\<forall>t. day t \<le> day w \<longrightarrow> t \<le> w))"

declare days_from.simps [code]

lemma days_from_enumerates:
  assumes "\<And>t. day (add_days env 1 t) = day t + 1" "\<And>t u. t \<le> u \<Longrightarrow> day t \<le> day u"
    and "\<And>t. day t \<le> day w \<Longrightarrow> t \<le> w"
  shows "day t \<le> day w + 1 \<Longrightarrow> \<exists>ds. days_from env t w = Some ds \<and> map day ds = [day t..day w]"
proof (induction "nat (day w + 1 - day t)" arbitrary: t)
  case 0
  then have "\<not> t \<le> w" using assms(2) [of t w] by auto
  with 0 show ?case by (subst days_from.simps) simp
next
  case (Suc n)
  have le: "day t \<le> day w" using Suc.hyps(2) by simp
  then have "t \<le> w" by (rule assms(3))
  have "n = nat (day w + 1 - day (add_days env 1 t))" using Suc.hyps(2) by (simp add: assms(1))
  moreover have "day (add_days env 1 t) \<le> day w + 1" using le by (simp add: assms(1))
  ultimately obtain ds where "days_from env (add_days env 1 t) w = Some ds" "map day ds = [day t + 1..day w]"
    using Suc.hyps(1) by (metis assms(1))
  then show ?case using \<open>t \<le> w\<close> le by (subst days_from.simps) (auto simp: upto_rec1)
qed

lemma weekday_bounds: "0 \<le> weekday d" "weekday d \<le> 6"
  unfolding weekday_def by (simp_all add: pos_mod_bound [of 7] zle_diff1_eq [symmetric])

lemma whole_weeks:
  assumes "m \<le> e" shows "7 dvd nat (e + 6 - weekday e - (m - weekday m) + 1)"
proof -
  have "(7 :: int) dvd e + 6 - weekday e - (m - weekday m) + 1" unfolding weekday_def by presburger
  then obtain k where k: "e + 6 - weekday e - (m - weekday m) + 1 = 7 * k" by (rule dvdE)
  then show ?thesis by (simp add: nat_mult_distrib)
qed

lemma last_upto: "i \<le> j \<Longrightarrow> last [i..j] = j"
  by (simp add: upto_rec2)

text \<open>The loop ends, and enumerates whole weeks.\<close>

lemma calendar_grid_days:
  assumes "date_laws env day current"
  shows "\<exists>ds. grid_days env current = Some ds \<and> ds \<noteq> [] \<and>
    map day ds = [day (hd ds)..day (last ds)] \<and> 7 dvd length ds \<and>
    weekday (day (hd ds)) = 0 \<and> weekday (day (last ds)) = 6 \<and>
    {day (start_of_month env current)..day (end_of_month env (start_of_month env current))} \<subseteq> set (map day ds)"
proof -
  let ?m = "start_of_month env current"
  let ?e = "end_of_month env ?m"
  let ?s = "start_of_week env ?m" and ?w = "end_of_week env ?e"
  from assms have s: "day ?s = day ?m - weekday (day ?m)" and w: "day ?w = day ?e + 6 - weekday (day ?e)"
    and me: "day ?m \<le> day ?e" by (auto simp: date_laws_def Let_def)
  have sw: "day ?s \<le> day ?w" using s w me weekday_bounds [of "day ?m"] weekday_bounds [of "day ?e"] by simp
  obtain ds where ds: "days_from env ?s ?w = Some ds" "map day ds = [day ?s..day ?w]"
    using days_from_enumerates [of day env ?w ?s] sw assms by (auto simp: date_laws_def Let_def)
  have ne: "ds \<noteq> []" using ds(2) sw by auto
  have hd: "day (hd ds) = day ?s" using ds(2) ne sw by (metis hd_map upto.simps list.sel(1))
  have la: "day (last ds) = day ?w" using ds(2) ne sw by (metis last_map last_upto)
  have "length ds = nat (day ?w - day ?s + 1)" using ds(2) by (metis length_map length_upto)
  then have "7 dvd length ds" using whole_weeks [OF me] by (simp add: s w algebra_simps)
  moreover have "weekday (day ?s) = 0" "weekday (day ?w) = 6"
    unfolding s w weekday_def by presburger+
  moreover have "{day ?m..day ?e} \<subseteq> set (map day ds)"
    unfolding ds(2) set_upto using s w weekday_bounds [of "day ?m"] weekday_bounds [of "day ?e"] by auto
  moreover have "grid_days env current = Some ds" using ds(1) by (simp add: grid_days_def Let_def)
  ultimately show ?thesis using ds(2) ne
    by (intro exI [of _ ds]) (unfold hd la, blast)
qed

section \<open>Properties: the grid\<close>

text \<open>
  C33. The loop that builds the grid ends, whatever the month, and the grid is whole weeks of
  consecutive days, from the Sunday on or before the first of the month to the Saturday on or after
  the last, so that every day of the month has exactly one cell.
\<close>

theorem calendar_grid:
  assumes "date_laws env day current"
  shows "\<exists>ds. grid_days env current = Some ds \<and> ds \<noteq> [] \<and>
    map day ds = [day (hd ds)..day (last ds)] \<and> 7 dvd length ds \<and>
    weekday (day (hd ds)) = 0 \<and> weekday (day (last ds)) = 6 \<and>
    {day (start_of_month env current)..day (end_of_month env (start_of_month env current))} \<subseteq> set (map day ds)"
  by (rule calendar_grid_days [OF assms])

text \<open>November 2025 begins on a Saturday and ends on a Sunday.\<close>

lemma utc_civil:
  "civil_of_day 20393 = (2025, 11, 1) \<and> civil_of_day 20395 = (2025, 11, 3) \<and>
   day_of_civil 2025 11 1 = 20393 \<and> day_of_civil 2025 12 1 = 20423 \<and> day_of_civil 2025 11 3 = 20395"
  by code_simp

lemma utc_digits:
  "padded 4 2025 = ''2025'' \<and> padded 2 11 = ''11'' \<and> padded 2 3 = ''03'' \<and> padded 2 9 = ''09'' \<and>
   padded 2 0 = ''00'' \<and> padded 2 10 = ''10'' \<and>
   digits ''2025'' = 2025 \<and> digits ''11'' = 11 \<and> digits ''03'' = 3 \<and> digits ''09'' = 9 \<and>
   digits ''00'' = 0 \<and> digits ''10'' = 10"
  by code_simp

lemma utc_days:
  "utc_day 1762000000000 = 20393" "utc_day 1761955200000 = 20393" "utc_day 1764547199999 = 20422"
  "utc_day 1761436800000 = 20387" "utc_day 1765065599999 = 20428" "utc_day 1762160400000 = 20395"
  "utc_day 1762164000000 = 20395" "weekday 20393 = 6" "weekday 20422 = 0"
  by (simp_all add: utc_day_def day_ms_def weekday_def)

lemma utc_month:
  "start_of_month utc_env 1762000000000 = 1761955200000" "end_of_month utc_env 1761955200000 = 1764547199999"
  "start_of_week utc_env 1761955200000 = 1761436800000" "end_of_week utc_env 1764547199999 = 1765065599999"
  by (simp_all add: utc_env_def utc_civil utc_days day_ms_def)

lemma utc_texts:
  "minute_text utc_env 1762160400000 = JStr ''2025-11-03T09:00''"
  "minute_text utc_env 1762164000000 = JStr ''2025-11-03T10:00''"
  by (simp_all add: minute_text_def utc_env_def utc_minutes_def utc_text_def utc_days utc_civil utc_digits
      day_ms_def Let_def)

lemma utc_parsed:
  "parse_date utc_env (JStr ''2025-11-03T09:00:00Z'') = Some 1762160400000"
  "parse_date utc_env (JStr ''2025-11-03T10:00:00Z'') = Some 1762164000000"
  "parse_date utc_env (JStr ''2025-11-03T09:00'') = Some 1762160400000"
  "parse_date utc_env (JStr ''2025-11-03T10:00'') = Some 1762164000000"
  by (simp_all add: utc_env_def utc_parse_def utc_civil utc_digits day_ms_def numeral_eq_Suc [of num.One]
      numeral_eq_Suc [of "num.Bit0 m" for m] numeral_eq_Suc [of "num.Bit1 m" for m] del: numeral_eq_Suc)

lemmas utc_values = utc_days utc_month utc_texts utc_parsed

lemma utc_laws: "date_laws utc_env utc_day 1762000000000"
proof -
  have "utc_day (add_days utc_env 1 t) = utc_day t + 1" for t
    by (simp add: utc_env_def utc_day_def day_ms_def)
  moreover have "t \<le> u \<Longrightarrow> utc_day t \<le> utc_day u" for t u
    unfolding utc_day_def by (rule zdiv_mono1) (simp_all add: day_ms_def)
  moreover have "t \<le> 1765065599999" if "utc_day t \<le> 20428" for t
    using that unfolding utc_day_def day_ms_def by presburger
  ultimately show ?thesis by (simp add: date_laws_def utc_values)
qed

theorem calendar_grid_witness:
  "\<exists>ds. grid_days utc_env 1762000000000 = Some ds \<and>
     {20393..20422} \<subseteq> set (map utc_day ds) \<and> 7 dvd length ds"
  using calendar_grid [OF utc_laws] by (simp add: utc_values del: set_map) blast

lemma events_of_day:
  assumes "list_all (\<lambda>e. \<not> nullish e) evs"
  shows "getEventsForDay env (JArr evs) d =
    Some (filter (\<lambda>e. \<exists>t. parse_date env (js_prop e ''start'') = Some t \<and> same_day env t d) evs)"
proof -
  have "starts_on env d e = Some (\<exists>t. parse_date env (js_prop e ''start'') = Some t \<and> same_day env t d)"
    if "e \<in> set evs" for e
    using assms that by (auto simp: starts_on_def js_get_def list_all_iff split: option.split)
  from map_filter_option [OF this] show ?thesis by (simp add: getEventsForDay_def)
qed

text \<open>
  C34. Every event that starts on a day of the grid is listed under exactly one cell, with the other
  events of that day in the order the server sent them.
\<close>

theorem calendar_event_once:
  assumes "date_laws env day current" "\<forall>t u. same_day env t u \<longleftrightarrow> day t = day u"
    and "grid_days env current = Some ds" "list_all (\<lambda>e. \<not> nullish e) evs"
    and "e \<in> set evs" "parse_date env (js_prop e ''start'') = Some t"
    and "day (hd ds) \<le> day t" "day t \<le> day (last ds)"
  shows "(\<exists>!i. i < length ds \<and> e \<in> set (the (getEventsForDay env (JArr evs) (ds ! i)))) \<and>
    (\<forall>i < length ds. subseq (the (getEventsForDay env (JArr evs) (ds ! i))) evs)"
proof -
  from calendar_grid_days [OF assms(1)] assms(3) have ds: "map day ds = [day (hd ds)..day (last ds)]" by auto
  have "day t \<in> set (map day ds)" unfolding ds set_upto using assms(7,8) by simp
  then obtain i where i: "i < length ds" "day (ds ! i) = day t"
    by (auto simp: in_set_conv_nth simp del: set_map)
  have in_cell: "e \<in> set (the (getEventsForDay env (JArr evs) (ds ! j))) \<longleftrightarrow> day t = day (ds ! j)" for j
    using assms(2,5,6) by (simp add: events_of_day [OF assms(4)])
  have "distinct (map day ds)" unfolding ds by simp
  then have "j = i" if "j < length ds" "day (ds ! j) = day t" for j
    using that i by (metis length_map nth_eq_iff_index_eq nth_map)
  then have "\<exists>!i. i < length ds \<and> e \<in> set (the (getEventsForDay env (JArr evs) (ds ! i)))"
    unfolding in_cell using i by metis
  then show ?thesis by (simp add: events_of_day [OF assms(4)])
qed

theorem calendar_event_once_witness:
  "\<exists>ds i. grid_days utc_env 1762000000000 = Some ds \<and> i < length ds \<and>
     JObj [(''start'', JStr ''2025-11-03T09:00:00Z'')]
       \<in> set (the (getEventsForDay utc_env (JArr [JObj [(''start'', JStr ''2025-11-03T09:00:00Z'')]]) (ds ! i)))"
proof -
  let ?e = "JObj [(''start'', JStr ''2025-11-03T09:00:00Z'')]"
  obtain ds where ds: "grid_days utc_env 1762000000000 = Some ds" "map utc_day ds = [utc_day (hd ds)..utc_day (last ds)]"
      "{utc_day (start_of_month utc_env 1762000000000)..utc_day (end_of_month utc_env (start_of_month utc_env 1762000000000))}
        \<subseteq> set (map utc_day ds)"
    using calendar_grid_days [OF utc_laws] by blast
  have d: "utc_day (start_of_month utc_env 1762000000000) = 20393"
      "utc_day (end_of_month utc_env (start_of_month utc_env 1762000000000)) = 20422"
      "utc_day 1762160400000 = 20395"
    by (simp_all add: utc_values)
  have p: "parse_date utc_env (js_prop ?e ''start'') = Some 1762160400000" by (simp add: utc_values)
  have "20395 \<in> set (map utc_day ds)" using ds(3) unfolding d by (rule subsetD) simp
  then have "utc_day (hd ds) \<le> utc_day 1762160400000 \<and> utc_day 1762160400000 \<le> utc_day (last ds)"
    unfolding ds(2) set_upto d(3) by simp
  moreover have "\<forall>t u. same_day utc_env t u \<longleftrightarrow> utc_day t = utc_day u" by (simp add: utc_env_def)
  ultimately show ?thesis
    using calendar_event_once [OF utc_laws _ ds(1) _ _ p, of "[?e]"] ds(1) by auto
qed

section \<open>Saving\<close>

lemma ca_settle:
  "map_option ca_nav (rendered c) = Some (ca_nav (st c)) \<Longrightarrow> mounted c \<Longrightarrow>
   settle commit_limit (CalendarView env td n) c = c\<lparr>rendered := Some (st c)\<rparr>"
  by (subst settle_done) (auto simp: ca_commit_def)

definition ca_save_request :: "ca_state \<Rightarrow> jsval \<Rightarrow> http" where
  "ca_save_request s payload =
     (if truthy (ca_editing s)
      then request ''patch'' (''/calendar/events/'' @ js_string (js_oget (ca_editing s) ''uid'')) (Json payload)
      else request ''post'' ''/calendar/events'' (Json payload))"

definition ca_list_request :: "cal_env \<Rightarrow> ca_state \<Rightarrow> http" where
  "ca_list_request env s = request ''get''
     (''/calendar/events?start='' @ format_date env ''yyyy-MM-dd'' (start_of_month env (ca_current s)) @
      ''&end='' @ format_date env ''yyyy-MM-dd'' (end_of_month env (ca_current s))) NoBody"

definition ca_save_answer :: "cal_env \<Rightarrow> ca_state \<Rightarrow> reply \<Rightarrow> ca_state prog" where
  "ca_save_answer env s r = (case r of
     Resolved res \<Rightarrow> (case res_data res of Some _ \<Rightarrow> ca_saved env s | None \<Rightarrow> ca_failed type_error)
   | Rejected err \<Rightarrow> ca_failed err)"

lemma ca_save_shape:
  "ca_save env s = SetSt (ca_formError_update (\<lambda>_. JStr []))
     (case ca_payload env (ca_form s) of
        Some p \<Rightarrow> Request (ca_save_request s p) (ca_save_answer env s)
      | None \<Rightarrow> ca_failed type_error)"
proof -
  have "js_get (ca_editing s) ''uid'' = Some (js_oget (ca_editing s) ''uid'')" if "truthy (ca_editing s)"
    using that nullish_not_truthy by (auto simp: js_get_def js_oget_def)
  then show ?thesis
    by (auto simp: ca_save_def ca_save_request_def ca_save_answer_def api call_def fun_eq_iff
        split: option.split reply.split)
qed

lemma ca_save_cases:
  assumes "rendered c = Some (st c)" "cookie_ok (cookie c)"
    and "run (CalendarView env td n) c (UserDo CaSave #
      (if ca_payload env (ca_form (st c)) = None then [] else [Answer (length (pend c)) r])) = Some c'"
  shows "case (ca_payload env (ca_form (st c)), r) of
      (Some p, Resolved res) \<Rightarrow>
        (if nullish res then map wire (sent c') = map wire (sent c) @ [wire (ca_save_request (st c) p)] \<and>
           truthy (ca_formError (st c')) \<and> (st c')\<lparr>ca_formError := ca_formError (st c)\<rparr> = st c
         else map wire (sent c') = map wire (sent c) @
             [wire (ca_save_request (st c) p), wire (ca_list_request env (st c))] \<and>
           \<not> ca_showForm (st c') \<and> ca_editing (st c') = Null \<and> ca_form (st c') = ca_empty_form)
    | (Some p, Rejected _) \<Rightarrow> map wire (sent c') = map wire (sent c) @ [wire (ca_save_request (st c) p)] \<and>
        truthy (ca_formError (st c')) \<and> (st c')\<lparr>ca_formError := ca_formError (st c)\<rparr> = st c
    | (None, _) \<Rightarrow> sent c' = sent c \<and>
        truthy (ca_formError (st c')) \<and> (st c')\<lparr>ca_formError := ca_formError (st c)\<rparr> = st c"
proof (cases "ca_payload env (ca_form (st c))")
  case None
  with assms show ?thesis
    by (auto simp: ca_save_shape ca_failed_def ca_settle truthy_err_text split: if_splits reply.split)
next
  case (Some p)
  have h: "handle (CalendarView env td n) CaSave (st c) = SetSt (ca_formError_update (\<lambda>_. JStr []))
      (Request (ca_save_request (st c) p) (ca_save_answer env (st c)))"
    by (simp add: ca_save_shape Some)
  have q: "after_commit (CalendarView env td n) (rendered c) ((st c)\<lparr>ca_formError := JStr []\<rparr>) = Done"
    using assms(1) by (simp add: ca_commit_def)
  from assms(3) Some have "run (CalendarView env td n) c [UserDo CaSave, Answer (length (pend c)) r] = Some c'"
    by simp
  from update_ask_and_answer [OF h q this] show ?thesis using assms(1,2) Some
    by (cases r) (auto simp: ca_save_answer_def ca_saved_def fetchEvents_def ca_failed_def ca_list_request_def
        api call_def interceptor_signed ca_settle truthy_err_text res_data_def js_get_def Let_def
        split: option.splits)
qed

text \<open>The page with its form open and no events, for the examples.\<close>

definition open_form :: "ca_form \<Rightarrow> ca_state" where
  "open_form f = (ca_initial 1762000000000)\<lparr>ca_showForm := True, ca_form := f\<rparr>"

lemma open_form_simps [simp]:
  "ca_current (open_form f) = 1762000000000" "ca_nav (open_form f) = 0" "ca_events (open_form f) = JArr []"
  "ca_showForm (open_form f)" "ca_form (open_form f) = f" "ca_editing (open_form f) = Null"
  "ca_formError (open_form f) = JStr []"
  by (simp_all add: open_form_def ca_initial_def)

definition proper_event :: "jsval \<Rightarrow> bool" where
  "proper_event e \<longleftrightarrow> \<not> nullish e \<and> js_child (js_prop e ''title'') \<noteq> None"

lemma cell_shown:
  assumes "ca_events s = JArr evs" "list_all proper_event evs"
  obtains us where "ca_cell env td s d = Some us" "\<And>e. e \<in> set (take 3 (the (getEventsForDay env (JArr evs) d))) \<Longrightarrow> offers us (CaOpen e)"
proof -
  have "list_all (\<lambda>e. \<not> nullish e) evs" using assms(2) by (auto simp: list_all_iff proper_event_def)
  note es = events_of_day [OF this, of env d]
  let ?es = "take 3 (the (getEventsForDay env (JArr evs) d))"
  have shown: "ca_event_view e \<noteq> None \<and> offers (the (ca_event_view e)) (CaOpen e)" if "e \<in> set ?es" for e
  proof -
    have "e \<in> set evs" using that by (auto simp: es dest!: in_set_takeD)
    then have "js_child (js_prop e ''title'') \<noteq> None"
      using assms(2) by (auto simp: list_all_iff proper_event_def)
    then show ?thesis by (auto simp: ca_event_view_def)
  qed
  then obtain vs where vs: "sequence (map ca_event_view ?es) = Some vs"
    using sequence_total [of ?es ca_event_view] by auto
  then have "offers (the (ca_event_view e)) (CaOpen e) \<and> the (ca_event_view e) \<in> set vs" if "e \<in> set ?es" for e
    using shown [OF that] that by (auto simp: sequence_eq_Some) (metis image_eqI imageE list.set_map option.sel)
  then have "list_ex (\<lambda>u. offers u (CaOpen e)) vs" if "e \<in> set ?es" for e
    using that unfolding list_ex_iff by blast
  then have o: "offers (Clickable (CaDay d) (us @ vs @ ws)) (CaOpen e)" if "e \<in> set ?es" for e us ws
    using that by simp
  let ?n = "length (the (getEventsForDay env (JArr evs) d))"
  have "ca_cell env td s d = Some (Clickable (CaDay d)
      ((shown (\<not> same_month env d (ca_current s)) [Icon ''other month''] @
        shown (td d) [Icon ''today''] @ [Txt (format_date env ''d'' d)]) @ vs @
       shown (3 < ?n) [Txt (''+'' @ nat_str (?n - 3) @ '' more'')]))"
    using vs by (simp add: ca_cell_def assms(1) es)
  from that [OF this o] show thesis by blast
qed

lemma grid_view:
  assumes "ca_current s = 1762000000000" "ca_events s = JArr evs" "list_all proper_event evs"
    and "js_child (ca_formError s) \<noteq> None"
  obtains ds us where "grid_days utc_env 1762000000000 = Some ds"
    "sequence (map (ca_cell utc_env td s) ds) = Some us"
    "\<And>e. list_ex (\<lambda>u. offers u e) us \<Longrightarrow> enabled (CalendarView utc_env td n) s e"
    "ca_showForm s \<Longrightarrow> enabled (CalendarView utc_env td n) s CaSave"
proof -
  obtain ds where ds: "grid_days utc_env 1762000000000 = Some ds" using calendar_grid_days [OF utc_laws] by blast
  have "ca_cell utc_env td s d \<noteq> None" for d using cell_shown [OF assms(2,3)] by (metis option.discI)
  then obtain us where us: "sequence (map (ca_cell utc_env td s) ds) = Some us"
    using sequence_total [of ds "ca_cell utc_env td s"] by auto
  obtain err where "shown_value (ca_formError s) (\<lambda>t. [Txt t] :: ca_event ui list) = Some err"
    using assms(4) by (auto simp: shown_value_def)
  then obtain u where u: "ca_form_view s = Some u" "offers u CaSave" by (simp add: ca_form_view_def)
  show thesis
  proof (rule that [OF ds us])
    show "enabled (CalendarView utc_env td n) s e" if "list_ex (\<lambda>u. offers u e) us" for e
      using that assms(1) ds us u(1) by (simp add: enabled_def ca_view_def)
    show "enabled (CalendarView utc_env td n) s CaSave" if "ca_showForm s"
      using that assms(1) ds us u by (simp add: enabled_def ca_view_def)
  qed
qed

lemma cell_enabled:
  assumes "ca_current s = 1762000000000" "ca_events s = JArr evs" "list_all proper_event evs"
    and "js_child (ca_formError s) \<noteq> None"
    and "grid_days utc_env 1762000000000 = Some ds" "d \<in> set ds"
    and "e \<in> set (take 3 (the (getEventsForDay utc_env (JArr evs) d)))"
  shows "enabled (CalendarView utc_env td n) s (CaOpen e)"
proof -
  obtain us where us: "sequence (map (ca_cell utc_env td s) ds) = Some us"
      "\<And>e. list_ex (\<lambda>u. offers u e) us \<Longrightarrow> enabled (CalendarView utc_env td n) s e"
    using grid_view [OF assms(1-4), where td = td and n = n] assms(5) by (metis option.inject)
  obtain u where u: "ca_cell utc_env td s d = Some u" "offers u (CaOpen e)"
    using cell_shown [OF assms(2,3)] assms(7) by metis
  have "Some u \<in> set (map Some us)"
    using us(1) u(1) assms(6) by (metis image_eqI list.set_map sequence_eq_Some)
  with u(2) show ?thesis by (intro us(2)) (auto simp: list_ex_iff)
qed

text \<open>
  C35. Saving the form. When the start or the end is not a date, nothing is sent and a message is shown.
  Otherwise exactly the form goes out, title, description and location as typed and start and end as
  ISO texts, to the event being edited or as a new one; when the server accepts it the form
  closes and is emptied and the month is fetched again, and on any failure the form stays open with
  everything typed and a non-empty message.
\<close>

theorem ca_save_outcome:
  assumes "rendered c = Some (st c)" "cookie_ok (cookie c)" "f = ca_form (st c)"
    and "run (CalendarView env td n) c (UserDo CaSave #
      (if parse_date env (ca_start f) = None \<or> parse_date env (ca_end f) = None then []
       else [Answer (length (pend c)) r])) = Some c'"
  shows "let s = st c; refused = (truthy (ca_formError (st c')) \<and> (st c')\<lparr>ca_formError := ca_formError s\<rparr> = s) in
    case (parse_date env (ca_start f), parse_date env (ca_end f)) of
      (Some t, Some u) \<Rightarrow>
        (let body = Json (JObj [(''title'', ca_title f), (''description'', ca_description f),
               (''location'', ca_location f), (''start'', JStr (to_iso env t)), (''end'', JStr (to_iso env u))]);
             save = (if truthy (ca_editing s)
               then (''patch'', ''/calendar/events/'' @ js_string (js_oget (ca_editing s) ''uid''), body)
               else (''post'', ''/calendar/events'', body));
             month = (''get'', ''/calendar/events?start='' @
               format_date env ''yyyy-MM-dd'' (start_of_month env (ca_current s)) @ ''&end='' @
               format_date env ''yyyy-MM-dd'' (end_of_month env (ca_current s)), NoBody) in
         case r of
           Resolved res \<Rightarrow>
             (if nullish res then map wire (sent c') = map wire (sent c) @ [save] \<and> refused
              else map wire (sent c') = map wire (sent c) @ [save, month] \<and>
                \<not> ca_showForm (st c') \<and> ca_editing (st c') = Null \<and>
                ca_form (st c') = \<lparr>ca_title = JStr [], ca_start = JStr [], ca_end = JStr [],
                  ca_description = JStr [], ca_location = JStr []\<rparr>)
         | Rejected _ \<Rightarrow> map wire (sent c') = map wire (sent c) @ [save] \<and> refused)
    | _ \<Rightarrow> sent c' = sent c \<and> refused"
proof -
  have none: "ca_payload env f = None \<longleftrightarrow> parse_date env (ca_start f) = None \<or> parse_date env (ca_end f) = None"
    by (auto simp: ca_payload_def bind_eq_None_conv)
  have "run (CalendarView env td n) c (UserDo CaSave #
      (if ca_payload env (ca_form (st c)) = None then [] else [Answer (length (pend c)) r])) = Some c'"
    using assms(3,4) none by simp
  from ca_save_cases [OF assms(1,2) this] show ?thesis
    unfolding assms(3) ca_payload_def ca_save_request_def ca_list_request_def Let_def
    by (cases "parse_date env (ca_start (ca_form (st c)))"; cases "parse_date env (ca_end (ca_form (st c)))"; cases r)
      (auto simp: ca_empty_form_def)
qed

theorem ca_save_outcome_witness:
  "let f = ca_empty_form\<lparr>ca_title := JStr ''Tea'', ca_start := JStr ''2025-11-03T09:00:00Z'', ca_end := JStr ''soon''\<rparr>;
       c = (mount_config (CalendarView utc_env (\<lambda>_. False) 0) [] ''/calendar'')
         \<lparr>st := open_form f, rendered := Some (open_form f)\<rparr>
   in \<exists>c'. run (CalendarView utc_env (\<lambda>_. False) 0) c [UserDo CaSave] = Some c' \<and>
      sent c' = [] \<and> truthy (ca_formError (st c')) \<and> ca_form (st c') = f"
proof -
  let ?C = "CalendarView utc_env (\<lambda>_. False) 0"
  let ?f = "ca_empty_form\<lparr>ca_title := JStr ''Tea'', ca_start := JStr ''2025-11-03T09:00:00Z'', ca_end := JStr ''soon''\<rparr>"
  let ?c = "(mount_config ?C [] ''/calendar'')\<lparr>st := open_form ?f, rendered := Some (open_form ?f)\<rparr>"
  have start: "parse_date utc_env (ca_start ?f) = Some 1762160400000" by (simp add: utc_values)
  have no: "parse_date utc_env (ca_end ?f) = None" by (simp add: utc_env_def utc_parse_def)
  have "enabled ?C (st ?c) CaSave"
    by (rule grid_view [of "st ?c" "[]" "\<lambda>_. False" 0]) simp_all
  then obtain c' where c': "run ?C ?c [UserDo CaSave] = Some c'" by (simp add: mount_config_def)
  moreover from ca_save_outcome [of ?c ?f utc_env "\<lambda>_. False" 0 "Resolved Null" c'] no start c'
  have "sent c' = [] \<and> truthy (ca_formError (st c')) \<and> (st c')\<lparr>ca_formError := JStr []\<rparr> = open_form ?f"
    by (simp add: mount_config_def)
  moreover from this have "ca_form ((st c')\<lparr>ca_formError := JStr []\<rparr>) = ca_form (open_form ?f)" by (simp only:)
  then have "ca_form (st c') = ?f" by simp
  ultimately show ?thesis unfolding Let_def by blast
qed

text \<open>
  C36. Editing: opening an event and saving it untouched sends one request to that event, whose body is
  exactly the title, description and location the server sent and its start and end cut to whole
  minutes, provided that the text of a minute parses back to that minute in the browser's time
  zone (it does not in the hour a change of clocks repeats). Recurrence rule, attendees and all-day flag are not
  sent, and the server clears them.
\<close>

theorem ca_edit_roundtrip:
  assumes "rendered c = Some (st c)" "cookie_ok (cookie c)"
    and "parse_date env (js_prop (JObj kvs) ''start'') = Some t" "parse_date env (js_prop (JObj kvs) ''end'') = Some u"
    and "parse_date env (minute_text env t) = Some (t - t mod 60000)"
      "parse_date env (minute_text env u) = Some (u - u mod 60000)"
    and "run (CalendarView env td n) c [UserDo (CaOpen (JObj kvs)), UserDo CaSave] = Some c'"
  shows "\<exists>q. sent c' = sent c @ [q] \<and>
    wire q = (''patch'', ''/calendar/events/'' @ js_string (js_prop (JObj kvs) ''uid''),
      Json (JObj [(''title'', js_or (js_prop (JObj kvs) ''title'') (JStr [])),
        (''description'', js_or (js_prop (JObj kvs) ''description'') (JStr [])),
        (''location'', js_or (js_prop (JObj kvs) ''location'') (JStr [])),
        (''start'', JStr (to_iso env (t - t mod 60000))), (''end'', JStr (to_iso env (u - u mod 60000)))]))"
proof -
  let ?C = "CalendarView env td n" and ?e = "JObj kvs"
  let ?f = "\<lparr>ca_title = js_or (js_prop ?e ''title'') (JStr []), ca_start = minute_text env t,
    ca_end = minute_text env u, ca_description = js_or (js_prop ?e ''description'') (JStr []),
    ca_location = js_or (js_prop ?e ''location'') (JStr [])\<rparr>"
  let ?s = "(st c)\<lparr>ca_editing := ?e, ca_form := ?f, ca_showForm := True\<rparr>"
  obtain c1 where c1: "step ?C c (UserDo (CaOpen ?e)) = Some c1" and c2: "step ?C c1 (UserDo CaSave) = Some c'"
    using assms(7) by (auto simp: bind_Some_iff simp del: step.simps)
  have m: "mounted c" using c1 by (auto split: if_splits)
  have "ca_event_form env ?e = Some ?f" by (simp add: ca_event_form_def assms(3,4) del: js_prop.simps)
  then have "c1 = c\<lparr>st := ?s, rendered := Some ?s\<rparr>"
    using c1 m assms(1) by (auto simp: openEvent_def ca_settle split: if_splits)
  moreover have p: "ca_payload env ?f = Some (JObj [(''title'', js_or (js_prop ?e ''title'') (JStr [])),
        (''description'', js_or (js_prop ?e ''description'') (JStr [])),
        (''location'', js_or (js_prop ?e ''location'') (JStr [])),
        (''start'', JStr (to_iso env (t - t mod 60000))), (''end'', JStr (to_iso env (u - u mod 60000)))])"
    by (simp add: ca_payload_def assms(5,6))
  ultimately show ?thesis
    using c2 m assms(2) by (auto simp: ca_save_shape p ca_settle interceptor_signed ca_save_request_def
        simp del: js_prop.simps split: if_splits)
qed

definition tea :: jsval where
  "tea = JObj [(''uid'', JStr ''7''), (''title'', JStr ''Tea''),
     (''start'', JStr ''2025-11-03T09:00:00Z''), (''end'', JStr ''2025-11-03T10:00:00Z'')]"

lemma tea_offered:
  assumes "ca_current s = 1762000000000" "ca_events s = JArr [tea]" "ca_formError s = JStr []"
  shows "enabled (CalendarView utc_env td n) s (CaOpen tea)" "ca_showForm s \<Longrightarrow> enabled (CalendarView utc_env td n) s CaSave"
proof -
  have p: "list_all proper_event [tea]" by (simp add: proper_event_def tea_def)
  obtain ds where ds: "grid_days utc_env 1762000000000 = Some ds"
      "{utc_day (start_of_month utc_env 1762000000000)..utc_day (end_of_month utc_env (start_of_month utc_env 1762000000000))}
        \<subseteq> set (map utc_day ds)"
    using calendar_grid_days [OF utc_laws] by blast
  have n: "utc_day (start_of_month utc_env 1762000000000) = 20393"
      "utc_day (end_of_month utc_env (start_of_month utc_env 1762000000000)) = 20422"
      "parse_date utc_env (js_prop tea ''start'') = Some 1762160400000" "utc_day 1762160400000 = 20395"
    by (simp_all add: utc_values tea_def)
  have "20395 \<in> set (map utc_day ds)" using ds(2) unfolding n by (rule subsetD) simp
  then obtain d where d: "d \<in> set ds" "utc_day d = 20395" by auto
  have "same_day utc_env 1762160400000 d" using d(2) n(4) by (simp add: utc_env_def)
  then have "tea \<in> set (take 3 (the (getEventsForDay utc_env (JArr [tea]) d)))"
    using events_of_day [of "[tea]" utc_env d] n(3) by (simp add: tea_def)
  from cell_enabled [OF assms(1,2) p _ ds(1) d(1) this] assms(3)
  show "enabled (CalendarView utc_env td n) s (CaOpen tea)" by simp
  show "ca_showForm s \<Longrightarrow> enabled (CalendarView utc_env td n) s CaSave"
    by (rule grid_view [OF assms(1,2) p, where td = td and n = n]) (simp_all add: assms(3))
qed

theorem ca_edit_roundtrip_witness:
  "let s = (ca_initial 1762000000000)\<lparr>ca_events := JArr [tea]\<rparr>;
       c = (mount_config (CalendarView utc_env (\<lambda>_. False) 0) [] ''/calendar'')\<lparr>st := s, rendered := Some s\<rparr>
   in \<exists>c' q. run (CalendarView utc_env (\<lambda>_. False) 0) c [UserDo (CaOpen tea), UserDo CaSave] = Some c' \<and>
      sent c' = [q] \<and> req_url q = ''/calendar/events/7''"
proof -
  let ?C = "CalendarView utc_env (\<lambda>_. False) 0"
  let ?s = "(ca_initial 1762000000000)\<lparr>ca_events := JArr [tea]\<rparr>"
  let ?c = "(mount_config ?C [] ''/calendar'')\<lparr>st := ?s, rendered := Some ?s\<rparr>"
  let ?kvs = "[(''uid'', JStr ''7''), (''title'', JStr ''Tea''),
     (''start'', JStr ''2025-11-03T09:00:00Z''), (''end'', JStr ''2025-11-03T10:00:00Z'')]"
  let ?t = "1762160400000 :: int" and ?u = "1762164000000 :: int"
  have times: "parse_date utc_env (js_prop (JObj ?kvs) ''start'') = Some ?t"
      "parse_date utc_env (js_prop (JObj ?kvs) ''end'') = Some ?u"
      "parse_date utc_env (minute_text utc_env ?t) = Some (?t - ?t mod 60000)"
      "parse_date utc_env (minute_text utc_env ?u) = Some (?u - ?u mod 60000)"
    by (simp_all add: utc_values)
  have "ca_event_form utc_env tea \<noteq> None" by (simp add: ca_event_form_def tea_def utc_values)
  then obtain f where f: "ca_event_form utc_env tea = Some f" by blast
  let ?s1 = "?s\<lparr>ca_editing := tea, ca_form := f, ca_showForm := True\<rparr>"
  have "st (settle commit_limit ?C (exec (handle ?C (CaOpen tea) (st ?c)) ?c)) = ?s1"
    by (simp add: openEvent_def f ca_settle mount_config_def)
  moreover have "enabled ?C ?s1 CaSave" by (rule tea_offered(2)) (simp_all add: ca_initial_def)
  moreover have "enabled ?C ?s (CaOpen tea)" by (rule tea_offered(1)) (simp_all add: ca_initial_def)
  ultimately have "\<exists>c'. run ?C ?c [UserDo (CaOpen tea), UserDo CaSave] = Some c'"
    by (intro two_actions) (simp_all add: mount_config_def)
  then obtain c' where c': "run ?C ?c [UserDo (CaOpen (JObj ?kvs)), UserDo CaSave] = Some c'"
    unfolding tea_def by blast
  have "rendered ?c = Some (st ?c)" "cookie_ok (cookie ?c)" by (simp_all add: mount_config_def)
  from ca_edit_roundtrip [OF this times c'] obtain q where "sent c' = [q]" "req_url q = ''/calendar/events/7''"
    by (auto simp: wire_def mount_config_def)
  with c' show ?thesis unfolding Let_def tea_def by blast
qed

end
