(* ===== verification/Compose.thy ===== *)
theory Compose imports Api Busy_Flag begin

text \<open>
  \<open>web/src/components/Compose.jsx\<close>: writing, replying and forwarding, with autosave and
  attachments. The route parameter and the location state come from the router (\<open>CpRoute\<close>);
  \<open>cp_nav\<close> counts the navigations, so that two location states with the same content are different
  objects to the dependency arrays. The refs \<open>loadedDraftId\<close> and the handle \<open>t\<close> of the autosave
  effect are the fields \<open>cp_loaded\<close> and \<open>cp_timer\<close>; \<open>savedAt\<close> is whether a save succeeded.

  Parameters: \<open>dom_text\<close>, the \<open>textContent\<close> of the document \<open>DOMParser\<close> makes of a string, which
  \<open>htmlToText\<close> of \<open>RichEditor.jsx\<close> uses, and \<open>date_time\<close>. The editor itself is the change event
  \<open>CpHtml\<close>.
\<close>

record cp_state =
  cp_route :: jsval
  cp_location :: jsval
  cp_nav :: nat
  cp_draftId :: jsval
  cp_to :: jsval
  cp_cc :: jsval
  cp_bcc :: jsval
  cp_subject :: jsval
  cp_html :: jsval
  cp_attachments :: jsval
  cp_sending :: bool
  cp_saved :: bool
  cp_error :: jsval
  cp_loaded :: jsval
  cp_timer :: "nat option"

datatype cp_event =
    CpRoute jsval jsval
  | CpClose
  | CpSend
  | is_CpTo: CpTo string
  | is_CpCc: CpCc string
  | is_CpBcc: CpBcc string
  | is_CpSubject: CpSubject string
  | is_CpHtml: CpHtml string
  | is_CpFiles: CpFiles "jsval list"
  | is_CpDrop: CpDrop "jsval list"
  | CpDiscard
  | CpRemove jsval

definition replyTo :: "cp_state \<Rightarrow> jsval" where
  "replyTo s = js_oget (cp_location s) ''replyTo''"

definition forwardTo :: "cp_state \<Rightarrow> jsval" where
  "forwardTo s = js_oget (cp_location s) ''forwardTo''"

text \<open>Lines 17 to 31.\<close>

definition cp_initial :: "jsval \<Rightarrow> jsval \<Rightarrow> cp_state" where
  "cp_initial route location =
     (let reply = js_oget location ''replyTo''; forward = js_oget location ''forwardTo'' in
      \<lparr>cp_route = route, cp_location = location, cp_nav = 0,
       cp_draftId = js_or route Null,
       cp_to = (if truthy reply then js_or (js_oget (js_prop reply ''from'') ''email'') (JStr []) else JStr []),
       cp_cc = JStr [], cp_bcc = JStr [],
       cp_subject =
         (if truthy reply then JStr (''Re: '' @ js_string (js_or (js_prop reply ''subject'') (JStr [])))
          else if truthy forward then JStr (''Fwd: '' @ js_string (js_or (js_prop forward ''subject'') (JStr [])))
          else JStr []),
       cp_html = JStr [], cp_attachments = JArr [], cp_sending = False, cp_saved = False,
       cp_error = JStr [], cp_loaded = Null, cp_timer = None\<rparr>)"

section \<open>Quoting\<close>

text \<open>\<open>v.replace(/</g, '&lt;').replace(/>/g, '&gt;').replace(/\n/g, '<br/>')\<close>.\<close>

definition escape_text :: "string \<Rightarrow> string" where
  "escape_text t = js_replace_char CHR 0x0A ''<br/>''
     (js_replace_char CHR ''>'' ''&gt;'' (js_replace_char CHR ''<'' ''&lt;'' t))"

text \<open>Lines 35 to 39 and 43 to 47; only a string has \<open>replace\<close>.\<close>

definition quoted_body :: "jsval \<Rightarrow> jsval option" where
  "quoted_body msg =
     (let h = js_prop msg ''html_body''; p = js_prop msg ''plain_text'';
          snippet = js_or (js_prop msg ''snippet'') (JStr []) in
      if truthy h then Some h
      else if truthy p
      then (case p of JStr t \<Rightarrow> Some (js_or (JStr (escape_text t)) snippet) | _ \<Rightarrow> None)
      else Some snippet)"

definition reply_html :: "locale_fns \<Rightarrow> jsval \<Rightarrow> jsval option" where
  "reply_html loc msg = do {
     quoted \<leftarrow> quoted_body msg;
     let from = js_prop msg ''from'';
     Some (JStr (''<p></p><blockquote>On '' @ date_time loc (js_prop msg ''date'') @ '', '' @
       js_string (js_or (js_oget from ''name'') (js_oget from ''email'')) @ '' wrote:<br/>'' @
       js_string quoted @ ''</blockquote>'')) }"

definition forward_html :: "locale_fns \<Rightarrow> jsval \<Rightarrow> jsval option" where
  "forward_html loc msg = do {
     body \<leftarrow> quoted_body msg;
     let from = js_prop msg ''from'';
     let email = js_or (js_oget from ''email'') (JStr []);
     Some (JStr (''<p></p><div><br/>---------- Forwarded message ----------<br/>From: '' @
       js_string (js_or (js_oget from ''name'') email) @ '' &lt;'' @ js_string email @
       ''&gt;<br/>Date: '' @ date_time loc (js_prop msg ''date'') @ ''<br/>Subject: '' @
       js_string (js_or (js_prop msg ''subject'') (JStr [])) @ ''<br/><br/>'' @
       js_string body @ ''</div>'')) }"

definition set_html :: "jsval option \<Rightarrow> cp_state prog \<Rightarrow> cp_state prog" where
  "set_html h p = attempt h (\<lambda>v. SetSt (cp_html_update (\<lambda>_. v)) p) uncaught"

text \<open>The effect of lines 33 to 50.\<close>

definition cp_quote :: "locale_fns \<Rightarrow> cp_state \<Rightarrow> cp_state prog" where
  "cp_quote loc s =
     (let forward = (if truthy (forwardTo s) then set_html (forward_html loc (forwardTo s)) Done else Done) in
      if truthy (replyTo s) then set_html (reply_html loc (replyTo s)) forward else forward)"

section \<open>Loading and saving\<close>

text \<open>The callback of lines 56 to 62: fields set before a TypeError stay set.\<close>

definition cp_fill :: "jsval \<Rightarrow> jsval \<Rightarrow> cp_state prog" where
  "cp_fill route msg =
     (let failed = (\<lambda>err. Perform (ConsoleError ''Draft fetch failed:'' err) Done) in
      attempt (do { v \<leftarrow> js_get msg ''to''; show_recipients v }) (\<lambda>to.
        SetSt (cp_to_update (\<lambda>_. JStr to))
      (attempt (show_recipients (js_prop msg ''cc'')) (\<lambda>cc.
        SetSt (cp_cc_update (\<lambda>_. JStr cc))
      (attempt (show_recipients (js_prop msg ''bcc'')) (\<lambda>bcc.
        SetSt (cp_bcc_update (\<lambda>_. JStr bcc))
        (SetSt (cp_subject_update (\<lambda>_. js_or (js_prop msg ''subject'') (JStr [])))
        (SetSt (cp_html_update (\<lambda>_. js_or (js_prop msg ''html_body'') (JStr [])))
        (SetSt (cp_loaded_update (\<lambda>_. route)) Done)))) failed)) failed)) failed)"

definition cp_load :: "cp_state \<Rightarrow> cp_state prog" where
  "cp_load s =
     (if truthy (cp_route s) \<and> \<not> truthy (replyTo s) \<and> \<not> truthy (forwardTo s) \<and> cp_loaded s \<noteq> cp_route s
      then getMessage (cp_route s) (cp_fill (cp_route s))
        (\<lambda>err. Perform (ConsoleError ''Draft fetch failed:'' err) Done)
      else Done)"

definition list_attachments :: "jsval \<Rightarrow> cp_state prog" where
  "list_attachments i = listDraftAttachments i
     (\<lambda>data. SetSt (cp_attachments_update (\<lambda>_. data)) Done) (\<lambda>_. Done)"

definition htmlToText :: "(string \<Rightarrow> string) \<Rightarrow> jsval \<Rightarrow> string" where
  "htmlToText dom_text html = dom_text (js_string (js_or html (JStr [])))"

text \<open>Lines 71 to 78.\<close>

definition cp_payload :: "(string \<Rightarrow> string) \<Rightarrow> cp_state \<Rightarrow> jsval" where
  "cp_payload dom_text s = JObj [
     (''to'', parseRecipients (cp_to s)), (''cc'', parseRecipients (cp_cc s)),
     (''bcc'', parseRecipients (cp_bcc s)), (''subject'', cp_subject s), (''html_body'', cp_html s),
     (''plain_text'', JStr (htmlToText dom_text (cp_html s)))]"

text \<open>Lines 80 to 93.\<close>

definition persist :: "(string \<Rightarrow> string) \<Rightarrow> cp_state \<Rightarrow> cp_state prog" where
  "persist dom_text s =
     (let saved = SetSt (cp_saved_update (\<lambda>_. True)) Done in
      if \<not> truthy (cp_to s) \<and> \<not> truthy (cp_subject s) \<and> \<not> truthy (cp_html s) then Done
      else if truthy (cp_draftId s)
      then updateDraft (cp_draftId s) (cp_payload dom_text s) (\<lambda>_. saved) (\<lambda>_. Done)
      else createDraft (cp_payload dom_text s)
        (\<lambda>d. if truthy (js_oget d ''id'') then SetSt (cp_draftId_update (\<lambda>_. js_oget d ''id'')) saved else saved)
        (\<lambda>_. Done))"

text \<open>The values the autosave effect of lines 96 to 99 depends on.\<close>

definition cp_content :: "cp_state \<Rightarrow> jsval \<times> jsval \<times> jsval \<times> jsval \<times> jsval \<times> jsval" where
  "cp_content s = (cp_draftId s, cp_to s, cp_cc s, cp_bcc s, cp_subject s, cp_html s)"

definition autosave :: "(string \<Rightarrow> string) \<Rightarrow> cp_state \<Rightarrow> cp_state prog" where
  "autosave dom_text s =
     (let arm = SetTimer False (\<lambda>h. persist dom_text s) (\<lambda>h. SetSt (cp_timer_update (\<lambda>_. Some h)) Done) in
      case cp_timer s of Some t \<Rightarrow> ClearTimer t arm | None \<Rightarrow> arm)"

text \<open>Objects in a dependency array are compared by identity.\<close>

definition identity :: "nat \<Rightarrow> jsval \<Rightarrow> jsval \<times> nat" where
  "identity nav v = (v, case v of JObj _ \<Rightarrow> nav | JArr _ \<Rightarrow> nav | _ \<Rightarrow> 0)"

definition cp_origin :: "cp_state \<Rightarrow> (jsval \<times> nat) \<times> (jsval \<times> nat)" where
  "cp_origin s = (identity (cp_nav s) (replyTo s), identity (cp_nav s) (forwardTo s))"

text \<open>The four effects, each run when its dependencies changed.\<close>

definition cp_commit ::
  "(string \<Rightarrow> string) \<Rightarrow> locale_fns \<Rightarrow> cp_state option \<Rightarrow> cp_state \<Rightarrow> cp_state prog" where
  "cp_commit dom_text loc old s =
     (let unless_same = (\<lambda>b p. if b then Done else p) in
      Fork (unless_same (map_option cp_origin old = Some (cp_origin s)) (cp_quote loc s))
      (Fork (unless_same (map_option (\<lambda>u. (cp_route u, cp_origin u)) old = Some (cp_route s, cp_origin s)) (cp_load s))
      (Fork (unless_same (map_option cp_draftId old = Some (cp_draftId s))
              (if truthy (cp_draftId s) then list_attachments (cp_draftId s) else Done))
        (unless_same (map_option cp_content old = Some (cp_content s)) (autosave dom_text s)))))"

definition cp_cleanup :: "cp_state \<Rightarrow> cp_state prog" where
  "cp_cleanup s = (case cp_timer s of Some t \<Rightarrow> ClearTimer t Done | None \<Rightarrow> Done)"

section \<open>Sending, discarding, attachments\<close>

definition send_failed :: "jsval \<Rightarrow> cp_state prog" where
  "send_failed err =
     SetSt (cp_error_update (\<lambda>_. err_text err (js_or (js_prop err ''message'') (JStr ''Failed to send''))))
     (SetSt (cp_sending_update (\<lambda>_. False)) Done)"

definition send_now :: "jsval \<Rightarrow> cp_state prog" where
  "send_now i = sendDraft i
     (\<lambda>_. Perform (Navigate ''/'' Undefined) (SetSt (cp_sending_update (\<lambda>_. False)) Done)) send_failed"

text \<open>Lines 101 to 124.\<close>

definition handleSend :: "(string \<Rightarrow> string) \<Rightarrow> cp_state \<Rightarrow> cp_state prog" where
  "handleSend dom_text s =
     (if js_trim (htmlToText dom_text (cp_html s)) = []
      then SetSt (cp_error_update (\<lambda>_. JStr ''Please add a message body before sending.'')) Done
      else SetSt (\<lambda>s. s\<lparr>cp_sending := True, cp_error := JStr []\<rparr>)
        (if \<not> truthy (cp_draftId s)
         then createDraft (cp_payload dom_text s)
           (\<lambda>d. attempt (js_get d ''id'')
              (\<lambda>i. SetSt (cp_draftId_update (\<lambda>_. i)) (send_now i)) send_failed)
           send_failed
         else updateDraft (cp_draftId s) (cp_payload dom_text s) (\<lambda>_. send_now (cp_draftId s)) send_failed))"

definition handleDiscard :: "cp_state \<Rightarrow> cp_state prog" where
  "handleDiscard s =
     (let back = Perform NavigateBack Done in
      if truthy (cp_draftId s) then deleteMessage (cp_draftId s) (\<lambda>_. back) (\<lambda>_. back) else back)"

definition ensureDraft :: "(string \<Rightarrow> string) \<Rightarrow> cp_state \<Rightarrow> (jsval \<Rightarrow> cp_state prog) \<Rightarrow> cp_state prog" where
  "ensureDraft dom_text s k =
     (if truthy (cp_draftId s) then k (cp_draftId s)
      else createDraft (cp_payload dom_text s)
        (\<lambda>d. attempt (js_get d ''id'') (\<lambda>i. SetSt (cp_draftId_update (\<lambda>_. i)) (k i)) uncaught)
        uncaught)"

definition upload_error :: "jsval \<Rightarrow> jsval \<Rightarrow> jsval" where
  "upload_error f err = JStr (''Attachment \"'' @ js_string (js_oget f ''name'') @ ''\" failed: '' @
     js_string (err_text err (js_prop err ''message'')))"

primrec upload_all :: "jsval \<Rightarrow> jsval list \<Rightarrow> cp_state prog" where
  "upload_all i [] = list_attachments i"
| "upload_all i (f # fs) = uploadDraftAttachment i f (\<lambda>_. upload_all i fs)
     (\<lambda>err. SetSt (cp_error_update (\<lambda>_. upload_error f err)) (upload_all i fs))"

definition handleFiles :: "(string \<Rightarrow> string) \<Rightarrow> cp_state \<Rightarrow> jsval list \<Rightarrow> cp_state prog" where
  "handleFiles dom_text s files = ensureDraft dom_text s (\<lambda>i. upload_all i files)"

definition without_id :: "jsval \<Rightarrow> jsval \<Rightarrow> jsval" where
  "without_id i v = (case v of
     JArr xs \<Rightarrow> JArr (filter (\<lambda>x. js_oget x ''id'' \<noteq> i) xs) | _ \<Rightarrow> v)"

definition removeAttachment :: "cp_state \<Rightarrow> jsval \<Rightarrow> cp_state prog" where
  "removeAttachment s attID = deleteDraftAttachment (cp_draftId s) attID
     (\<lambda>_. SetSt (cp_attachments_update (without_id attID)) Done) uncaught"

fun cp_handle :: "(string \<Rightarrow> string) \<Rightarrow> cp_event \<Rightarrow> cp_state \<Rightarrow> cp_state prog" where
  "cp_handle dom_text (CpRoute r l) s =
     SetSt (\<lambda>s. s\<lparr>cp_route := r, cp_location := l, cp_nav := Suc (cp_nav s)\<rparr>) Done"
| "cp_handle dom_text CpClose s = Perform NavigateBack Done"
| "cp_handle dom_text CpSend s = handleSend dom_text s"
| "cp_handle dom_text (CpTo v) s = SetSt (cp_to_update (\<lambda>_. JStr v)) Done"
| "cp_handle dom_text (CpCc v) s = SetSt (cp_cc_update (\<lambda>_. JStr v)) Done"
| "cp_handle dom_text (CpBcc v) s = SetSt (cp_bcc_update (\<lambda>_. JStr v)) Done"
| "cp_handle dom_text (CpSubject v) s = SetSt (cp_subject_update (\<lambda>_. JStr v)) Done"
| "cp_handle dom_text (CpHtml v) s = SetSt (cp_html_update (\<lambda>_. JStr v)) Done"
| "cp_handle dom_text (CpFiles fs) s = handleFiles dom_text s fs"
| "cp_handle dom_text (CpDrop fs) s = (if fs = [] then Done else handleFiles dom_text s fs)"
| "cp_handle dom_text CpDiscard s = handleDiscard s"
| "cp_handle dom_text (CpRemove i) s = removeAttachment s i"

section \<open>The view\<close>

text \<open>\<open>Math.round((v || 0) / 1024)\<close>.\<close>

definition rounded_kb :: "jsval \<Rightarrow> string" where
  "rounded_kb v = (case js_number (js_or v (JNum 0)) of
     Some n \<Rightarrow> int_str ((n + 512) div 1024) | None \<Rightarrow> ''NaN'')"

definition cp_attachment_view :: "jsval \<Rightarrow> cp_event ui option" where
  "cp_attachment_view a = do {
     i \<leftarrow> js_get a ''id'';
     name \<leftarrow> js_child (js_prop a ''filename'');
     Some (Box [Icon ''Paperclip'', Txt (name @ '' ('' @ rounded_kb (js_prop a ''size'') @ ''KB)''),
       Btn False (CpRemove i) [Icon ''Trash2'']]) }"

definition no_recipients :: "jsval \<Rightarrow> bool" where
  "no_recipients to \<longleftrightarrow> js_oget (parseRecipients to) ''length'' = JNum 0"

definition cp_view :: "cp_state \<Rightarrow> cp_event ui option" where
  "cp_view s = do {
     err \<leftarrow> shown_value (cp_error s) (\<lambda>t. [Txt t]);
     n \<leftarrow> js_get (cp_attachments s) ''length'';
     atts \<leftarrow> (if js_positive n
       then do { xs \<leftarrow> js_elems (cp_attachments s); sequence (map cp_attachment_view xs) } else Some []);
     Some (Box
       ([Field Undefined is_CpDrop, Btn False CpClose [Icon ''X''],
         Btn (cp_sending s \<or> no_recipients (cp_to s)) CpSend
           [Icon ''Send'', Txt (if cp_sending s then ''Sending...'' else ''Send'')],
         Txt ''Attach'', Field Undefined is_CpFiles] @
        shown (truthy (cp_draftId s)) [Btn False CpDiscard [Txt ''Discard'']] @
        shown (cp_saved s) [Txt ''Saved''] @ err @
        [Txt ''To'', Field (cp_to s) is_CpTo, Txt ''Cc'', Field (cp_cc s) is_CpCc,
         Txt ''Bcc'', Field (cp_bcc s) is_CpBcc, Txt ''Subject'', Field (cp_subject s) is_CpSubject] @
        atts @ [Field (cp_html s) is_CpHtml])) }"

definition Compose ::
  "(string \<Rightarrow> string) \<Rightarrow> locale_fns \<Rightarrow> jsval \<Rightarrow> jsval \<Rightarrow> (cp_event, cp_state) component" where
  "Compose dom_text loc route location = \<lparr>initial = cp_initial route location,
     handle = cp_handle dom_text, after_commit = cp_commit dom_text loc, cleanup = cp_cleanup,
     view = cp_view, external = \<lambda>e. (case e of CpRoute _ _ \<Rightarrow> True | _ \<Rightarrow> False)\<rparr>"

lemma Compose_simps [simp]:
  "initial (Compose dt loc r l) = cp_initial r l" "handle (Compose dt loc r l) = cp_handle dt"
  "after_commit (Compose dt loc r l) = cp_commit dt loc" "cleanup (Compose dt loc r l) = cp_cleanup"
  "view (Compose dt loc r l) = cp_view" "external (Compose dt loc r l) (CpRoute a b)"
  by (simp_all add: Compose_def)

lemmas cp_defs = cp_commit_def cp_quote_def set_html_def cp_load_def cp_fill_def list_attachments_def
  persist_def autosave_def cp_cleanup_def send_failed_def send_now_def handleSend_def
  handleDiscard_def ensureDraft_def handleFiles_def removeAttachment_def

section \<open>The sending flag\<close>

lemma tidy_keep: "(\<And>s. F (f s) = F s) \<Longrightarrow> tidy F b p \<Longrightarrow> tidy F b (SetSt f p)"
  by auto

lemma upload_all_tidy: "tidy cp_sending False (upload_all i fs)"
  by (induction fs) (auto simp: list_attachments_def api react)

lemma list_attachments_tidy: "tidy cp_sending False (list_attachments i)"
  by (simp add: list_attachments_def api react)

lemma cp_fill_tidy: "tidy cp_sending False (cp_fill route msg)"
  unfolding cp_fill_def Let_def
  by (auto simp: tidy_attempt split: option.split simp del: tidyw.simps(2) intro!: tidy_keep)

lemma cp_load_tidy: "tidy cp_sending False (cp_load s)"
  by (simp add: cp_load_def api react cp_fill_tidy)

lemma cp_quote_tidy: "tidy cp_sending False (cp_quote loc s)"
  by (auto simp: cp_quote_def set_html_def react uncaught_def Let_def split: option.split)

lemma persist_tidy: "tidy cp_sending False (persist dt s)"
  by (auto simp: persist_def api react Let_def split: option.split)

lemma autosave_tidy: "tidy cp_sending False (autosave dt s)"
  by (auto simp: autosave_def persist_tidy Let_def split: option.split)

lemma cp_commit_tidy: "tidy cp_sending False (cp_commit dt loc old s)"
  by (simp add: cp_commit_def Let_def cp_quote_tidy cp_load_tidy list_attachments_tidy autosave_tidy)

interpretation cp_spinner: busy_flag "Compose dt loc r l" cp_sending "\<lambda>_ _. False"
proof unfold_locales
  show "tidy cp_sending False (handle (Compose dt loc r l) ev s)" for ev s
    by (cases ev) (auto simp: handleSend_def send_now_def send_failed_def handleDiscard_def
        ensureDraft_def handleFiles_def removeAttachment_def upload_all_tidy api react uncaught_def
        Let_def split: option.split)
  show "inert (cleanup (Compose dt loc r l) s)" for s
    by (simp add: cp_cleanup_def split: option.split)
qed (simp_all add: cp_initial_def cp_commit_tidy Let_def)

section \<open>Commits\<close>

definition cp_keys :: "cp_state \<Rightarrow> ((jsval \<times> nat) \<times> (jsval \<times> nat)) \<times> jsval \<times> jsval \<times> jsval \<times> jsval \<times> jsval \<times> jsval \<times> jsval" where
  "cp_keys s = (cp_origin s, cp_route s, cp_content s)"

lemma cp_commit_same: "cp_keys old = cp_keys s \<Longrightarrow> exec (cp_commit dt loc (Some old) s) c = c"
  by (simp add: cp_commit_def cp_keys_def cp_content_def Let_def)

lemma cp_settle_same:
  "rendered c = Some old \<Longrightarrow> cp_keys old = cp_keys (st c) \<Longrightarrow> mounted c \<Longrightarrow>
   settle commit_limit (Compose dt loc r l) c = c\<lparr>rendered := Some (st c)\<rparr>"
  by (subst settle_noop) (simp_all add: cp_commit_same)

lemma cp_keys_frame [simp]:
  "cp_keys (s\<lparr>cp_sending := b\<rparr>) = cp_keys s" "cp_keys (s\<lparr>cp_error := e\<rparr>) = cp_keys s"
  "cp_keys (s\<lparr>cp_saved := b\<rparr>) = cp_keys s" "cp_keys (s\<lparr>cp_attachments := a\<rparr>) = cp_keys s"
  "cp_keys (s\<lparr>cp_timer := t\<rparr>) = cp_keys s" "cp_keys (s\<lparr>cp_loaded := v\<rparr>) = cp_keys s"
  by (simp_all add: cp_keys_def cp_origin_def replyTo_def forwardTo_def cp_content_def)

text \<open>What a save sends.\<close>

definition draft_json :: "(string \<Rightarrow> string) \<Rightarrow> cp_state \<Rightarrow> jsval" where
  "draft_json dt s = JObj [
     (''subject'', js_or (cp_subject s) (JStr [])),
     (''to'', parseRecipients (cp_to s)), (''cc'', parseRecipients (cp_cc s)),
     (''bcc'', parseRecipients (cp_bcc s)),
     (''html_body'', js_or (cp_html s) (JStr [])),
     (''plain_text'', JStr (htmlToText dt (cp_html s)))]"

definition cp_save_request :: "(string \<Rightarrow> string) \<Rightarrow> cp_state \<Rightarrow> http" where
  "cp_save_request dt s =
     (if truthy (cp_draftId s)
      then request ''put'' (''/drafts/'' @ js_string (cp_draftId s)) (Json (draft_json dt s))
      else request ''post'' ''/drafts'' (Json (draft_json dt s)))"

lemma toDraftPayload_cp: "toDraftPayload (cp_payload dt s) = Some (draft_json dt s)"
proof -
  have "js_or (JStr t) (JStr []) = JStr t" for t by (cases t) simp_all
  then show ?thesis
    by (simp add: toDraftPayload_def cp_payload_def draft_json_def parseRecipients_idem
        del: parseRecipients.simps)
qed

text \<open>Sending is one save, then the rest.\<close>

definition saved_id :: "cp_state \<Rightarrow> reply \<Rightarrow> jsval option" where
  "saved_id s r = (case r of
     Resolved res \<Rightarrow> do { d \<leftarrow> res_data res; if truthy (cp_draftId s) then Some (cp_draftId s) else js_get d ''id'' }
   | Rejected _ \<Rightarrow> None)"

definition reply_error :: "reply \<Rightarrow> jsval" where
  "reply_error r = (case r of Rejected e \<Rightarrow> e | Resolved _ \<Rightarrow> type_error)"

definition after_save :: "cp_state \<Rightarrow> reply \<Rightarrow> cp_state prog" where
  "after_save s r = (case saved_id s r of
     Some i \<Rightarrow> (if truthy (cp_draftId s) then send_now i
       else SetSt (cp_draftId_update (\<lambda>_. i)) (send_now i))
   | None \<Rightarrow> send_failed (reply_error r))"

definition busy :: "cp_state \<Rightarrow> cp_state" where
  "busy s = s\<lparr>cp_sending := True, cp_error := JStr []\<rparr>"

lemma handleSend_request:
  assumes "js_trim (htmlToText dt (cp_html s)) \<noteq> []"
  shows "handleSend dt s = SetSt busy (Request (cp_save_request dt s) (after_save s))"
proof -
  have "busy = (\<lambda>s. s\<lparr>cp_sending := True, cp_error := JStr []\<rparr>)" by (simp add: busy_def fun_eq_iff)
  with assms show ?thesis
    by (auto simp: handleSend_def after_save_def saved_id_def reply_error_def cp_save_request_def api
        toDraftPayload_cp call_def fun_eq_iff split: reply.split option.split)
qed

definition after_send :: "reply \<Rightarrow> cp_state prog" where
  "after_send r = (case r of
     Resolved _ \<Rightarrow> Perform (Navigate ''/'' Undefined) (SetSt (cp_sending_update (\<lambda>_. False)) Done)
   | Rejected e \<Rightarrow> send_failed e)"

definition send_request :: "jsval \<Rightarrow> http" where
  "send_request i = request ''post'' (''/drafts/'' @ js_string i @ ''/send'') NoBody"

lemma send_now_request: "send_now i = Request (send_request i) after_send"
  by (auto simp: send_now_def send_request_def after_send_def api call_def no_result_def fun_eq_iff
      split: reply.split)

lemma exec_after_save:
  assumes "saved_id s r = Some i" "st d = busy s" "mounted d" "cookie_ok (cookie d)"
  shows "exec (after_save s r) d = d\<lparr>st := (busy s)\<lparr>cp_draftId := i\<rparr>,
    pend := pend d @ [(Wire (signed (cookie d) (send_request i)), after_send)],
    sent := sent d @ [signed (cookie d) (send_request i)]\<rparr>"
proof (cases "truthy (cp_draftId s)")
  case True
  then have "i = cp_draftId s" using assms(1) by (auto simp: saved_id_def bind_Some_iff split: reply.splits)
  then have "(busy s)\<lparr>cp_draftId := i\<rparr> = st d" using assms(2) by (simp add: busy_def)
  moreover have "exec (after_save s r) d = d\<lparr>
    pend := pend d @ [(Wire (signed (cookie d) (send_request i)), after_send)],
    sent := sent d @ [signed (cookie d) (send_request i)]\<rparr>"
    using True by (simp add: after_save_def assms(1) send_now_request interceptor_signed [OF assms(4)])
  ultimately show ?thesis by (cases d) simp
next
  case False
  then show ?thesis using assms(3)
    by (simp add: after_save_def assms(1) send_now_request assms(2) interceptor_signed [OF assms(4)])
qed

text \<open>A new draft: its attachments are listed and the autosave timer is set anew.\<close>

definition rearm :: "nat option \<Rightarrow> (nat \<times> bool \<times> cp_state prog) list \<Rightarrow> (nat \<times> bool \<times> cp_state prog) list" where
  "rearm t ts = (case t of Some h \<Rightarrow> filter (\<lambda>x. fst x \<noteq> h) ts | None \<Rightarrow> ts)"

definition attachments_request :: "jsval \<Rightarrow> http" where
  "attachments_request i = request ''get'' (''/drafts/'' @ js_string i @ ''/attachments'') NoBody"

definition attachments_answer :: "reply \<Rightarrow> cp_state prog" where
  "attachments_answer r = (case r of
     Resolved res \<Rightarrow> (case res_or ''attachments'' (JArr []) res of
       Some a \<Rightarrow> SetSt (cp_attachments_update (\<lambda>_. a)) Done | None \<Rightarrow> Done)
   | Rejected _ \<Rightarrow> Done)"

lemma list_attachments_request: "list_attachments i = Request (attachments_request i) attachments_answer"
  by (auto simp: list_attachments_def attachments_request_def attachments_answer_def api call_def
      fun_eq_iff split: reply.split)

lemma attachments_request_passes [simp]:
  "request_interceptor ck (attachments_request i) = Inr (attachments_request i)"
  by (simp add: attachments_request_def request_interceptor_def get_not_mutating)

lemma cp_settle_draft:
  assumes "rendered c = Some old" "cp_origin old = cp_origin (st c)" "cp_route old = cp_route (st c)"
    "cp_draftId old \<noteq> cp_draftId (st c)" "mounted c"
  shows "settle commit_limit (Compose dt loc r l) c =
    (let s = (st c)\<lparr>cp_timer := Some (next_timer c)\<rparr>;
         listed = (if truthy (cp_draftId (st c)) then [attachments_request (cp_draftId (st c))] else []) in
     c\<lparr>st := s, rendered := Some s, pend := pend c @ map (\<lambda>q. (Wire q, attachments_answer)) listed,
       timers := rearm (cp_timer (st c)) (timers c) @ [(next_timer c, False, persist dt (st c))],
       next_timer := Suc (next_timer c), sent := sent c @ listed\<rparr>)"
proof -
  let ?s = "(st c)\<lparr>cp_timer := Some (next_timer c)\<rparr>"
  let ?l = "if truthy (cp_draftId (st c)) then [attachments_request (cp_draftId (st c))] else []"
  let ?d = "c\<lparr>st := ?s, rendered := Some (st c), pend := pend c @ map (\<lambda>q. (Wire q, attachments_answer)) ?l,
    timers := rearm (cp_timer (st c)) (timers c) @ [(next_timer c, False, persist dt (st c))],
    next_timer := Suc (next_timer c), sent := sent c @ ?l\<rparr>"
  have ne: "rendered c \<noteq> Some (st c)" using assms by auto
  have n: "commit_limit = Suc 49" by (simp add: commit_limit_def)
  have k: "cp_content old \<noteq> cp_content (st c)" using assms(4) by (simp add: cp_content_def)
  have "exec (cp_commit dt loc (Some old) (st c)) (c\<lparr>rendered := Some (st c)\<rparr>) = ?d"
    using assms k
    by (cases c) (simp add: cp_commit_def list_attachments_request autosave_def rearm_def Let_def
        split: option.split)
  then have "settle commit_limit (Compose dt loc r l) c = settle 49 (Compose dt loc r l) ?d"
    unfolding n using assms ne by (subst settle.simps(2)) simp
  also have "\<dots> = ?d\<lparr>rendered := Some (st ?d)\<rparr>"
    by (subst settle_noop) (use assms(5) in \<open>simp_all add: cp_commit_same\<close>)
  finally show ?thesis by (cases c) (simp add: Let_def)
qed

text \<open>An open draft with a recipient and the given body, for the examples.\<close>

definition draft_state :: "string \<Rightarrow> cp_state" where
  "draft_state body = (cp_initial (JStr ''5'') Undefined)\<lparr>cp_to := JStr ''a@x.org'', cp_html := JStr body\<rparr>"

definition draft_page :: "string \<Rightarrow> cp_state config" where
  "draft_page body = \<lparr>st = draft_state body, rendered = Some (draft_state body), mounted = True, pend = [],
     timers = [], next_timer = 0, cookie = [], pathname = ''/compose/5'', sent = [], effects = []\<rparr>"

lemma draft_page_simps [simp]:
  "st (draft_page b) = draft_state b" "rendered (draft_page b) = Some (draft_state b)"
  "mounted (draft_page b)" "pend (draft_page b) = []" "cookie (draft_page b) = []"
  "sent (draft_page b) = []" "effects (draft_page b) = []" "pathname (draft_page b) = ''/compose/5''"
  by (simp_all add: draft_page_def)

lemma draft_state_simps [simp]:
  "cp_draftId (draft_state b) = JStr ''5''" "cp_html (draft_state b) = JStr b"
  "cp_to (draft_state b) = JStr ''a@x.org''" "cp_sending (draft_state b) = False"
  "cp_attachments (draft_state b) = JArr []" "cp_error (draft_state b) = JStr []"
  by (simp_all add: draft_state_def cp_initial_def Let_def)

lemma draft_has_recipient: "\<not> no_recipients (JStr ''a@x.org'')"
  by code_simp

lemma draft_offers_send: "enabled (Compose dt loc rt lc) (draft_state b) CpSend"
  by (simp add: enabled_def cp_view_def shown_value_def js_get_def draft_has_recipient)

section \<open>Properties: sending\<close>

lemma busy_keys [simp]: "cp_keys (busy s) = cp_keys s"
  by (simp add: busy_def)

lemma send_first:
  assumes "rendered c = Some (st c)" "js_trim (htmlToText dt (cp_html (st c))) \<noteq> []" "cookie_ok (cookie c)"
    and "run (Compose dt loc rt lc) c [UserDo CpSend, Answer (length (pend c)) r] = Some c'"
  shows "c' = settle commit_limit (Compose dt loc rt lc) (exec (after_save (st c) r)
      (c\<lparr>st := busy (st c), sent := sent c @ [signed (cookie c) (cp_save_request dt (st c))],
         rendered := Some (busy (st c)),
         effects := effects c @ response_interceptor (pathname c) r\<rparr>))"
    "mounted c"
proof -
  have h: "handle (Compose dt loc rt lc) CpSend (st c)
      = SetSt busy (Request (cp_save_request dt (st c)) (after_save (st c)))"
    using handleSend_request [OF assms(2)] by simp
  have q: "settle commit_limit (Compose dt loc rt lc) d = d\<lparr>rendered := Some (st d)\<rparr>"
    if "mounted d" "rendered d = rendered c" "st d = busy (st c)" for d
    using that assms(1) by (intro cp_settle_same [of d "st c"]) simp_all
  note u = update_ask_settle [OF h q assms(4)]
  show "mounted c" by (rule u(2))
  show "c' = settle commit_limit (Compose dt loc rt lc) (exec (after_save (st c) r)
      (c\<lparr>st := busy (st c), sent := sent c @ [signed (cookie c) (cp_save_request dt (st c))],
         rendered := Some (busy (st c)),
         effects := effects c @ response_interceptor (pathname c) r\<rparr>))"
    using u(1) by (simp only: interceptor_signed [OF assms(3)] sum.case)
qed

text \<open>
  A message with a blank body is not sent: Send only shows the reason; nothing is requested, and
  the fields stay as they are.
\<close>

theorem compose_blank_not_sent:
  assumes "rendered c = Some (st c)" "js_trim (htmlToText dt (cp_html (st c))) = []"
    and "run (Compose dt loc rt lc) c [UserDo CpSend] = Some c'"
  shows "sent c' = sent c \<and> pend c' = pend c \<and> effects c' = effects c \<and>
    st c' = (st c)\<lparr>cp_error := JStr ''Please add a message body before sending.''\<rparr>"
proof -
  have m: "mounted c" using assms(3) by (auto split: if_splits)
  let ?d = "c\<lparr>st := (st c)\<lparr>cp_error := JStr ''Please add a message body before sending.''\<rparr>\<rparr>"
  have "c' = settle commit_limit (Compose dt loc rt lc) ?d"
    using assms(2,3) m by (simp add: handleSend_def split: if_splits)
  also have "\<dots> = ?d\<lparr>rendered := Some (st ?d)\<rparr>"
    by (rule cp_settle_same [of _ "st c"]) (use assms(1) m in simp_all)
  finally show ?thesis by simp
qed

theorem compose_blank_not_sent_witness:
  "\<exists>c'. run (Compose (\<lambda>t. t) plain_locale (JStr ''5'') Undefined) (draft_page '' '') [UserDo CpSend] = Some c' \<and>
     sent c' = [] \<and> cp_html (st c') = JStr '' ''"
proof -
  let ?C = "Compose (\<lambda>t. t) plain_locale (JStr ''5'') Undefined"
  obtain c' where c': "run ?C (draft_page '' '') [UserDo CpSend] = Some c'"
    using draft_offers_send by simp
  have "js_trim (htmlToText (\<lambda>t. t) (cp_html (st (draft_page '' '')))) = []"
    by (simp add: htmlToText_def js_trim_def js_trim_start_def js_trim_end_def js_ws_def)
  from compose_blank_not_sent [OF _ this c'] have "sent c' = []" "cp_html (st c') = JStr '' ''" by simp_all
  with c' show ?thesis by blast
qed

text \<open>The two outcomes of the save.\<close>

lemma send_unsaved:
  assumes "rendered c = Some (st c)" "js_trim (htmlToText dt (cp_html (st c))) \<noteq> []" "cookie_ok (cookie c)"
    and "run (Compose dt loc rt lc) c [UserDo CpSend, Answer (length (pend c)) r] = Some c'"
    and "saved_id (st c) r = None"
  shows "pend c' = pend c \<and> sent c' = sent c @ [signed (cookie c) (cp_save_request dt (st c))] \<and>
    \<not> cp_sending (st c') \<and> truthy (cp_error (st c')) \<and> cp_content (st c') = cp_content (st c)"
proof -
  note c' = send_first(1) [OF assms(1-4)] and m = send_first(2) [OF assms(1-4)]
  let ?b = "c\<lparr>st := busy (st c), sent := sent c @ [signed (cookie c) (cp_save_request dt (st c))],
         rendered := Some (busy (st c)), effects := effects c @ response_interceptor (pathname c) r\<rparr>"
  let ?d = "exec (send_failed (reply_error r)) ?b"
  have "c' = ?d\<lparr>rendered := Some (st ?d)\<rparr>"
    unfolding c' after_save_def assms(5) option.case
    by (rule cp_settle_same [of _ "busy (st c)"]) (use m in \<open>simp_all add: send_failed_def\<close>)
  with m show ?thesis by (simp add: send_failed_def truthy_err_text busy_def cp_content_def)
qed

lemma send_saved:
  assumes "rendered c = Some (st c)" "js_trim (htmlToText dt (cp_html (st c))) \<noteq> []" "cookie_ok (cookie c)"
    and "run (Compose dt loc rt lc) c [UserDo CpSend, Answer (length (pend c)) r] = Some c'"
    and "saved_id (st c) r = Some i"
  shows "\<exists>t. st c' = (busy (st c))\<lparr>cp_draftId := i, cp_timer := t\<rparr> \<and> rendered c' = Some (st c') \<and>
    mounted c' \<and> pathname c' = pathname c \<and>
    effects c' = effects c @ response_interceptor (pathname c) r \<and>
    (let listed = (if i \<noteq> cp_draftId (st c) \<and> truthy i then [attachments_request i] else []) in
     pend c' = pend c @ (Wire (signed (cookie c) (send_request i)), after_send) # map (\<lambda>q. (Wire q, attachments_answer)) listed \<and>
     sent c' = sent c @ [signed (cookie c) (cp_save_request dt (st c)), signed (cookie c) (send_request i)] @ listed)"
proof -
  note c' = send_first(1) [OF assms(1-4)] and m = send_first(2) [OF assms(1-4)]
  let ?b = "c\<lparr>st := busy (st c), sent := sent c @ [signed (cookie c) (cp_save_request dt (st c))],
         rendered := Some (busy (st c)), effects := effects c @ response_interceptor (pathname c) r\<rparr>"
  let ?sg = "signed (cookie c) (send_request i)"
  let ?x = "?b\<lparr>st := (busy (st c))\<lparr>cp_draftId := i\<rparr>, pend := pend ?b @ [(Wire ?sg, after_send)],
      sent := sent ?b @ [?sg]\<rparr>"
  have "exec (after_save (st c) r) ?b = ?x"
    using exec_after_save [OF assms(5), of ?b] m assms(3) by simp
  then have x: "c' = settle commit_limit (Compose dt loc rt lc) ?x" using c' by simp
  show ?thesis
  proof (cases "i = cp_draftId (st c)")
    case True
    have "c' = ?x\<lparr>rendered := Some (st ?x)\<rparr>" unfolding x
      by (rule cp_settle_same [of _ "busy (st c)"])
        (use m True in \<open>simp_all add: busy_def cp_keys_def cp_origin_def replyTo_def forwardTo_def cp_content_def\<close>)
    then show ?thesis using m True
      by (intro exI [of _ "cp_timer (st c)"]) (simp add: busy_def)
  next
    case False
    have k: "cp_origin (busy (st c)) = cp_origin (st ?x)" "cp_route (busy (st c)) = cp_route (st ?x)"
        "cp_draftId (busy (st c)) \<noteq> cp_draftId (st ?x)"
      using False by (simp_all add: busy_def cp_origin_def replyTo_def forwardTo_def)
    have rm: "rendered ?x = Some (busy (st c))" "mounted ?x" using m by simp_all
    show ?thesis unfolding x cp_settle_draft [OF rm(1) k rm(2)] Let_def
      using m False
      by (intro exI [of _ "Some (next_timer c)"]) (simp add: busy_def)
  qed
qed

text \<open>
  C2. Sending, first leg: the current fields are saved, as a new draft or over the present one, and
  that is the first request. If the save fails, no send request goes out, the spinner stops, a
  non-empty message is shown and what was typed is kept. If it succeeds, the next request is the
  send of exactly that draft; after a first save only the list of its attachments follows.
\<close>

theorem compose_saves_first:
  assumes "rendered c = Some (st c)" "js_trim (htmlToText dt (cp_html (st c))) \<noteq> []" "cookie_ok (cookie c)"
    and "run (Compose dt loc rt lc) c [UserDo CpSend, Answer (length (pend c)) r] = Some c'"
  shows "(case saved_id (st c) r of
      None \<Rightarrow> map wire (sent c') = map wire (sent c) @ [wire (cp_save_request dt (st c))] \<and>
        \<not> cp_sending (st c') \<and> truthy (cp_error (st c')) \<and> cp_content (st c') = cp_content (st c) \<and>
        pend c' = pend c
    | Some i \<Rightarrow> cp_sending (st c') \<and> cp_draftId (st c') = i \<and>
        map wire (sent c') = map wire (sent c) @ [wire (cp_save_request dt (st c)),
            (''post'', ''/drafts/'' @ js_string i @ ''/send'', NoBody)] @
          (if i \<noteq> cp_draftId (st c) \<and> truthy i then [wire (attachments_request i)] else []))"
proof (cases "saved_id (st c) r")
  case None
  with send_unsaved [OF assms] show ?thesis by simp
next
  case (Some i)
  with send_saved [OF assms] show ?thesis by (auto simp: Let_def busy_def send_request_def)
qed

lemma draft_body [simp]: "js_trim (htmlToText (\<lambda>t. t) (JStr ''hi'')) = ''hi''"
  by (simp add: htmlToText_def js_trim_def js_trim_start_def js_trim_end_def js_ws_def)

lemma draft_sends:
  assumes "C = Compose (\<lambda>t. t) plain_locale (JStr ''5'') Undefined"
  shows "\<exists>c'. run C (draft_page ''hi'') [UserDo CpSend, Answer 0 (Resolved (JObj [(''data'', JObj [])]))] = Some c'"
proof -
  let ?s = "draft_state ''hi''"
  have "settle commit_limit C d = d\<lparr>rendered := Some (st d)\<rparr>"
    if "mounted d" "rendered d = Some ?s" "cp_keys (st d) = cp_keys ?s" for d
    unfolding assms using that by (intro cp_settle_same [of d ?s]) simp_all
  then show ?thesis
    using draft_offers_send [of "\<lambda>t. t" plain_locale "JStr ''5''" Undefined "''hi''"]
    by (simp add: assms handleSend_request interceptor_signed)
qed

theorem compose_saves_first_witness:
  "\<exists>c'. run (Compose (\<lambda>t. t) plain_locale (JStr ''5'') Undefined) (draft_page ''hi'')
       [UserDo CpSend, Answer 0 (Resolved (JObj [(''data'', JObj [])]))] = Some c' \<and>
     length (sent c') = 2 \<and> cp_draftId (st c') = JStr ''5''"
proof -
  let ?C = "Compose (\<lambda>t. t) plain_locale (JStr ''5'') Undefined" and ?r = "Resolved (JObj [(''data'', JObj [])])"
  obtain c' where c': "run ?C (draft_page ''hi'') [UserDo CpSend, Answer (length (pend (draft_page ''hi''))) ?r] = Some c'"
    using draft_sends [OF refl] by auto
  have "saved_id (st (draft_page ''hi'')) ?r = Some (JStr ''5'')"
    by (simp add: saved_id_def res_data_def js_get_def)
  with compose_saves_first [OF _ _ _ c'] have
    "map wire (sent c') = [wire (cp_save_request (\<lambda>t. t) (draft_state ''hi'')),
       (''post'', ''/drafts/5/send'', NoBody)]" "cp_draftId (st c') = JStr ''5''"
    by simp_all
  moreover from this(1) have "length (sent c') = 2" by (metis length_map length_Cons list.size(3) One_nat_def Suc_1)
  ultimately show ?thesis using c' by auto
qed

text \<open>
  C1. Sending, second leg: the page leaves for the inbox only when the send request, for the draft
  just saved, succeeded. When it fails the spinner stops, a non-empty message is shown, the page
  stays, and everything typed is kept.
\<close>

theorem compose_leaves_after_send:
  assumes "rendered c = Some (st c)" "js_trim (htmlToText dt (cp_html (st c))) \<noteq> []" "cookie_ok (cookie c)"
    and "run (Compose dt loc rt lc) c
      [UserDo CpSend, Answer (length (pend c)) r, Answer (length (pend c)) r'] = Some c'"
  shows "saved_id (st c) r \<noteq> None \<and> \<not> cp_sending (st c') \<and>
    snd (cp_content (st c')) = snd (cp_content (st c)) \<and>
    (case r' of
       Resolved _ \<Rightarrow> Navigate ''/'' Undefined \<in> set (effects c')
     | Rejected e \<Rightarrow> truthy (cp_error (st c')) \<and>
         effects c' = effects c @ response_interceptor (pathname c) r @ response_interceptor (pathname c) r')"
proof -
  obtain c1 where c1: "run (Compose dt loc rt lc) c [UserDo CpSend, Answer (length (pend c)) r] = Some c1"
    and s2: "step (Compose dt loc rt lc) c1 (Answer (length (pend c)) r') = Some c'"
    using assms(4) by (auto simp: bind_Some_iff simp del: step.simps)
  have "length (pend c) < length (pend c1)" using s2 by (auto split: if_splits)
  then obtain i where i: "saved_id (st c) r = Some i"
    using send_unsaved [OF assms(1-3) c1] by (cases "saved_id (st c) r") auto
  from send_saved [OF assms(1-3) c1 i] obtain t ps where f: "pend c1 = pend c @ (Wire (signed (cookie c) (send_request i)), after_send) # ps"
      "mounted c1" "effects c1 = effects c @ response_interceptor (pathname c) r" "pathname c1 = pathname c"
      "st c1 = (busy (st c))\<lparr>cp_draftId := i, cp_timer := t\<rparr>" "rendered c1 = Some (st c1)"
    by (auto simp: Let_def)
  let ?a = "c1\<lparr>pend := pend c @ ps, effects := effects c1 @ response_interceptor (pathname c) r'\<rparr>"
  let ?d = "exec (after_send r') ?a"
  have "answer (length (pend c)) r' c1 = ?d"
    using f(1,4) by (simp add: answer_def nth_append remove_nth_def)
  then have "c' = settle commit_limit (Compose dt loc rt lc) ?d" using s2 by (auto split: if_splits)
  also have "\<dots> = ?d\<lparr>rendered := Some (st ?d)\<rparr>"
    by (rule cp_settle_same [of _ "st c1"])
      (use f in \<open>simp_all add: after_send_def send_failed_def split: reply.split\<close>)
  finally show ?thesis using f i
    by (cases r') (simp_all add: after_send_def send_failed_def truthy_err_text busy_def cp_content_def)
qed

theorem compose_leaves_after_send_witness:
  "\<exists>c'. run (Compose (\<lambda>t. t) plain_locale (JStr ''5'') Undefined) (draft_page ''hi'')
       [UserDo CpSend, Answer 0 (Resolved (JObj [(''data'', JObj [])])), Answer 0 (Resolved Null)] = Some c' \<and>
     Navigate ''/'' Undefined \<in> set (effects c') \<and> \<not> cp_sending (st c')"
proof -
  let ?C = "Compose (\<lambda>t. t) plain_locale (JStr ''5'') Undefined" and ?c = "draft_page ''hi''"
  let ?r = "Resolved (JObj [(''data'', JObj [])])"
  have hyps: "rendered ?c = Some (st ?c)" "js_trim (htmlToText (\<lambda>t. t) (cp_html (st ?c))) \<noteq> []" "cookie_ok (cookie ?c)"
    by simp_all
  obtain c1 where c1: "run ?C ?c [UserDo CpSend, Answer (length (pend ?c)) ?r] = Some c1"
    using draft_sends [OF refl] by auto
  have "saved_id (st ?c) ?r = Some (JStr ''5'')"
    by (simp add: saved_id_def res_data_def js_get_def)
  from send_saved [OF hyps c1 this] have "step ?C c1 (Answer 0 (Resolved Null)) \<noteq> None"
    by (auto simp: Let_def)
  then obtain c' where "run ?C ?c [UserDo CpSend, Answer (length (pend ?c)) ?r,
      Answer (length (pend ?c)) (Resolved Null)] = Some c'"
    using c1 by (auto simp: bind_Some_iff simp del: step.simps)
  with compose_leaves_after_send [OF hyps this] show ?thesis by auto
qed

end
