(* ===== verification/Debounce.thy ===== *)
theory Debounce imports Reactor begin

text \<open>
  The autosave pattern: an effect that, when some key of the state changed, clears its timer and
  sets a new one. The contract of a component that has one such effect and no other timers
  (\<open>debounced\<close>), and what follows for every reachable configuration: at most one timer is pending,
  it will run the body for the values of the last commit, and none is left after unmount.
\<close>

text \<open>\<open>timerless T p\<close>: \<open>p\<close> and its continuations touch no timer, nor the field \<open>T\<close> that holds the handle.\<close>

primrec timerless :: "('s \<Rightarrow> nat option) \<Rightarrow> 's prog \<Rightarrow> bool" where
  "timerless T Done = True"
| "timerless T (SetSt f p) = ((\<forall>s. T (f s) = T s) \<and> timerless T p)"
| "timerless T (Get f) = (\<forall>s. timerless T (f s))"
| "timerless T (Perform e p) = timerless T p"
| "timerless T (Request q k) = (\<forall>r. timerless T (k r))"
| "timerless T (Fork p p') = (timerless T p \<and> timerless T p')"
| "timerless T (SetTimer every body k) = False"
| "timerless T (ClearTimer h p) = False"

lemma timerless_call [react]:
  "timerless T (call q result ok er) \<longleftrightarrow>
     (\<forall>res v. result res = Some v \<longrightarrow> timerless T (ok v)) \<and> (\<forall>e. timerless T (er e))"
proof
  assume s: "timerless T (call q result ok er)"
  have "timerless T (ok v)" if "result res = Some v" for res v
    using s that by (auto simp: call_def dest: spec [of _ "Resolved res"])
  moreover have "timerless T (er e)" for e
    using s by (auto simp: call_def dest: spec [of _ "Rejected e"])
  ultimately show "(\<forall>res v. result res = Some v \<longrightarrow> timerless T (ok v)) \<and> (\<forall>e. timerless T (er e))"
    by blast
qed (auto simp: call_def split: reply.splits option.splits)

lemma timerless_attempt [react]:
  "timerless T (attempt m ok er) \<longleftrightarrow>
     (case m of Some v \<Rightarrow> timerless T (ok v) | None \<Rightarrow> timerless T (er type_error))"
  by (cases m) auto

definition pend_timerless :: "('s \<Rightarrow> nat option) \<Rightarrow> 's config \<Rightarrow> bool" where
  "pend_timerless T c \<longleftrightarrow> (\<forall>x \<in> set (pend c). \<forall>r. timerless T (snd x r))"

lemma exec_timerless:
  "timerless T p \<Longrightarrow> timers (exec p c) = timers c \<and> T (st (exec p c)) = T (st c) \<and>
     (pend_timerless T c \<longrightarrow> pend_timerless T (exec p c))"
proof (induction p arbitrary: c)
  case (SetSt f p)
  from SetSt.IH [of "if mounted c then c\<lparr>st := f (st c)\<rparr> else c"] SetSt.prems show ?case
    by (auto simp: pend_timerless_def)
next
  case (Perform e p)
  from Perform.IH [of "c\<lparr>effects := effects c @ [e]\<rparr>"] Perform.prems show ?case
    by (auto simp: pend_timerless_def)
next
  case (Request q k)
  then show ?case by (auto simp: pend_timerless_def split: sum.splits)
next
  case (Fork p p')
  from Fork.IH(1) [of c] Fork.IH(2) [of "exec p c"] Fork.prems show ?case by simp
qed auto

text \<open>Clear the timer of the last run and set a new one.\<close>

definition arm :: "('s \<Rightarrow> nat option) \<Rightarrow> (nat \<Rightarrow> 's \<Rightarrow> 's) \<Rightarrow> ('s \<Rightarrow> 's prog) \<Rightarrow> 's \<Rightarrow> 's prog" where
  "arm T upd body s =
     (let set = SetTimer False (\<lambda>h. body s) (\<lambda>h. SetSt (upd h) Done) in
      case T s of Some t \<Rightarrow> ClearTimer t set | None \<Rightarrow> set)"

locale debounced =
  fixes C :: "('ev, 's) component" and T :: "'s \<Rightarrow> nat option" and upd :: "nat \<Rightarrow> 's \<Rightarrow> 's"
    and body :: "'s \<Rightarrow> 's prog" and key :: "'s \<Rightarrow> 'k" and other :: "'s option \<Rightarrow> 's \<Rightarrow> 's prog"
  assumes handle_timerless: "timerless T (handle C ev s)"
    and body_timerless: "timerless T (body s)"
    and other_timerless: "timerless T (other old s)"
    and commit_shape: "exec (after_commit C old s) c =
      exec (if map_option key old = Some (key s) then Done else arm T upd body s) (exec (other old s) c)"
    and cleanup_shape: "cleanup C s = (case T s of Some t \<Rightarrow> ClearTimer t Done | None \<Rightarrow> Done)"
    and upd_T: "T (upd h s) = Some h"
begin

definition timer_ok :: "'s config \<Rightarrow> bool" where
  "timer_ok c \<longleftrightarrow> pend_timerless T c \<and>
     (timers c = [] \<or> mounted c \<and> (\<exists>h s' s. timers c = [(h, False, body s')] \<and>
        rendered c = Some s \<and> key s' = key s \<and> T (st c) = Some h))"

lemma exec_timer_ok: "timerless T p \<Longrightarrow> timer_ok c \<Longrightarrow> timer_ok (exec p c)"
  using exec_timerless [of T p c] by (auto simp: timer_ok_def)

lemma arm_timer_ok:
  assumes "timer_ok d" "mounted d" "T (st d) = T s"
  shows "timer_ok ((exec (arm T upd body s) d)\<lparr>rendered := Some s\<rparr>)"
proof -
  have "timers d = [] \<or> (\<exists>h s'. timers d = [(h, False, body s')] \<and> T s = Some h)"
    using assms by (auto simp: timer_ok_def)
  then show ?thesis using assms
    by (cases "T s") (auto simp: timer_ok_def arm_def upd_T pend_timerless_def Let_def)
qed

lemma commit_timer_ok:
  assumes ok: "timer_ok c" and m: "mounted c"
  shows "timer_ok (exec (after_commit C (rendered c) (st c)) (c\<lparr>rendered := Some (st c)\<rparr>))"
proof (cases "map_option key (rendered c) = Some (key (st c))")
  case True
  have "timer_ok (c\<lparr>rendered := Some (st c)\<rparr>)"
    using ok True by (auto simp: timer_ok_def pend_timerless_def)
  then show ?thesis using True exec_timer_ok [OF other_timerless] by (simp add: commit_shape)
next
  case False
  let ?c = "exec (other (rendered c) (st c)) c"
  have "timer_ok ?c" by (rule exec_timer_ok [OF other_timerless ok])
  moreover have "T (st ?c) = T (st c)" using exec_timerless [OF other_timerless] by blast
  ultimately have "timer_ok ((exec (arm T upd body (st c)) ?c)\<lparr>rendered := Some (st c)\<rparr>)"
    using m by (intro arm_timer_ok) simp_all
  then show ?thesis by (simp only: commit_shape exec_set_rendered if_not_P [OF False])
qed

lemma settle_timer_ok: "timer_ok c \<Longrightarrow> timer_ok (settle n C c)"
proof (induction n arbitrary: c)
  case (Suc n)
  show ?case
  proof (cases "mounted c")
    case True
    from commit_timer_ok [OF Suc.prems True] show ?thesis using Suc by simp
  qed (use Suc in simp)
qed simp

lemma answer_timer_ok:
  assumes "timer_ok c" "i < length (pend c)"
  shows "timer_ok (answer i r c)"
proof -
  have "timerless T (snd (pend c ! i) r)"
    using assms by (auto simp: timer_ok_def pend_timerless_def)
  moreover have "timer_ok (c\<lparr>pend := remove_nth i (pend c), effects := effects c @ response_interceptor (pathname c) r\<rparr>)"
    using assms(1) by (auto simp: timer_ok_def pend_timerless_def dest!: in_set_remove_nthD)
  ultimately show ?thesis unfolding answer_def by (rule exec_timer_ok)
qed

lemma due_timer_ok:
  assumes "timer_ok c" "map_of (timers c) h = Some t"
  shows "timer_ok (timer_due h t c)"
proof -
  from assms obtain s' where t: "timers c = [(h, t)]" "t = (False, body s')"
    by (auto simp: timer_ok_def split: if_splits)
  then have "timer_ok (c\<lparr>timers := []\<rparr>)" using assms(1) by (auto simp: timer_ok_def pend_timerless_def)
  with t body_timerless [of s'] show ?thesis by (auto simp: timer_due_def intro: exec_timer_ok)
qed

lemma unmount_timer_ok:
  assumes "timer_ok c"
  shows "timer_ok (exec (cleanup C (st c)) (c\<lparr>mounted := False\<rparr>))"
  using assms by (cases "T (st c)") (auto simp: timer_ok_def cleanup_shape pend_timerless_def)

lemma step_timer_ok: "step C c i = Some c' \<Longrightarrow> timer_ok c \<Longrightarrow> timer_ok c'"
proof (cases i)
  case (UserDo ev)
  assume "step C c i = Some c'" "timer_ok c"
  with UserDo show ?thesis
    by (auto split: if_splits intro!: settle_timer_ok exec_timer_ok handle_timerless)
next
  case (CookieIs ck)
  assume "step C c i = Some c'" "timer_ok c"
  with CookieIs show ?thesis by (auto simp: timer_ok_def pend_timerless_def)
qed (auto split: if_splits option.splits
     intro!: settle_timer_ok answer_timer_ok due_timer_ok unmount_timer_ok)

theorem reachable_timer_ok: "reachable C c \<Longrightarrow> timer_ok c"
proof (induction rule: reachable.induct)
  case (start ck path)
  show ?case unfolding boot_def
    by (rule settle_timer_ok) (simp add: timer_ok_def pend_timerless_def)
qed (blast intro: step_timer_ok)

lemma one_timer: "reachable C c \<Longrightarrow> length (timers c) \<le> 1"
  by (drule reachable_timer_ok) (auto simp: timer_ok_def)

lemma none_unmounted: "reachable C c \<Longrightarrow> \<not> mounted c \<Longrightarrow> timers c = []"
  by (drule reachable_timer_ok) (auto simp: timer_ok_def)

lemma pending_body: "reachable C c \<Longrightarrow> map_of (timers c) h = Some t \<Longrightarrow>
    \<exists>s' s. t = (False, body s') \<and> rendered c = Some s \<and> key s' = key s"
  by (drule reachable_timer_ok) (auto simp: timer_ok_def split: if_splits)

end

end
