(* ===== verification/Compose_Autosave.thy ===== *)
theory Compose_Autosave imports Compose Debounce begin

text \<open>
  Autosave and uploads of \<open>Compose.jsx\<close>: the fourth effect as an instance of \<open>debounced\<close>, what an edit
  leads to, and the loop of \<open>handleFiles\<close>.
\<close>

section \<open>One pending save\<close>

text \<open>The three effects before the autosave.\<close>

definition cp_other :: "locale_fns \<Rightarrow> cp_state option \<Rightarrow> cp_state \<Rightarrow> cp_state prog" where
  "cp_other loc old s =
     (let unless_same = (\<lambda>b p. if b then Done else p) in
      Fork (unless_same (map_option cp_origin old = Some (cp_origin s)) (cp_quote loc s))
      (Fork (unless_same (map_option (\<lambda>u. (cp_route u, cp_origin u)) old = Some (cp_route s, cp_origin s)) (cp_load s))
        (unless_same (map_option cp_draftId old = Some (cp_draftId s))
          (if truthy (cp_draftId s) then list_attachments (cp_draftId s) else Done))))"

lemma timerless_keep: "(\<And>s. T (f s) = T s) \<Longrightarrow> timerless T p \<Longrightarrow> timerless T (SetSt f p)"
  by simp

lemma upload_all_timerless: "timerless cp_timer (upload_all i fs)"
  by (induction fs) (auto simp: list_attachments_def api react)

lemma persist_timerless: "timerless cp_timer (persist dt s)"
  by (auto simp: persist_def api react Let_def split: option.split)

lemma cp_handle_timerless: "timerless cp_timer (cp_handle dt ev s)"
  by (cases ev) (auto simp: handleSend_def send_now_def send_failed_def handleDiscard_def ensureDraft_def
      handleFiles_def removeAttachment_def upload_all_timerless api react uncaught_def Let_def split: option.split)

lemma cp_other_timerless: "timerless cp_timer (cp_other loc old s)"
proof -
  have "timerless cp_timer (cp_fill route msg)" for route msg
    unfolding cp_fill_def Let_def by (auto simp: react split: option.split)
  moreover have "timerless cp_timer (cp_quote loc s)"
    by (auto simp: cp_quote_def set_html_def react uncaught_def Let_def split: option.split)
  ultimately show ?thesis
    by (simp add: cp_other_def cp_load_def list_attachments_def api react Let_def)
qed

interpretation saver: debounced "Compose dt loc r l" cp_timer "\<lambda>h. cp_timer_update (\<lambda>_. Some h)" "persist dt"
    cp_content "cp_other loc"
proof unfold_locales
  show "exec (after_commit (Compose dt loc r l) old s) c =
      exec (if map_option cp_content old = Some (cp_content s) then Done
        else arm cp_timer (\<lambda>h. cp_timer_update (\<lambda>_. Some h)) (persist dt) s) (exec (cp_other loc old s) c)" for old s c
    by (cases old) (simp_all add: cp_commit_def cp_other_def autosave_def arm_def Let_def)
qed (simp_all add: cp_handle_timerless persist_timerless cp_other_timerless cp_cleanup_def)

lemma persist_content: "cp_content s' = cp_content s \<Longrightarrow> persist dt s' = persist dt s"
  by (simp add: persist_def cp_payload_def cp_content_def cong: if_cong)

text \<open>
  C37. In every run at most one autosave is pending. It is a single timeout, and what it will save is
  exactly the content on the screen, never that of an earlier keystroke; and no autosave outlives the
  page.
\<close>

theorem compose_autosave:
  assumes "reachable (Compose dt loc rt lc) c"
  shows "length (timers c) \<le> 1 \<and> (\<not> mounted c \<longrightarrow> timers c = []) \<and>
    (\<forall>(h, every, p) \<in> set (timers c). \<not> every \<and> (\<exists>s. rendered c = Some s \<and> p = persist dt s))"
proof -
  have "timers c = [] \<or> (\<exists>h s' s. timers c = [(h, False, persist dt s')] \<and> rendered c = Some s \<and>
      cp_content s' = cp_content s)"
    using saver.reachable_timer_ok [OF assms] by (auto simp: saver.timer_ok_def)
  then have "timers c = [] \<or> (\<exists>h s. timers c = [(h, False, persist dt s)] \<and> rendered c = Some s)"
    using persist_content by metis
  then show ?thesis using saver.none_unmounted [OF assms] by auto
qed

section \<open>An edit is saved\<close>

lemma cp_settle_edit:
  assumes "rendered c = Some old" "cp_origin old = cp_origin (st c)" "cp_route old = cp_route (st c)"
    "cp_draftId old = cp_draftId (st c)" "cp_content old \<noteq> cp_content (st c)" "mounted c"
  shows "settle commit_limit (Compose dt loc r l) c =
    (let s = (st c)\<lparr>cp_timer := Some (next_timer c)\<rparr> in
     c\<lparr>st := s, rendered := Some s, next_timer := Suc (next_timer c),
       timers := rearm (cp_timer (st c)) (timers c) @ [(next_timer c, False, persist dt (st c))]\<rparr>)"
proof -
  let ?s = "(st c)\<lparr>cp_timer := Some (next_timer c)\<rparr>"
  let ?d = "c\<lparr>st := ?s, rendered := Some (st c), next_timer := Suc (next_timer c),
    timers := rearm (cp_timer (st c)) (timers c) @ [(next_timer c, False, persist dt (st c))]\<rparr>"
  have ne: "rendered c \<noteq> Some (st c)" using assms by auto
  have n: "commit_limit = Suc 49" by (simp add: commit_limit_def)
  have "exec (cp_commit dt loc (Some old) (st c)) (c\<lparr>rendered := Some (st c)\<rparr>) = ?d"
    using assms by (cases c) (simp add: cp_commit_def autosave_def rearm_def Let_def split: option.split)
  then have "settle commit_limit (Compose dt loc r l) c = settle 49 (Compose dt loc r l) ?d"
    unfolding n using assms ne by (subst settle.simps(2)) simp
  also have "\<dots> = ?d\<lparr>rendered := Some (st ?d)\<rparr>"
    by (subst settle_noop) (use assms(6) in \<open>simp_all add: cp_commit_same\<close>)
  finally show ?thesis by (cases c) (simp add: Let_def)
qed

definition persist_answer :: "cp_state \<Rightarrow> reply \<Rightarrow> cp_state prog" where
  "persist_answer s r = (case r of
     Resolved res \<Rightarrow> (case res_data res of
       Some d \<Rightarrow> (if \<not> truthy (cp_draftId s) \<and> truthy (js_oget d ''id'')
         then SetSt (cp_draftId_update (\<lambda>_. js_oget d ''id'')) (SetSt (cp_saved_update (\<lambda>_. True)) Done)
         else SetSt (cp_saved_update (\<lambda>_. True)) Done)
     | None \<Rightarrow> Done)
   | Rejected _ \<Rightarrow> Done)"

lemma persist_request:
  "persist dt s =
     (if truthy (cp_to s) \<or> truthy (cp_subject s) \<or> truthy (cp_html s)
      then Request (cp_save_request dt s) (persist_answer s) else Done)"
  by (auto simp: persist_def persist_answer_def cp_save_request_def api toDraftPayload_cp call_def fun_eq_iff
      Let_def split: reply.split option.split)

text \<open>
  C38. Editing the body and leaving the page alone saves it: when the timeout the edit set falls due, one
  request goes out, to the open draft or for a new one, with all the fields as they are on the
  screen; an edit that leaves recipient, subject and body empty is not saved.
\<close>

theorem compose_edit_saved:
  assumes "rendered c = Some (st c)" "cookie_ok (cookie c)" "JStr v \<noteq> cp_html (st c)"
    and "run (Compose dt loc rt lc) c [UserDo (CpHtml v), TimerDue (next_timer c)] = Some c'"
    and "\<forall>t \<in> set (timers c). fst t < next_timer c"
  defines "s \<equiv> (st c)\<lparr>cp_html := JStr v\<rparr>"
  shows "map wire (sent c') = map wire (sent c) @
      (if truthy (cp_to s) \<or> truthy (cp_subject s) \<or> truthy (cp_html s)
       then [wire (cp_save_request dt s)] else [])"
proof -
  let ?C = "Compose dt loc rt lc"
  have m: "mounted c" using assms(4) by (auto split: if_splits)
  let ?t = "s\<lparr>cp_timer := Some (next_timer c)\<rparr>"
  let ?d = "c\<lparr>st := ?t, rendered := Some ?t, next_timer := Suc (next_timer c),
      timers := rearm (cp_timer (st c)) (timers c) @ [(next_timer c, False, persist dt s)]\<rparr>"
  have k: "cp_origin (st c) = cp_origin s" "cp_route (st c) = cp_route s" "cp_draftId (st c) = cp_draftId s"
      "cp_timer s = cp_timer (st c)"
    by (simp_all add: s_def cp_origin_def replyTo_def forwardTo_def)
  have "cp_content (st c) \<noteq> cp_content s" using assms(3) by (auto simp: s_def cp_content_def)
  then have "settle commit_limit ?C (c\<lparr>st := s\<rparr>) = ?d"
    using cp_settle_edit [of "c\<lparr>st := s\<rparr>" "st c" dt loc rt lc] assms(1) k m by (simp add: Let_def)
  moreover have "(next_timer c, x) \<notin> set (timers c)" for x using assms(5) by auto
  then have "map_of (timers ?d) (next_timer c) = Some (False, persist dt s)"
    by (auto simp: rearm_def map_add_Some_iff map_of_eq_None_iff split: option.split)
  ultimately have c': "c' = settle commit_limit ?C (exec (persist dt s) (?d\<lparr>timers := filter (\<lambda>t. fst t \<noteq> next_timer c) (timers ?d)\<rparr>))"
    using assms(4) m by (auto simp: timer_due_def s_def split: if_splits)
  then show ?thesis using assms(2)
    by (simp add: persist_request interceptor_signed settle_settled)
qed

text \<open>
  Until the answer to the save of a new message arrives the page does not know that it has a draft: a
  message sent in that time creates a second one, and the first stays among the drafts.
\<close>

lemma compose_duplicate_draft:
  assumes "rendered c = Some (st c)" "cookie_ok (cookie c)" "\<not> truthy (cp_draftId (st c))" "truthy (cp_to (st c))"
    and "js_trim (htmlToText dt (cp_html (st c))) \<noteq> []" "map_of (timers c) h = Some (False, persist dt (st c))"
    and "run (Compose dt loc rt lc) c [TimerDue h, UserDo CpSend] = Some c'"
  shows "map wire (sent c') = map wire (sent c) @ replicate 2 (''post'', ''/drafts'', Json (draft_json dt (st c)))"
proof -
  let ?C = "Compose dt loc rt lc"
  have s: "settle commit_limit ?C d = d\<lparr>rendered := Some (st d)\<rparr>"
    if "mounted d" "rendered d = rendered c" "st d = busy (st c)" for d
    using that assms(1) by (intro cp_settle_same [of d "st c"]) simp_all
  show ?thesis using assms
    by (auto simp: timer_due_def persist_request interceptor_signed settle_settled handleSend_request s
        cp_save_request_def numeral_2_eq_2 split: if_splits)
qed

section \<open>Uploads\<close>

definition upload_request :: "jsval \<Rightarrow> jsval \<Rightarrow> http" where
  "upload_request i f = with_header ''Content-Type'' ''multipart/form-data''
     (request ''post'' (''/drafts/'' @ js_string i @ ''/attachments'') (FormData [(''file'', f)]))"

text \<open>The error shown after the answers to the uploads of some files: the one of the last that failed.\<close>

definition upload_failure :: "reply \<Rightarrow> jsval option" where
  "upload_failure r = (case r of
     Resolved res \<Rightarrow> if nullish res then Some type_error else None | Rejected e \<Rightarrow> Some e)"

definition upload_message :: "jsval \<times> reply \<Rightarrow> jsval \<Rightarrow> jsval" where
  "upload_message = (\<lambda>(f, r) e. case upload_failure r of Some err \<Rightarrow> upload_error f err | None \<Rightarrow> e)"

definition upload_answer :: "jsval \<Rightarrow> jsval \<Rightarrow> jsval list \<Rightarrow> reply \<Rightarrow> cp_state prog" where
  "upload_answer i f fs r = (case upload_failure r of
     None \<Rightarrow> upload_all i fs
   | Some err \<Rightarrow> SetSt (cp_error_update (\<lambda>_. upload_error f err)) (upload_all i fs))"

lemma upload_all_request: "upload_all i (f # fs) = Request (upload_request i f) (upload_answer i f fs)"
  by (auto simp: upload_request_def upload_answer_def upload_failure_def api call_def res_data_def js_get_def
      fun_eq_iff split: reply.split)

lemma upload_all_st: "st (exec (upload_all i fs) c) = st c"
  by (cases fs) (auto simp: list_attachments_request upload_all_request simp del: upload_all.simps(2) split: sum.split)

text \<open>An upload that is answered: the next one starts, whatever the answer.\<close>

lemma upload_step:
  assumes "rendered c = Some (st c)" "mounted c"
    and "s = (st c)\<lparr>cp_error := upload_message (f, r) (cp_error (st c))\<rparr>"
  shows "settle commit_limit (Compose dt loc rt lc) (exec (upload_answer i f fs r) c) =
    exec (upload_all i fs) (c\<lparr>st := s, rendered := Some s\<rparr>)"
proof -
  let ?a = "exec (upload_answer i f fs r) c"
  have a: "?a = exec (upload_all i fs) (c\<lparr>st := s\<rparr>)" "cp_keys s = cp_keys (st c)"
    using assms(2) by (simp_all add: assms(3) upload_answer_def upload_message_def split: option.split)
  have "settle commit_limit (Compose dt loc rt lc) ?a = ?a\<lparr>rendered := Some (st ?a)\<rparr>"
    by (rule cp_settle_same [of _ "st c"]) (use a assms(1,2) in \<open>simp_all add: upload_all_st\<close>)
  also have "\<dots> = exec (upload_all i fs) (c\<lparr>st := s, rendered := Some s\<rparr>)"
    unfolding a(1) upload_all_st exec_set_rendered [symmetric] by simp
  finally show ?thesis .
qed

lemma run_uploads:
  assumes "rendered c = Some (st c)" "mounted c" "cookie_ok (cookie c)" "length rs = length fs"
    "run (Compose dt loc rt lc) (exec (upload_all i fs) c) (map (Answer (length (pend c))) rs) = Some c'"
  shows "map wire (sent c') = map wire (sent c) @ map (\<lambda>f. wire (upload_request i f)) fs @ [wire (attachments_request i)] \<and>
    st c' = (st c)\<lparr>cp_error := fold upload_message (zip fs rs) (cp_error (st c))\<rparr>"
  using assms
proof (induction fs arbitrary: c rs)
  case Nil
  then show ?case by (auto simp: list_attachments_request)
next
  case (Cons f fs)
  let ?C = "Compose dt loc rt lc"
  obtain r rs' where rs: "rs = r # rs'" using Cons.prems(4) by (cases rs) auto
  let ?s = "(st c)\<lparr>cp_error := upload_message (f, r) (cp_error (st c))\<rparr>"
  let ?b = "c\<lparr>sent := sent c @ [signed (cookie c) (upload_request i f)],
    effects := effects c @ response_interceptor (pathname c) r\<rparr>"
  let ?d = "?b\<lparr>st := ?s, rendered := Some ?s\<rparr>"
  have "settle commit_limit ?C (exec (upload_answer i f fs r) ?b) = exec (upload_all i fs) ?d"
    by (rule upload_step) (use Cons.prems(1,2) in simp_all)
  then have "run ?C (exec (upload_all i fs) ?d) (map (Answer (length (pend ?d))) rs') = Some c'"
    using Cons.prems rs
    by (auto simp: upload_all_request interceptor_signed answer_def remove_nth_def nth_append
        simp del: upload_all.simps(2) split: if_splits)
  from Cons.IH [OF _ _ _ _ this] Cons.prems rs show ?case by simp
qed

text \<open>Files for a message that is no draft yet: it is saved first.\<close>

definition created :: "jsval list \<Rightarrow> cp_state \<Rightarrow> reply \<Rightarrow> cp_state prog" where
  "created fs s r = (case saved_id s r of
     Some i \<Rightarrow> SetSt (cp_draftId_update (\<lambda>_. i)) (upload_all i fs) | None \<Rightarrow> uncaught (reply_error r))"

lemma handleFiles_request:
  "\<not> truthy (cp_draftId s) \<Longrightarrow> handleFiles dt s fs = Request (cp_save_request dt s) (created fs s)"
  by (auto simp: handleFiles_def ensureDraft_def created_def saved_id_def reply_error_def cp_save_request_def api
      toDraftPayload_cp call_def uncaught_def fun_eq_iff split: reply.split option.split)

text \<open>The answer to the save: the draft is known, the first request goes out, and the effect lists the attachments.\<close>

definition with_draft :: "jsval \<Rightarrow> http \<Rightarrow> (reply \<Rightarrow> cp_state prog) \<Rightarrow> (nat \<times> bool \<times> cp_state prog) list \<Rightarrow>
    cp_state config \<Rightarrow> cp_state config" where
  "with_draft i q k t c =
     (let s = (st c)\<lparr>cp_draftId := i, cp_timer := Some (next_timer c)\<rparr> in
      c\<lparr>st := s, rendered := Some s,
        pend := pend c @ [(Wire q, k), (Wire (attachments_request i), attachments_answer)],
        timers := t, next_timer := Suc (next_timer c), sent := sent c @ [q, attachments_request i]\<rparr>)"

lemma with_draft_simps [simp]:
  "st (with_draft i q k t c) = (st c)\<lparr>cp_draftId := i, cp_timer := Some (next_timer c)\<rparr>"
  "rendered (with_draft i q k t c) = Some (st (with_draft i q k t c))"
  "pend (with_draft i q k t c) = pend c @ [(Wire q, k), (Wire (attachments_request i), attachments_answer)]"
  "sent (with_draft i q k t c) = sent c @ [q, attachments_request i]"
  "mounted (with_draft i q k t c) = mounted c" "cookie (with_draft i q k t c) = cookie c"
  by (simp_all add: with_draft_def Let_def)

lemma settle_created:
  assumes "rendered c = Some (st c)" "mounted c" "cookie_ok (cookie c)" "\<not> truthy (cp_draftId (st c))" "truthy i"
  shows "\<exists>t. settle commit_limit (Compose dt loc rt lc)
      (exec (SetSt (cp_draftId_update (\<lambda>_. i)) (upload_all i fs)) c) =
    (case fs of [] \<Rightarrow> with_draft i (attachments_request i) attachments_answer t c
     | f # fs' \<Rightarrow> with_draft i (signed (cookie c) (upload_request i f)) (upload_answer i f fs') t c)"
proof -
  let ?s = "(st c)\<lparr>cp_draftId := i\<rparr>"
  let ?e = "exec (upload_all i fs) (c\<lparr>st := ?s\<rparr>)"
  have k: "cp_origin (st c) = cp_origin (st ?e)" "cp_route (st c) = cp_route (st ?e)" "cp_draftId (st c) \<noteq> cp_draftId (st ?e)"
    using assms(2,4,5) by (auto simp: upload_all_st cp_origin_def replyTo_def forwardTo_def)
  have e: "rendered ?e = Some (st c)" "st ?e = ?s" "mounted ?e" using assms(1,2) by (simp_all add: upload_all_st)
  have "\<exists>t. settle commit_limit (Compose dt loc rt lc) ?e =
      ?e\<lparr>st := ?s\<lparr>cp_timer := Some (next_timer ?e)\<rparr>, rendered := Some (?s\<lparr>cp_timer := Some (next_timer ?e)\<rparr>),
       pend := pend ?e @ [(Wire (attachments_request i), attachments_answer)], timers := t,
       next_timer := Suc (next_timer ?e), sent := sent ?e @ [attachments_request i]\<rparr>"
    unfolding cp_settle_draft [OF e(1) k e(3)] using assms(5) by (simp add: e(2) Let_def) blast
  then show ?thesis using assms(2,3)
    by (cases fs) (simp_all add: with_draft_def list_attachments_request upload_all_request interceptor_signed Let_def
        del: upload_all.simps(2))
qed

lemma files_created:
  assumes "rendered c = Some (st c)" "cookie_ok (cookie c)" "\<not> truthy (cp_draftId (st c))"
    and "run (Compose dt loc rt lc) c [UserDo (CpFiles fs), Answer (length (pend c)) r] = Some c1"
    and "b = c\<lparr>sent := sent c @ [signed (cookie c) (cp_save_request dt (st c))],
      effects := effects c @ response_interceptor (pathname c) r\<rparr>"
  shows "c1 = settle commit_limit (Compose dt loc rt lc) (exec (created fs (st c) r) b)" "mounted c"
    "saved_id (st c) r = Some i \<Longrightarrow> truthy i \<Longrightarrow>
      \<exists>t. c1 = (case fs of [] \<Rightarrow> with_draft i (attachments_request i) attachments_answer t b
       | f # fs' \<Rightarrow> with_draft i (signed (cookie b) (upload_request i f)) (upload_answer i f fs') t b)"
proof -
  have h: "handle (Compose dt loc rt lc) (CpFiles fs) (st c) = Request (cp_save_request dt (st c)) (created fs (st c))"
    using handleFiles_request [OF assms(3)] by simp
  show m: "mounted c" and b: "c1 = settle commit_limit (Compose dt loc rt lc) (exec (created fs (st c) r) b)"
    using ask_and_answer [OF assms(1) h assms(4)] by (simp_all add: assms(5) interceptor_signed [OF assms(2)])
  assume Some: "saved_id (st c) r = Some i" and i: "truthy i"
  have e: "created fs (st c) r = SetSt (cp_draftId_update (\<lambda>_. i)) (upload_all i fs)" by (simp add: created_def Some)
  have "rendered b = Some (st b)" "mounted b" "cookie_ok (cookie b)" "\<not> truthy (cp_draftId (st b))"
    using assms(1,2,3) m by (simp_all add: assms(5))
  from settle_created [OF this i] show "\<exists>t. c1 = (case fs of [] \<Rightarrow> with_draft i (attachments_request i) attachments_answer t b
       | f # fs' \<Rightarrow> with_draft i (signed (cookie b) (upload_request i f)) (upload_answer i f fs') t b)"
    unfolding b e by blast
qed

text \<open>The answer to the first upload, with the list of attachments still to come.\<close>

lemma first_answer:
  assumes "mounted b" "c = with_draft i q (upload_answer i f fs) t b" "answers (Wire q) r"
    and "s = (st c)\<lparr>cp_error := upload_message (f, r) (cp_error (st c))\<rparr>"
  shows "step (Compose dt loc rt lc) c (Answer (length (pend b)) r) = Some (exec (upload_all i fs)
    (c\<lparr>pend := pend b @ [(Wire (attachments_request i), attachments_answer)],
      effects := effects c @ response_interceptor (pathname c) r, st := s, rendered := Some s\<rparr>))"
proof -
  let ?c2 = "c\<lparr>pend := pend b @ [(Wire (attachments_request i), attachments_answer)],
      effects := effects c @ response_interceptor (pathname c) r\<rparr>"
  have "answer (length (pend b)) r c = exec (upload_answer i f fs r) ?c2"
    by (simp add: assms(2) answer_def nth_append remove_nth_def)
  moreover have "settle commit_limit (Compose dt loc rt lc) (exec (upload_answer i f fs r) ?c2) =
      exec (upload_all i fs) (?c2\<lparr>st := s, rendered := Some s\<rparr>)"
    by (rule upload_step) (use assms in simp_all)
  ultimately show ?thesis using assms(2,3) by (simp add: nth_append)
qed

lemma run_created:
  assumes "rendered c = Some (st c)" "cookie_ok (cookie c)" "\<not> truthy (cp_draftId (st c))" "length rs = length fs"
    and "saved_id (st c) r = Some i" "truthy i"
    and "run (Compose dt loc rt lc) c [UserDo (CpFiles fs), Answer (length (pend c)) r] = Some c1"
    and "run (Compose dt loc rt lc) c1 (case rs of [] \<Rightarrow> [] | r1 # rs' \<Rightarrow>
      Answer (length (pend c)) r1 # map (Answer (Suc (length (pend c)))) rs') = Some c'"
    and "uploads = map (\<lambda>f. wire (upload_request i f)) fs @ [wire (attachments_request i)]"
  shows "map wire (sent c') = map wire (sent c) @
      [wire (cp_save_request dt (st c)), hd uploads, wire (attachments_request i)] @ tl uploads \<and>
    (\<exists>t. st c' = (st c)\<lparr>cp_draftId := i, cp_timer := t, cp_error := fold upload_message (zip fs rs) (cp_error (st c))\<rparr>)"
proof -
  let ?C = "Compose dt loc rt lc" and ?n = "length (pend c)"
  let ?b = "c\<lparr>sent := sent c @ [signed (cookie c) (cp_save_request dt (st c))],
      effects := effects c @ response_interceptor (pathname c) r\<rparr>"
  note created = files_created [OF assms(1-3,7) refl]
  obtain t where t: "c1 = (case fs of [] \<Rightarrow> with_draft i (attachments_request i) attachments_answer t ?b
       | f # fs' \<Rightarrow> with_draft i (signed (cookie ?b) (upload_request i f)) (upload_answer i f fs') t ?b)"
    using created(3) assms(5,6) by blast
  show ?thesis
  proof (cases fs)
    case Nil
    then have "c' = with_draft i (attachments_request i) attachments_answer t ?b" using assms(4,8) t by simp
    with Nil assms(4,9) show ?thesis by (auto intro!: exI)
  next
    case (Cons f fs')
    then obtain r1 rs' where rs: "rs = r1 # rs'" "length rs' = length fs'" using assms(4) by (cases rs) auto
    let ?u = "(st c1)\<lparr>cp_error := upload_message (f, r1) (cp_error (st c1))\<rparr>"
    let ?d = "c1\<lparr>pend := pend ?b @ [(Wire (attachments_request i), attachments_answer)],
        effects := effects c1 @ response_interceptor (pathname c1) r1, st := ?u, rendered := Some ?u\<rparr>"
    have c1': "c1 = with_draft i (signed (cookie ?b) (upload_request i f)) (upload_answer i f fs') t ?b"
      using t Cons by simp
    obtain c2 where c2: "step ?C c1 (Answer (length (pend ?b)) r1) = Some c2"
        "run ?C c2 (map (Answer (Suc ?n)) rs') = Some c'"
      using assms(8) rs by (auto simp: bind_Some_iff simp del: step.simps)
    then have "answers (Wire (signed (cookie ?b) (upload_request i f))) r1"
      by (auto simp: c1' nth_append split: if_splits)
    with c2 first_answer [OF _ c1' this refl] created(2)
    have "run ?C (exec (upload_all i fs') ?d) (map (Answer (length (pend ?d))) rs') = Some c'" by simp
    from run_uploads [OF _ _ _ rs(2) this] created(2) assms(2,9) rs Cons c1' show ?thesis
      by (auto intro!: exI)
  qed
qed

text \<open>
  C39. Attaching files. To an open draft: every file is uploaded, in order and each once the answer to
  the one before has come, whatever those answers are, and then the attachments are listed; nothing
  changes on the page but the error, which is the one of the last upload that failed. With no draft open the
  message is saved first: if that fails, nothing is uploaded and the page stays as it is; if it succeeds,
  with an identifier for the draft, the page has the new draft, and the uploads follow in the same way, while the new draft makes the
  page list its attachments once after the first of them.
\<close>

theorem compose_uploads:
  assumes "rendered c = Some (st c)" "cookie_ok (cookie c)" "length rs = length fs"
    and "\<forall>i. saved_id (st c) r = Some i \<longrightarrow> truthy i"
    and "run (Compose dt loc rt lc) c (UserDo (CpFiles fs) #
      (if truthy (cp_draftId (st c)) then map (Answer (length (pend c))) rs
       else Answer (length (pend c)) r # (case (saved_id (st c) r, rs) of
         (Some i, r1 # rs') \<Rightarrow> Answer (length (pend c)) r1 # map (Answer (Suc (length (pend c)))) rs' | _ \<Rightarrow> []))) = Some c'"
  shows "let uploads = (\<lambda>i. map (\<lambda>f. wire (upload_request i f)) fs @ [wire (attachments_request i)]);
      err = fold upload_message (zip fs rs) (cp_error (st c)); save = (''post'', ''/drafts'', Json (draft_json dt (st c))) in
    if truthy (cp_draftId (st c))
    then map wire (sent c') = map wire (sent c) @ uploads (cp_draftId (st c)) \<and> st c' = (st c)\<lparr>cp_error := err\<rparr>
    else (case saved_id (st c) r of
      None \<Rightarrow> map wire (sent c') = map wire (sent c) @ [save] \<and> st c' = st c
    | Some i \<Rightarrow> map wire (sent c') = map wire (sent c) @ [save, hd (uploads i), wire (attachments_request i)] @ tl (uploads i) \<and>
        (\<exists>t. st c' = (st c)\<lparr>cp_draftId := i, cp_timer := t, cp_error := err\<rparr>))"
proof (cases "truthy (cp_draftId (st c))")
  case True
  have m: "mounted c" using assms(5) by (auto split: if_splits)
  let ?a = "exec (upload_all (cp_draftId (st c)) fs) c"
  have "settle commit_limit (Compose dt loc rt lc) ?a = ?a"
    by (rule settle_settled) (simp add: upload_all_st assms(1))
  then have "run (Compose dt loc rt lc) ?a (map (Answer (length (pend c))) rs) = Some c'"
    using True assms(5) by (auto simp: handleFiles_def ensureDraft_def split: if_splits)
  from run_uploads [OF assms(1) m assms(2,3) this] True show ?thesis by (simp add: Let_def)
next
  case False
  let ?C = "Compose dt loc rt lc" and ?s = "st c" and ?n = "length (pend c)"
  let ?later = "case (saved_id ?s r, rs) of (Some i, r1 # rs') \<Rightarrow> Answer ?n r1 # map (Answer (Suc ?n)) rs' | _ \<Rightarrow> []"
  from assms(5) False obtain c1 where c1: "run ?C c [UserDo (CpFiles fs), Answer ?n r] = Some c1"
    and later: "run ?C c1 ?later = Some c'"
    by (auto simp: bind_Some_iff simp del: step.simps)
  have save: "wire (cp_save_request dt ?s) = (''post'', ''/drafts'', Json (draft_json dt ?s))"
    using False by (simp add: cp_save_request_def)
  show ?thesis
  proof (cases "saved_id ?s r")
    case None
    then show ?thesis using later files_created(1) [OF assms(1,2) False c1 refl] False save assms(1)
      by (auto simp: created_def uncaught_def settle_settled Let_def)
  next
    case (Some i)
    with later have "run ?C c1 (case rs of [] \<Rightarrow> [] | r1 # rs' \<Rightarrow> Answer ?n r1 # map (Answer (Suc ?n)) rs') = Some c'"
      by (cases rs) simp_all
    from run_created [OF assms(1,2) False assms(3) Some _ c1 this refl] assms(4) Some False save show ?thesis
      by (simp add: Let_def)
  qed
qed

section \<open>Examples\<close>

theorem compose_autosave_witness:
  "let C = Compose (\<lambda>t. t) plain_locale Undefined Undefined; c = boot C [] ''/compose'' in
   timers c = [(0, False, persist (\<lambda>t. t) (cp_initial Undefined Undefined))] \<and> length (timers c) \<le> 1"
proof -
  let ?C = "Compose (\<lambda>t. t) plain_locale Undefined Undefined" and ?s = "cp_initial Undefined Undefined"
  let ?d = "(mount_config ?C [] ''/compose'')\<lparr>st := ?s\<lparr>cp_timer := Some 0\<rparr>, next_timer := 1,
    timers := [(0, False, persist (\<lambda>t. t) ?s)]\<rparr>"
  have "exec (cp_commit (\<lambda>t. t) plain_locale None ?s) (mount_config ?C [] ''/compose'') = ?d"
    by (simp add: cp_commit_def cp_quote_def cp_load_def autosave_def replyTo_def forwardTo_def cp_initial_def
        mount_config_def Let_def)
  then have "boot ?C [] ''/compose'' = settle 49 ?C ?d" by (simp add: boot_mount)
  also have "\<dots> = ?d\<lparr>rendered := Some (st ?d)\<rparr>"
    by (subst settle_noop) (simp_all add: mount_config_def cp_commit_same)
  finally have t: "timers (boot ?C [] ''/compose'') = [(0, False, persist (\<lambda>t. t) ?s)]" by simp
  have "reachable ?C (boot ?C [] ''/compose'')" by (rule reachable.start)
  from compose_autosave [OF this] t show ?thesis unfolding Let_def by blast
qed

lemma draft_offers: "enabled (Compose dt loc rt lc) (draft_state b) (CpHtml v)"
    "enabled (Compose dt loc rt lc) (draft_state b) (CpFiles fs)"
  by (simp_all add: enabled_def cp_view_def shown_value_def js_get_def)

theorem compose_edit_saved_witness:
  "\<exists>c'. run (Compose (\<lambda>t. t) plain_locale (JStr ''5'') Undefined) (draft_page ''hi'')
      [UserDo (CpHtml ''bye''), TimerDue 0] = Some c' \<and> length (sent c') = 1"
proof -
  let ?C = "Compose (\<lambda>t. t) plain_locale (JStr ''5'') Undefined" and ?c = "draft_page ''hi''"
  have n: "next_timer ?c = 0" "timers ?c = []" by (simp_all add: draft_page_def)
  have "settle commit_limit ?C (?c\<lparr>st := draft_state ''bye''\<rparr>) =
      (let s = (draft_state ''bye'')\<lparr>cp_timer := Some 0\<rparr> in ?c\<lparr>st := s, rendered := Some s, next_timer := 1,
       timers := [(0, False, persist (\<lambda>t. t) (draft_state ''bye''))]\<rparr>)"
    by (subst cp_settle_edit [of _ "draft_state ''hi''"])
      (simp_all add: cp_origin_def replyTo_def forwardTo_def cp_content_def draft_state_def rearm_def n Let_def
        cp_initial_def)
  moreover have "(draft_state ''hi'')\<lparr>cp_html := JStr ''bye''\<rparr> = draft_state ''bye''" by (simp add: draft_state_def)
  ultimately obtain c' where c': "run ?C ?c [UserDo (CpHtml ''bye''), TimerDue (next_timer ?c)] = Some c'"
    using draft_offers(1) by (auto simp: n Let_def)
  from compose_edit_saved [OF _ _ _ c'] have
    "map wire (sent c') = [wire (cp_save_request (\<lambda>t. t) ((draft_state ''hi'')\<lparr>cp_html := JStr ''bye''\<rparr>))]"
    by (simp add: n)
  from arg_cong [OF this, of length] c' n show ?thesis by auto
qed

text \<open>A new message, for the last example.\<close>

definition new_page :: "cp_state config" where
  "new_page = (let s = cp_initial Undefined Undefined in \<lparr>st = s, rendered = Some s, mounted = True, pend = [],
     timers = [], next_timer = 0, cookie = [], pathname = ''/compose'', sent = [], effects = []\<rparr>)"

lemma new_page_simps [simp]:
  "st new_page = cp_initial Undefined Undefined" "rendered new_page = Some (cp_initial Undefined Undefined)"
  "mounted new_page" "pend new_page = []" "cookie new_page = []" "sent new_page = []"
  "\<not> truthy (cp_draftId (cp_initial Undefined Undefined))" "cp_error (cp_initial Undefined Undefined) = JStr []"
  by (simp_all add: new_page_def cp_initial_def Let_def)

theorem compose_uploads_witness:
  "\<exists>c'. run (Compose (\<lambda>t. t) plain_locale Undefined Undefined) new_page
      [UserDo (CpFiles [JObj [(''name'', JStr ''a.pdf'')], JObj [(''name'', JStr ''b.pdf'')]]),
       Answer 0 (Resolved (JObj [(''data'', JObj [(''id'', JStr ''9'')])])),
       Answer 0 (Rejected (JObj [(''message'', JStr ''too large'')])), Answer 1 (Resolved (JObj []))] = Some c' \<and>
    cp_error (st c') = JStr ''Attachment \"a.pdf\" failed: too large'' \<and> length (sent c') = 5"
proof -
  let ?C = "Compose (\<lambda>t. t) plain_locale Undefined Undefined" and ?c = new_page
  let ?a = "JObj [(''name'', JStr ''a.pdf'')]" and ?b = "JObj [(''name'', JStr ''b.pdf'')]"
  let ?made = "Resolved (JObj [(''data'', JObj [(''id'', JStr ''9'')])])"
  let ?r = "Rejected (JObj [(''message'', JStr ''too large'')])" and ?r' = "Resolved (JObj [])"
  have hyps: "rendered ?c = Some (st ?c)" "cookie_ok (cookie ?c)" "\<not> truthy (cp_draftId (st ?c))" by simp_all
  have id: "saved_id (st ?c) ?made = Some (JStr ''9'')" by (simp add: saved_id_def res_data_def)
  have "enabled ?C (st ?c) (CpFiles [?a, ?b])"
    by (simp add: enabled_def cp_view_def shown_value_def js_get_def cp_initial_def)
  then obtain c1 where c1: "run ?C ?c [UserDo (CpFiles [?a, ?b]), Answer (length (pend ?c)) ?made] = Some c1"
    by (simp add: handleFiles_request interceptor_signed settle_settled)
  from files_created(3) [OF hyps c1 refl id] obtain t b where b: "mounted b" "pend b = []" "cookie b = []"
    "c1 = with_draft (JStr ''9'') (signed (cookie b) (upload_request (JStr ''9'') ?a)) (upload_answer (JStr ''9'') ?a [?b]) t b"
    by (force simp del: with_draft_simps)
  have ck: "cookie c1 = []" by (simp add: b)
  from first_answer [OF b(1,4) _ refl, of ?r "\<lambda>t. t" plain_locale Undefined Undefined] b(2)
  have "\<exists>c2 x q k. step ?C c1 (Answer 0 ?r) = Some c2 \<and> pend c2 = [x, (Wire q, k)]"
    by (simp add: upload_all_request interceptor_signed ck del: upload_all.simps(2) step.simps)
  then obtain c2 x q k where c2: "step ?C c1 (Answer 0 ?r) = Some c2" "pend c2 = [x, (Wire q, k)]" by blast
  then have "step ?C c2 (Answer 1 ?r') \<noteq> None" by simp
  with c2(1) have "\<exists>c'. run ?C c1 [Answer 0 ?r, Answer 1 ?r'] = Some c'" by (auto simp del: step.simps)
  then obtain c' where "run ?C c1 [Answer 0 ?r, Answer 1 ?r'] = Some c'" by blast
  with c1 have c': "run ?C ?c [UserDo (CpFiles [?a, ?b]), Answer 0 ?made, Answer 0 ?r, Answer 1 ?r'] = Some c'"
    by (auto simp: bind_Some_iff simp del: step.simps)
  have e: "upload_error ?a (JObj [(''message'', JStr ''too large'')]) = JStr ''Attachment \"a.pdf\" failed: too large''"
    by code_simp
  have "\<forall>i. saved_id (st ?c) ?made = Some i \<longrightarrow> truthy i" using id by simp
  from compose_uploads [OF hyps(1,2) _ this, of "[?r, ?r']" "[?a, ?b]" "\<lambda>t. t" plain_locale Undefined Undefined c'] c' id
  have "length (map wire (sent c')) = 5" "cp_error (st c') = upload_error ?a (JObj [(''message'', JStr ''too large'')])"
    by (auto simp: upload_message_def upload_failure_def Let_def)
  with e c' show ?thesis by auto
qed

end
