(* ===== verification/Contacts.thy ===== *)
theory Contacts imports Api Busy_Flag begin

text \<open>
  \<open>web/src/components/Contacts.jsx\<close>: the address book. A contact is the object the server sent
  with \<open>notes\<close> added from \<open>vcard_data\<close>. The answer the user gives to \<open>confirm\<close> is part of the
  event \<open>CtDelete\<close>.
\<close>

record ct_form =
  form_name :: jsval
  form_email :: jsval
  form_phone :: jsval
  form_notes :: jsval

record ct_state =
  ct_contacts :: "jsval list"
  ct_loading :: bool
  ct_search :: string
  ct_editing :: jsval
  ct_showForm :: bool
  ct_form :: ct_form
  ct_formError :: jsval

datatype ct_event =
    is_CtSearch: CtSearch string
  | CtNew
  | CtEdit jsval
  | CtDelete jsval bool
  | CtClose
  | is_CtName: CtName string
  | is_CtEmail: CtEmail string
  | is_CtPhone: CtPhone string
  | is_CtNotes: CtNotes string
  | CtSave

definition empty_form :: ct_form where
  "empty_form = \<lparr>form_name = JStr [], form_email = JStr [], form_phone = JStr [], form_notes = JStr []\<rparr>"

definition form_json :: "ct_form \<Rightarrow> jsval" where
  "form_json f = JObj [(''name'', form_name f), (''email'', form_email f),
     (''phone'', form_phone f), (''notes'', form_notes f)]"

definition ct_initial :: ct_state where
  "ct_initial = \<lparr>ct_contacts = [], ct_loading = True, ct_search = [], ct_editing = Null,
     ct_showForm = False, ct_form = empty_form, ct_formError = JStr []\<rparr>"

section \<open>Handlers\<close>

text \<open>Line 17: \<open>{ ...c, notes: c.vcard_data || '' }\<close>.\<close>

definition with_notes :: "jsval \<Rightarrow> jsval option" where
  "with_notes c = do { v \<leftarrow> js_get c ''vcard_data''; Some (js_spread_set c ''notes'' (js_or v (JStr []))) }"

definition ct_fetch :: "ct_state prog" where
  "ct_fetch =
     (let finish = SetSt (ct_loading_update (\<lambda>_. False)) Done;
          failed = (\<lambda>err. Perform (ConsoleError [] err) finish) in
      SetSt (ct_loading_update (\<lambda>_. True))
      (getContacts
        (\<lambda>data. attempt (do { cs \<leftarrow> js_elems data; sequence (map with_notes cs) })
           (\<lambda>cs. SetSt (ct_contacts_update (\<lambda>_. cs)) finish) failed)
        failed))"

definition ct_saved :: "ct_state prog" where
  "ct_saved =
     SetSt (ct_showForm_update (\<lambda>_. False))
     (SetSt (ct_editing_update (\<lambda>_. Null))
     (SetSt (ct_form_update (\<lambda>_. empty_form)) ct_fetch))"

text \<open>Lines 31 to 46.\<close>

definition ct_save :: "ct_state \<Rightarrow> ct_state prog" where
  "ct_save s =
     (let failed = (\<lambda>err. SetSt (ct_formError_update
            (\<lambda>_. err_text err (JStr ''Failed to save contact''))) Done) in
      SetSt (ct_formError_update (\<lambda>_. JStr []))
      (if truthy (ct_editing s)
       then attempt (js_get (ct_editing s) ''id'')
         (\<lambda>i. updateContact i (form_json (ct_form s)) (\<lambda>_. ct_saved) failed) failed
       else createContact (form_json (ct_form s)) (\<lambda>_. ct_saved) failed))"

definition ct_edit :: "jsval \<Rightarrow> ct_state prog" where
  "ct_edit contact =
     SetSt (ct_editing_update (\<lambda>_. contact))
     (SetSt (ct_form_update (\<lambda>_. \<lparr>
        form_name = js_or (js_oget contact ''name'') (JStr []),
        form_email = js_or (js_oget contact ''email'') (JStr []),
        form_phone = js_or (js_oget contact ''phone'') (JStr []),
        form_notes = js_or (js_oget contact ''notes'') (JStr [])\<rparr>))
     (SetSt (ct_showForm_update (\<lambda>_. True)) Done))"

definition ct_delete :: "jsval \<Rightarrow> bool \<Rightarrow> ct_state prog" where
  "ct_delete i confirmed =
     Perform (AskConfirm ''Delete this contact?'')
     (if \<not> confirmed then Done
      else deleteContact i (\<lambda>_. ct_fetch) (\<lambda>err. Perform (ConsoleError ''Delete failed:'' err) Done))"

fun ct_handle :: "ct_event \<Rightarrow> ct_state \<Rightarrow> ct_state prog" where
  "ct_handle (CtSearch v) s = SetSt (ct_search_update (\<lambda>_. v)) Done"
| "ct_handle CtNew s = SetSt (ct_showForm_update (\<lambda>_. True))
     (SetSt (ct_editing_update (\<lambda>_. Null)) (SetSt (ct_form_update (\<lambda>_. empty_form)) Done))"
| "ct_handle (CtEdit contact) s = ct_edit contact"
| "ct_handle (CtDelete i confirmed) s = ct_delete i confirmed"
| "ct_handle CtClose s = SetSt (ct_showForm_update (\<lambda>_. False)) Done"
| "ct_handle (CtName v) s = SetSt (ct_form_update (\<lambda>_. (ct_form s)\<lparr>form_name := JStr v\<rparr>)) Done"
| "ct_handle (CtEmail v) s = SetSt (ct_form_update (\<lambda>_. (ct_form s)\<lparr>form_email := JStr v\<rparr>)) Done"
| "ct_handle (CtPhone v) s = SetSt (ct_form_update (\<lambda>_. (ct_form s)\<lparr>form_phone := JStr v\<rparr>)) Done"
| "ct_handle (CtNotes v) s = SetSt (ct_form_update (\<lambda>_. (ct_form s)\<lparr>form_notes := JStr v\<rparr>)) Done"
| "ct_handle CtSave s = ct_save s"

definition ct_commit :: "ct_state option \<Rightarrow> ct_state \<Rightarrow> ct_state prog" where
  "ct_commit old s = (if old = None then ct_fetch else Done)"

section \<open>The view\<close>

text \<open>\<open>(v || '').toLowerCase().includes(q)\<close>; only strings have these methods.\<close>

fun contains_text :: "string \<Rightarrow> jsval \<Rightarrow> bool option" where
  "contains_text q v = (case js_or v (JStr []) of
     JStr t \<Rightarrow> Some (js_includes (js_lower t) q) | _ \<Rightarrow> None)"

definition ct_matches :: "string \<Rightarrow> jsval \<Rightarrow> bool option" where
  "ct_matches search c = do {
     n \<leftarrow> js_get c ''name'';
     inName \<leftarrow> contains_text (js_lower search) n;
     if inName then Some True
     else do { e \<leftarrow> js_get c ''email''; contains_text (js_lower search) e } }"

definition ct_filtered :: "ct_state \<Rightarrow> jsval list option" where
  "ct_filtered s = filter_option (ct_matches (ct_search s)) (ct_contacts s)"

text \<open>Lines 108 to 131; the two answers to \<open>confirm\<close> are two ways to click the bin.\<close>

definition ct_card :: "jsval \<Rightarrow> ct_event ui option" where
  "ct_card contact = do {
     i \<leftarrow> js_get contact ''id'';
     let name = js_prop contact ''name'';
     let email = js_prop contact ''email'';
     letter \<leftarrow> js_initial (js_or name (js_or email (JStr ''U'')));
     who \<leftarrow> js_child (js_or name (JStr ''Unnamed''));
     address \<leftarrow> js_child email;
     phone \<leftarrow> shown_value (js_prop contact ''phone'') (\<lambda>t. [Icon ''Phone'', Txt t]);
     notes \<leftarrow> shown_value (js_prop contact ''notes'') (\<lambda>t. [Txt t]);
     Some (Box ([Txt letter, Txt who, Txt address,
        Btn False (CtEdit contact) [Icon ''Edit2''],
        Btn False (CtDelete i True) [Icon ''Trash2''], Btn False (CtDelete i False) [Icon ''Trash2'']]
        @ phone @ notes)) }"

definition ct_form_view :: "ct_state \<Rightarrow> ct_event ui option" where
  "ct_form_view s = do {
     err \<leftarrow> shown_value (ct_formError s) (\<lambda>t. [Txt t]);
     Some (Box
       ([Txt (if truthy (ct_editing s) then ''Edit Contact'' else ''New Contact''),
         Btn False CtClose [Icon ''X'']] @ err @
        [Field (form_name (ct_form s)) is_CtName, Field (form_email (ct_form s)) is_CtEmail,
         Field (form_phone (ct_form s)) is_CtPhone, Field (form_notes (ct_form s)) is_CtNotes,
         Btn False CtClose [Txt ''Cancel''], Btn False CtSave [Icon ''Save'', Txt ''Save'']])) }"

definition ct_view :: "ct_state \<Rightarrow> ct_event ui option" where
  "ct_view s = do {
     filtered \<leftarrow> ct_filtered s;
     list \<leftarrow> (if ct_loading s then Some (Icon ''spinner'')
       else if filtered = [] then Some (Box [Txt ''No contacts'', Txt ''Add your first contact to get started''])
       else map_option Box (sequence (map ct_card filtered)));
     modal \<leftarrow> (if ct_showForm s then map_option (\<lambda>u. [u]) (ct_form_view s) else Some []);
     Some (Box ([Txt ''Contacts'', Btn False CtNew [Icon ''UserPlus'', Txt ''New Contact''],
        Field (JStr (ct_search s)) is_CtSearch, list] @ modal)) }"

definition Contacts :: "(ct_event, ct_state) component" where
  "Contacts = \<lparr>initial = ct_initial, handle = ct_handle, after_commit = ct_commit,
     cleanup = \<lambda>_. Done, view = ct_view, external = \<lambda>_. False\<rparr>"

lemma Contacts_simps [simp]:
  "initial Contacts = ct_initial" "handle Contacts = ct_handle" "after_commit Contacts = ct_commit"
  "cleanup Contacts s = Done" "view Contacts = ct_view" "external Contacts e = False"
  by (simp_all add: Contacts_def)

lemmas ct_defs = ct_fetch_def ct_saved_def ct_save_def ct_edit_def ct_delete_def ct_commit_def

interpretation ct_spinner: busy_flag Contacts ct_loading "\<lambda>_ _. False"
proof unfold_locales
  show "tidy ct_loading False (handle Contacts ev s)" for ev s
    by (cases ev) (auto simp: ct_defs api react Let_def split: option.split)
qed (auto simp: ct_initial_def ct_defs api react Let_def split: option.split)

section \<open>Facts\<close>

lemma ct_settle:
  "rendered c \<noteq> None \<Longrightarrow> mounted c \<Longrightarrow> settle commit_limit Contacts c = c\<lparr>rendered := Some (st c)\<rparr>"
  by (subst settle_done) (auto simp: ct_commit_def)

definition ct_save_wire :: "ct_state \<Rightarrow> string \<times> string \<times> payload" where
  "ct_save_wire s =
     (if truthy (ct_editing s)
      then (''patch'', ''/contacts/'' @ js_string (js_oget (ct_editing s) ''id''), Json (form_json (ct_form s)))
      else (''post'', ''/contacts'', Json (form_json (ct_form s))))"

text \<open>Saving is one request whatever the form holds.\<close>

definition ct_save_answer :: "reply \<Rightarrow> ct_state prog" where
  "ct_save_answer r =
     (let failed = (\<lambda>err. SetSt (ct_formError_update
            (\<lambda>_. err_text err (JStr ''Failed to save contact''))) Done) in
      case r of Resolved res \<Rightarrow> (case res_data res of Some _ \<Rightarrow> ct_saved | None \<Rightarrow> failed type_error)
      | Rejected err \<Rightarrow> failed err)"

lemma ct_save_request:
  "\<exists>q. ct_save s = SetSt (ct_formError_update (\<lambda>_. JStr [])) (Request q ct_save_answer) \<and>
     wire q = ct_save_wire s"
proof (cases "truthy (ct_editing s)")
  case True
  then have "js_get (ct_editing s) ''id'' = Some (js_oget (ct_editing s) ''id'')"
    using nullish_not_truthy by (auto simp: js_get_def js_oget_def)
  with True show ?thesis
    by (simp add: ct_save_def ct_save_wire_def ct_save_answer_def api call_def fun_eq_iff Let_def)
next
  case False
  then show ?thesis
    by (simp add: ct_save_def ct_save_wire_def ct_save_answer_def api call_def fun_eq_iff Let_def)
qed

text \<open>A contact whose name and email are strings or missing.\<close>

definition text_or_missing :: "jsval \<Rightarrow> bool" where
  "text_or_missing v \<longleftrightarrow> (\<exists>s. js_or v (JStr []) = JStr s)"

definition proper_contact :: "jsval \<Rightarrow> bool" where
  "proper_contact c \<longleftrightarrow> \<not> nullish c \<and> text_or_missing (js_prop c ''name'') \<and>
     text_or_missing (js_prop c ''email'')"

definition field_text :: "jsval \<Rightarrow> string" where
  "field_text v = js_string (js_or v (JStr []))"

definition found_in :: "string \<Rightarrow> jsval \<Rightarrow> bool" where
  "found_in q c \<longleftrightarrow> js_includes (js_lower (field_text (js_prop c ''name''))) (js_lower q) \<or>
     js_includes (js_lower (field_text (js_prop c ''email''))) (js_lower q)"

lemma contains_field: "text_or_missing v \<Longrightarrow> contains_text q v = Some (js_includes (js_lower (field_text v)) q)"
  by (auto simp: text_or_missing_def field_text_def)

lemma ct_matches_found: "proper_contact c \<Longrightarrow> ct_matches q c = Some (found_in q c)"
  by (simp add: ct_matches_def proper_contact_def js_get_def contains_field found_in_def del: contains_text.simps)

lemma js_includes_prefix: "js_includes s (p @ q) \<Longrightarrow> js_includes s p"
  by (auto simp: js_includes_iff)

section \<open>Properties\<close>

text \<open>
  C22. Saving the form sends it once, to the contact being edited when there is one and as a new
  contact otherwise. When the server accepts it, the form closes, is emptied, and the list is
  fetched again; on any failure the form stays open with everything typed, the contact being
  edited stays the same, and a non-empty message is shown.
\<close>

theorem ct_save_outcome:
  assumes "rendered c \<noteq> None" "cookie_ok (cookie c)"
    and "run Contacts c [UserDo CtSave, Answer (length (pend c)) r] = Some c'"
  shows "(if (case r of Resolved res \<Rightarrow> \<not> nullish res | Rejected _ \<Rightarrow> False)
    then \<not> ct_showForm (st c') \<and> ct_editing (st c') = Null \<and> ct_form (st c') = empty_form \<and>
      ct_formError (st c') = JStr [] \<and>
      map wire (sent c') = map wire (sent c) @ [ct_save_wire (st c), (''get'', ''/contacts'', NoBody)]
    else ct_showForm (st c') = ct_showForm (st c) \<and> ct_editing (st c') = ct_editing (st c) \<and>
      ct_form (st c') = ct_form (st c) \<and> truthy (ct_formError (st c')) \<and>
      map wire (sent c') = map wire (sent c) @ [ct_save_wire (st c)])"
proof -
  obtain q where q: "handle Contacts CtSave (st c)
      = SetSt (ct_formError_update (\<lambda>_. JStr [])) (Request q ct_save_answer)" "wire q = ct_save_wire (st c)"
    using ct_save_request [of "st c"] by auto
  have "after_commit Contacts (rendered c) ((st c)\<lparr>ct_formError := JStr []\<rparr>) = Done"
    using assms(1) by (cases "rendered c") (simp_all add: ct_commit_def)
  from update_ask_and_answer [OF q(1) this assms(3)] q(2) assms(2) show ?thesis
    by (cases r) (auto simp: ct_save_answer_def ct_saved_def ct_fetch_def api call_def interceptor_signed
        ct_settle truthy_err_text res_data_def js_get_def Let_def split: option.splits)
qed

theorem ct_save_outcome_witness:
  "let c = (boot Contacts [] ''/contacts'')\<lparr>st := ct_initial\<lparr>ct_showForm := True,
         ct_form := empty_form\<lparr>form_name := JStr ''Ann''\<rparr>\<rparr>\<rparr>;
       r = Rejected (server_error 400 ''/contacts'' ''email required'')
   in \<exists>c'. run Contacts c [UserDo CtSave, Answer (length (pend c)) r] = Some c' \<and>
      form_name (ct_form (st c')) = JStr ''Ann'' \<and> ct_showForm (st c')"
proof -
  let ?c = "(boot Contacts [] ''/contacts'')\<lparr>st := ct_initial\<lparr>ct_showForm := True,
         ct_form := empty_form\<lparr>form_name := JStr ''Ann''\<rparr>\<rparr>\<rparr>"
  let ?r = "Rejected (server_error 400 ''/contacts'' ''email required'')"
  have b: "boot Contacts [] ''/contacts'' = (exec ct_fetch (mount_config Contacts [] ''/contacts''))
      \<lparr>rendered := Some (st (exec ct_fetch (mount_config Contacts [] ''/contacts'')))\<rparr>"
    unfolding boot_mount by (subst settle_done) (auto simp: ct_commit_def mount_config_def)
  have e: "enabled Contacts (st ?c) CtSave"
    by (simp add: enabled_def ct_view_def ct_filtered_def ct_initial_def ct_form_view_def shown_value_def)
  have r: "rendered ?c \<noteq> None" "cookie_ok (cookie ?c)" by (simp_all add: b mount_config_def)
  obtain q where q: "ct_save (ct_initial\<lparr>ct_showForm := True, ct_form := empty_form\<lparr>form_name := JStr ''Ann''\<rparr>\<rparr>)
      = SetSt (ct_formError_update (\<lambda>_. JStr [])) (Request q ct_save_answer)"
    using ct_save_request by blast
  have "run Contacts ?c [UserDo CtSave, Answer (length (pend ?c)) ?r] \<noteq> None"
    using e by (simp add: q b mount_config_def ct_fetch_def api call_def ct_settle server_error_def Let_def)
  then obtain c' where c': "run Contacts ?c [UserDo CtSave, Answer (length (pend ?c)) ?r] = Some c'" by auto
  from ct_save_outcome [OF r c'] have "form_name (ct_form (st c')) = JStr ''Ann''" "ct_showForm (st c')"
    by auto
  with c' show ?thesis unfolding Let_def by blast
qed

text \<open>
  C24. The list shows exactly the contacts whose name or email contains the search text, upper or
  lower case alike, in their order; typing on never brings a contact back that was filtered out.
\<close>

theorem ct_filter_correct:
  assumes "list_all proper_contact (ct_contacts s)"
  shows "ct_filtered s = Some (filter (found_in (ct_search s)) (ct_contacts s)) \<and>
    (\<forall>more. set (the (ct_filtered (s\<lparr>ct_search := ct_search s @ more\<rparr>))) \<subseteq> set (the (ct_filtered s)))"
proof -
  have f: "ct_filtered s' = Some (filter (found_in (ct_search s')) (ct_contacts s'))"
    if "list_all proper_contact (ct_contacts s')" for s'
    unfolding ct_filtered_def
    by (rule map_filter_option) (use that in \<open>auto simp: list_all_iff ct_matches_found\<close>)
  have "found_in (q @ more) c \<Longrightarrow> found_in q c" for q more c
    using js_includes_prefix by (auto simp: found_in_def js_lower_def)
  with f [of s] f [of "s\<lparr>ct_search := _\<rparr>"] assms show ?thesis by auto
qed

theorem ct_filter_correct_witness:
  "ct_filtered (ct_initial\<lparr>ct_contacts := [JObj [(''name'', JStr ''Ann'')], JObj [(''email'', JStr ''bob@x.org'')]],
       ct_search := ''AN''\<rparr>) = Some [JObj [(''name'', JStr ''Ann'')]]"
proof -
  let ?s = "ct_initial\<lparr>ct_contacts := [JObj [(''name'', JStr ''Ann'')], JObj [(''email'', JStr ''bob@x.org'')]],
       ct_search := ''AN''\<rparr>"
  have "list_all proper_contact (ct_contacts ?s)"
    by (simp add: proper_contact_def text_or_missing_def)
  moreover have "found_in ''AN'' (JObj [(''name'', JStr ''Ann'')])"
      "\<not> found_in ''AN'' (JObj [(''email'', JStr ''bob@x.org'')])"
    by code_simp+
  ultimately show ?thesis using ct_filter_correct [of ?s] by simp
qed

text \<open>
  C23. Editing round trip: opening a contact of the list for editing and saving it untouched sends
  back, to that contact, the name, email and phone the server sent, and as notes its
  \<open>vcard_data\<close>.
\<close>

theorem ct_edit_roundtrip:
  assumes "rendered c \<noteq> None" "cookie_ok (cookie c)"
    and "with_notes (JObj kvs) = Some contact"
    and "run Contacts c [UserDo (CtEdit contact), UserDo CtSave] = Some c'"
  shows "\<exists>q. sent c' = sent c @ [q] \<and>
    wire q = (''patch'', ''/contacts/'' @ js_string (js_prop (JObj kvs) ''id''),
      Json (JObj [(''name'', js_or (js_prop (JObj kvs) ''name'') (JStr [])),
                  (''email'', js_or (js_prop (JObj kvs) ''email'') (JStr [])),
                  (''phone'', js_or (js_prop (JObj kvs) ''phone'') (JStr [])),
                  (''notes'', js_or (js_prop (JObj kvs) ''vcard_data'') (JStr []))]))"
proof -
  have contact: "contact = js_spread_set (JObj kvs) ''notes'' (js_or (js_prop (JObj kvs) ''vcard_data'') (JStr []))"
    using assms(3) by (simp add: with_notes_def)
  let ?s = "st (exec (ct_edit contact) c)"
  have m: "mounted c" using assms(4) by (auto simp: bind_Some_iff split: if_splits)
  obtain q where q: "ct_save ?s = SetSt (ct_formError_update (\<lambda>_. JStr [])) (Request q ct_save_answer)"
    "wire q = ct_save_wire ?s"
    using ct_save_request [of ?s] by auto
  have "js_or (js_or v (JStr [])) (JStr []) = js_or v (JStr [])" for v by (simp add: js_or_def)
  then have w: "wire q = (''patch'', ''/contacts/'' @ js_string (js_prop (JObj kvs) ''id''),
      Json (JObj [(''name'', js_or (js_prop (JObj kvs) ''name'') (JStr [])),
                  (''email'', js_or (js_prop (JObj kvs) ''email'') (JStr [])),
                  (''phone'', js_or (js_prop (JObj kvs) ''phone'') (JStr [])),
                  (''notes'', js_or (js_prop (JObj kvs) ''vcard_data'') (JStr []))]))"
    unfolding q(2) using m by (simp add: ct_save_wire_def ct_edit_def contact js_spread_set_def form_json_def)
  have "sent c' = sent c @ [signed (cookie c) q]"
    using assms(1,2,4) m q(1)
    by (auto simp: bind_Some_iff ct_settle interceptor_signed ct_edit_def split: if_splits)
  with w show ?thesis by auto
qed

theorem ct_edit_roundtrip_witness:
  "let kvs = [(''id'', JStr ''9''), (''name'', JStr ''Ann''), (''vcard_data'', JStr ''note'')];
       contact = JObj (kvs @ [(''notes'', JStr ''note'')]);
       c = (boot Contacts [] ''/contacts'')\<lparr>st := ct_initial\<lparr>ct_contacts := [contact], ct_loading := False\<rparr>\<rparr>
   in \<exists>c' q. run Contacts c [UserDo (CtEdit contact), UserDo CtSave] = Some c' \<and>
      sent c' = sent c @ [q] \<and> req_url q = ''/contacts/9''"
proof -
  let ?kvs = "[(''id'', JStr ''9''), (''name'', JStr ''Ann''), (''vcard_data'', JStr ''note'')]"
  let ?contact = "JObj (?kvs @ [(''notes'', JStr ''note'')])"
  let ?s = "ct_initial\<lparr>ct_contacts := [?contact], ct_loading := False\<rparr>"
  let ?c = "(boot Contacts [] ''/contacts'')\<lparr>st := ?s\<rparr>"
  have b: "boot Contacts [] ''/contacts'' = (exec ct_fetch (mount_config Contacts [] ''/contacts''))
      \<lparr>rendered := Some (st (exec ct_fetch (mount_config Contacts [] ''/contacts'')))\<rparr>"
    unfolding boot_mount by (subst settle_done) (auto simp: ct_commit_def mount_config_def)
  have r: "rendered ?c \<noteq> None" "cookie_ok (cookie ?c)" by (simp_all add: b mount_config_def)
  have w: "with_notes (JObj ?kvs) = Some ?contact" by (simp add: with_notes_def js_spread_set_def)
  have f: "ct_filtered s = Some [?contact]" if "ct_contacts s = [?contact]" "ct_search s = []" for s
    using that by (simp add: ct_filtered_def ct_matches_def js_lower_def)
  have e: "enabled Contacts ?s (CtEdit ?contact)"
    by (simp add: enabled_def ct_view_def f ct_initial_def ct_card_def shown_value_def)
  let ?t = "st (exec (ct_edit ?contact) ?c)"
  have e2: "enabled Contacts ?t CtSave"
    by (simp add: enabled_def ct_view_def f ct_initial_def ct_card_def shown_value_def ct_edit_def
        ct_form_view_def b mount_config_def)
  have "run Contacts ?c [UserDo (CtEdit ?contact), UserDo CtSave] \<noteq> None"
    using e e2 by (simp add: ct_settle b mount_config_def)
  then obtain c' where c': "run Contacts ?c [UserDo (CtEdit ?contact), UserDo CtSave] = Some c'" by auto
  from ct_edit_roundtrip [OF r w c'] obtain q where "sent c' = sent ?c @ [q]" "req_url q = ''/contacts/9''"
    by (auto simp: wire_def)
  with c' show ?thesis unfolding Let_def by blast
qed

text \<open>
  Opening the form does not clear the message of an earlier failed save: after a failure, closing
  the form and asking for a new contact shows the old message on the empty form.
\<close>

lemma ct_stale_error:
  "rendered c \<noteq> None \<Longrightarrow> run Contacts c [UserDo CtClose, UserDo CtNew] = Some c' \<Longrightarrow>
   ct_formError (st c') = ct_formError (st c) \<and> ct_form (st c') = empty_form"
  by (auto simp: bind_Some_iff ct_settle split: if_splits)

end
