(* ===== verification/Inbox.thy ===== *)
theory Inbox imports Api Busy_Flag begin

text \<open>
  \<open>web/src/components/Inbox.jsx\<close>: the message list of a label or of a search, page by page.
  \<open>in_label\<close> and \<open>in_query\<close> are what the router gives (\<open>useParams\<close>, \<open>useSearchParams\<close>) and change
  with \<open>InRoute\<close>; \<open>InNew\<close> is the \<open>message:new\<close> callback the component subscribes with \<open>sse.on\<close>, which
  it replaces whenever \<open>fetchMessages\<close> changes, so it is the one of the last commit. A \<open>Set\<close> of
  identifiers is a list without repetitions, in insertion order. The dashes of the page are
  plain ones here.
\<close>

record in_state =
  in_label :: jsval
  in_query :: jsval
  in_messages :: jsval
  in_labels :: jsval
  in_loading :: bool
  in_selected :: "jsval list"
  in_offset :: int
  in_total :: jsval
  in_notice :: string

datatype in_event =
    InRoute jsval jsval
  | InNew
  | InSelectAll
  | InSelect jsval
  | InBatch string
  | InRefresh
  | InDismiss
  | InOpen jsval
  | InStar jsval
  | InPrev
  | InNext

definition in_limit :: int where
  "in_limit = 50"

definition in_initial :: "jsval \<Rightarrow> jsval \<Rightarrow> in_state" where
  "in_initial label query = \<lparr>in_label = label, in_query = query, in_messages = JArr [],
     in_labels = JArr [], in_loading = True, in_selected = [], in_offset = 0, in_total = JNum 0,
     in_notice = []\<rparr>"

section \<open>Handlers\<close>

text \<open>Lines 24 to 37; \<open>params\<close> is built from the values of the render.\<close>

definition in_params :: "in_state \<Rightarrow> jsval" where
  "in_params s = JObj ([(''limit'', JNum in_limit), (''offset'', JNum (in_offset s))] @
     (if truthy (in_query s) then [(''q'', in_query s)] else []))"

definition fetchMessages :: "in_state \<Rightarrow> in_state prog" where
  "fetchMessages s =
     (let finish = SetSt (in_loading_update (\<lambda>_. False)) Done;
          failed = (\<lambda>err. Perform (ConsoleError ''Failed to load messages:'' err) finish) in
      SetSt (in_loading_update (\<lambda>_. True))
      (getMessages (js_or (in_label s) Null) (in_params s)
        (\<lambda>data. attempt (do { m \<leftarrow> js_get data ''messages''; t \<leftarrow> js_get data ''total''; Some (m, t) })
           (\<lambda>(m, t). SetSt (in_messages_update (\<lambda>_. js_or m (JArr [])))
              (SetSt (in_total_update (\<lambda>_. js_or t (JNum 0))) finish))
           failed)
        failed))"

definition fetchLabels :: "in_state prog" where
  "fetchLabels = getLabels (\<lambda>data. SetSt (in_labels_update (\<lambda>_. data)) Done)
     (\<lambda>err. Perform (ConsoleError [] err) Done)"

text \<open>What the dependency array \<open>[labelId, offset, searchQuery]\<close> watches.\<close>

definition in_key :: "in_state \<Rightarrow> jsval \<times> int \<times> jsval" where
  "in_key s = (in_label s, in_offset s, in_query s)"

text \<open>The effects of lines 39 to 46.\<close>

definition in_commit :: "in_state option \<Rightarrow> in_state \<Rightarrow> in_state prog" where
  "in_commit old s =
     Fork (if old = None then fetchLabels else Done)
       (if map_option in_key old = Some (in_key s) then Done
        else Fork (fetchMessages s) (SetSt (in_selected_update (\<lambda>_. [])) Done))"

definition toggle_member :: "jsval \<Rightarrow> jsval list \<Rightarrow> jsval list" where
  "toggle_member i xs = (if i \<in> set xs then filter (\<lambda>x. x \<noteq> i) xs else xs @ [i])"

fun set_of_list :: "jsval list \<Rightarrow> jsval list" where
  "set_of_list [] = []"
| "set_of_list (x # xs) = x # filter (\<lambda>y. y \<noteq> x) (set_of_list xs)"

definition toggleSelect :: "jsval \<Rightarrow> in_state \<Rightarrow> in_state prog" where
  "toggleSelect i s = SetSt (in_selected_update (\<lambda>_. toggle_member i (in_selected s))) Done"

definition message_ids :: "jsval \<Rightarrow> jsval list option" where
  "message_ids msgs = do { ms \<leftarrow> js_elems msgs; sequence (map (\<lambda>m. js_get m ''id'') ms) }"

text \<open>Lines 62 to 68. The comparison is of the two sizes only.\<close>

definition all_selected :: "in_state \<Rightarrow> bool" where
  "all_selected s \<longleftrightarrow> js_prop (in_messages s) ''length'' = JNum (int (length (in_selected s)))"

definition toggleSelectAll :: "in_state \<Rightarrow> in_state prog" where
  "toggleSelectAll s =
     (if all_selected s then SetSt (in_selected_update (\<lambda>_. [])) Done
      else attempt (message_ids (in_messages s))
        (\<lambda>ids. SetSt (in_selected_update (\<lambda>_. set_of_list ids)) Done) uncaught)"

definition batch_notice :: "string \<Rightarrow> in_state \<Rightarrow> jsval \<Rightarrow> string" where
  "batch_notice action s res =
     (let failed = js_oget (js_oget res ''failed'') ''length'' in
      if js_positive failed
      then js_string failed @ '' of '' @ nat_str (length (in_selected s)) @ '' message(s) failed to '' @ action
      else [])"

text \<open>Lines 70 to 84.\<close>

definition handleBatch :: "string \<Rightarrow> in_state \<Rightarrow> in_state prog" where
  "handleBatch action s =
     (if in_selected s = [] then Done
      else batchMessages (JStr action) (JArr (in_selected s))
        (\<lambda>res. SetSt (in_notice_update (\<lambda>_. batch_notice action s res))
           (Fork (fetchMessages s) (SetSt (in_selected_update (\<lambda>_. [])) Done)))
        (\<lambda>err. SetSt (in_notice_update (\<lambda>_. ''Batch '' @ action @ '' failed: '' @
             js_string (err_text err (js_prop err ''message'')))) Done))"

text \<open>Lines 86 to 93; nothing on the page calls it.\<close>

definition handleDelete :: "jsval \<Rightarrow> in_state \<Rightarrow> in_state prog" where
  "handleDelete i s = deleteMessage i (\<lambda>_. fetchMessages s)
     (\<lambda>err. Perform (ConsoleError ''Delete failed:'' err) Done)"

definition handleToggleStar :: "jsval \<Rightarrow> in_state \<Rightarrow> in_state prog" where
  "handleToggleStar msg s =
     (let failed = (\<lambda>err. Perform (ConsoleError ''Star toggle failed:'' err) Done) in
      attempt (do { i \<leftarrow> js_get msg ''id''; f \<leftarrow> js_get msg ''is_flagged''; Some (i, f) })
        (\<lambda>(i, f). patchMessage i (JObj [(''is_flagged'', js_not f)]) (\<lambda>_. fetchMessages s) failed)
        failed)"

definition in_open :: "jsval \<Rightarrow> in_state prog" where
  "in_open msg = Perform (Navigate
     ((if truthy (js_oget msg ''is_draft'') then ''/compose/'' else ''/message/'') @
      js_string (js_oget msg ''id'')) Undefined) Done"

fun in_handle :: "in_event \<Rightarrow> in_state \<Rightarrow> in_state prog" where
  "in_handle (InRoute label query) s =
     SetSt (in_label_update (\<lambda>_. label)) (SetSt (in_query_update (\<lambda>_. query)) Done)"
| "in_handle InNew s = fetchMessages s"
| "in_handle InSelectAll s = toggleSelectAll s"
| "in_handle (InSelect i) s = toggleSelect i s"
| "in_handle (InBatch action) s = handleBatch action s"
| "in_handle InRefresh s = fetchMessages s"
| "in_handle InDismiss s = SetSt (in_notice_update (\<lambda>_. [])) Done"
| "in_handle (InOpen msg) s = in_open msg"
| "in_handle (InStar msg) s = handleToggleStar msg s"
| "in_handle InPrev s = SetSt (in_offset_update (\<lambda>_. max 0 (in_offset s - in_limit))) Done"
| "in_handle InNext s = SetSt (in_offset_update (\<lambda>_. in_offset s + in_limit)) Done"

section \<open>The view\<close>

text \<open>Lines 218 to 227.\<close>

definition formatDate :: "locale_fns \<Rightarrow> jsval \<Rightarrow> string" where
  "formatDate loc d =
     (if \<not> truthy d then [] else if is_today loc d then hour_minute loc d else month_day loc d)"

definition in_row :: "locale_fns \<Rightarrow> in_state \<Rightarrow> jsval \<Rightarrow> in_event ui option" where
  "in_row loc s msg = do {
     i \<leftarrow> js_get msg ''id'';
     let from = js_prop msg ''from'';
     who \<leftarrow> js_child (js_or (js_oget from ''name'') (js_or (js_oget from ''email'') (JStr ''Unknown'')));
     subject \<leftarrow> js_child (js_or (js_prop msg ''subject'') (JStr ''(no subject)''));
     snippet \<leftarrow> js_child (js_or (js_prop msg ''snippet'') (JStr []));
     clip \<leftarrow> (if truthy (js_prop msg ''has_attachment'') then Some [Icon ''Paperclip'']
              else map_option (\<lambda>t. [Txt t]) (js_child (js_prop msg ''has_attachment'')));
     Some (Clickable (InOpen msg)
       ([Btn False (InSelect i) [Icon (if i \<in> set (in_selected s) then ''CheckSquare'' else ''Square'')],
         Btn False (InStar msg) [Icon (if truthy (js_prop msg ''is_flagged'') then ''Star filled'' else ''Star'')],
         Txt who, Txt subject, Txt (''- '' @ snippet)] @ clip @
        [Txt (formatDate loc (js_prop msg ''date''))])) }"

text \<open>Lines 191 to 210.\<close>

definition at_end :: "in_state \<Rightarrow> bool" where
  "at_end s = (case js_number (in_total s) of Some t \<Rightarrow> in_offset s + in_limit \<ge> t | None \<Rightarrow> False)"

definition in_pages :: "in_state \<Rightarrow> in_event ui option" where
  "in_pages s = do {
     total \<leftarrow> js_child (in_total s);
     let upto = (case js_number (in_total s) of
        Some t \<Rightarrow> int_str (min (in_offset s + in_limit) t) | None \<Rightarrow> ''NaN'');
     Some (Box [Txt (int_str (in_offset s + 1) @ ''-'' @ upto @ '' of '' @ total),
       Btn (in_offset s = 0) InPrev [Icon ''ChevronLeft''],
       Btn (at_end s) InNext [Icon ''ChevronRight'']]) }"

definition in_list :: "locale_fns \<Rightarrow> in_state \<Rightarrow> in_event ui option" where
  "in_list loc s = do {
     n \<leftarrow> js_get (in_messages s) ''length'';
     if n = JNum 0 then Some (if in_loading s then Icon ''spinner''
       else Box [Txt ''No messages'',
         Txt (if truthy (in_query s) then ''Try a different search'' else ''Your inbox is empty'')])
     else do {
       ms \<leftarrow> js_elems (in_messages s);
       rows \<leftarrow> sequence (map (in_row loc s) ms);
       pages \<leftarrow> in_pages s;
       Some (Box (rows @ [pages])) } }"

text \<open>Line 22, part of every render: \<open>find\<close> wants an array, and reads the labels up to the one shown.\<close>

definition currentLabel :: "in_state \<Rightarrow> jsval option" where
  "currentLabel s = do {
     ls \<leftarrow> js_elems (in_labels s);
     l \<leftarrow> js_find ''id'' (in_label s) ls;
     Some (js_or l (JObj [(''name'', JStr ''Inbox''), (''id'', Null)])) }"

definition in_view :: "locale_fns \<Rightarrow> in_state \<Rightarrow> in_event ui option" where
  "in_view loc s = do {
     current \<leftarrow> currentLabel s;
     list \<leftarrow> in_list loc s;
     Some (Box
       ([Btn False InSelectAll [Icon (if all_selected s \<and> js_positive (js_oget (in_messages s) ''length'')
           then ''CheckSquare'' else ''Square'')]] @
        shown (in_selected s \<noteq> []) [Btn False (InBatch ''archive'') [Icon ''Archive''],
          Btn False (InBatch ''spam'') [Icon ''AlertCircle''],
          Btn False (InBatch ''delete'') [Icon ''Trash2'']] @
        [Btn False InRefresh [Icon (if in_loading s then ''RefreshCw spinning'' else ''RefreshCw'')]] @
        shown (in_notice s \<noteq> []) [Box [Txt (in_notice s), Btn False InDismiss [Txt ''x'']]] @ [list])) }"

definition Inbox :: "locale_fns \<Rightarrow> jsval \<Rightarrow> jsval \<Rightarrow> (in_event, in_state) component" where
  "Inbox loc label query = \<lparr>initial = in_initial label query, handle = in_handle,
     after_commit = in_commit, cleanup = \<lambda>_. Done, view = in_view loc,
     external = \<lambda>e. (case e of InRoute _ _ \<Rightarrow> True | InNew \<Rightarrow> True | _ \<Rightarrow> False)\<rparr>"

lemma Inbox_simps [simp]:
  "initial (Inbox loc l q) = in_initial l q" "handle (Inbox loc l q) = in_handle"
  "after_commit (Inbox loc l q) = in_commit" "cleanup (Inbox loc l q) s = Done"
  "view (Inbox loc l q) = in_view loc"
  "external (Inbox loc l q) (InRoute a b)" "external (Inbox loc l q) InNew"
  by (simp_all add: Inbox_def)

lemmas in_defs = in_commit_def fetchMessages_def fetchLabels_def toggleSelect_def
  toggleSelectAll_def handleBatch_def handleDelete_def handleToggleStar_def in_open_def

interpretation in_spinner: busy_flag "Inbox loc l q" in_loading "\<lambda>_ _. False"
proof unfold_locales
  show "tidy in_loading False (handle (Inbox loc l q) ev s)" for ev s
    by (cases ev) (auto simp: in_defs api react uncaught_def Let_def split: option.split)
qed (auto simp: in_initial_def in_defs api react Let_def split: option.split)

section \<open>What the page offers\<close>

lemma in_row_offers:
  "in_row loc s m = Some u \<Longrightarrow> offers u e \<Longrightarrow>
   e = InOpen m \<or> e = InStar m \<or> (\<exists>i. e = InSelect i)"
  by (auto simp: in_row_def bind_Some_iff Let_def split: if_splits)

lemma in_pages_offers:
  "in_pages s = Some u \<Longrightarrow> offers u e \<longleftrightarrow> e = InPrev \<and> in_offset s \<noteq> 0 \<or> e = InNext \<and> \<not> at_end s"
  by (auto simp: in_pages_def bind_Some_iff Let_def)

lemma in_list_offers:
  assumes "in_list loc s = Some u" "offers u e"
  shows "(\<exists>m. e = InOpen m \<or> e = InStar m) \<or> (\<exists>i. e = InSelect i) \<or>
    js_prop (in_messages s) ''length'' \<noteq> JNum 0 \<and>
      (e = InPrev \<and> in_offset s \<noteq> 0 \<or> e = InNext \<and> \<not> at_end s)"
proof -
  obtain n where n: "js_get (in_messages s) ''length'' = Some n" using assms(1)
    by (auto simp: in_list_def bind_Some_iff)
  then have nl: "js_prop (in_messages s) ''length'' = n" by (auto simp: js_get_def split: if_splits)
  from n assms have "n \<noteq> JNum 0" by (auto simp: in_list_def bind_Some_iff split: if_splits)
  with n assms(1) obtain ms rows pages where
    r: "sequence (map (in_row loc s) ms) = Some rows" "in_pages s = Some pages" "u = Box (rows @ [pages])"
    by (auto simp: in_list_def bind_Some_iff)
  then have "(\<exists>row \<in> set rows. offers row e) \<or> offers pages e" using assms(2) by (auto simp: list_ex_iff)
  then show ?thesis
  proof
    assume "offers pages e"
    with r(2) \<open>n \<noteq> JNum 0\<close> nl show ?thesis by (auto simp: in_pages_offers)
  next
    assume "\<exists>row \<in> set rows. offers row e"
    then obtain row where row: "row \<in> set rows" "offers row e" by blast
    from r(1) have "map (in_row loc s) ms = map Some rows" by (simp add: sequence_eq_Some)
    with row(1) obtain m where "in_row loc s m = Some row"
      by (metis (no_types, lifting) image_eqI imageE list.set_map)
    from in_row_offers [OF this row(2)] show ?thesis by blast
  qed
qed

lemma in_enabled:
  assumes "enabled (Inbox loc l q) s e"
  shows "(\<exists>a b. e = InRoute a b) \<or> e \<in> {InNew, InSelectAll, InRefresh, InDismiss} \<or>
    (\<exists>m. e = InOpen m \<or> e = InStar m) \<or> (\<exists>i. e = InSelect i) \<or>
    (\<exists>a \<in> {''archive'', ''spam'', ''delete''}. e = InBatch a) \<and> in_selected s \<noteq> [] \<or>
    js_prop (in_messages s) ''length'' \<noteq> JNum 0 \<and>
      (e = InPrev \<and> in_offset s \<noteq> 0 \<or> e = InNext \<and> \<not> at_end s)"
  using assms in_list_offers [of loc s _ e]
  by (auto simp: enabled_def in_view_def Inbox_def shown_def split: in_event.splits if_splits)

section \<open>Requests\<close>

text \<open>The requests this page may send.\<close>

definition in_request_ok :: "http \<Rightarrow> bool" where
  "in_request_ok q \<longleftrightarrow>
     wire q = (''get'', ''/labels'', NoBody) \<or>
     (\<exists>label rest k. wire q = (''get'', ''/messages?'' @ url_serialize (messages_query label
        (JObj ([(''limit'', JNum 50), (''offset'', JNum (50 * int k))] @ rest))), NoBody)) \<or>
     (\<exists>action ids. wire q = (''post'', ''/messages/batch'',
        Json (JObj [(''action'', JStr action), (''message_ids'', JArr ids)])) \<and>
        action \<in> {''archive'', ''spam'', ''delete''} \<and> ids \<noteq> [] \<and> distinct ids) \<or>
     (\<exists>i flag. wire q = (''patch'', ''/messages/'' @ js_string i, Json (JObj [(''is_flagged'', JBool flag)])))"

definition in_ok :: "in_state \<Rightarrow> bool" where
  "in_ok s \<longleftrightarrow> (\<exists>k. in_offset s = 50 * int k) \<and> distinct (in_selected s)"

lemma set_of_list_distinct: "distinct (set_of_list xs) \<and> set (set_of_list xs) = set xs"
  by (induction xs) auto

lemma toggle_member_distinct: "distinct xs \<Longrightarrow> distinct (toggle_member i xs)"
  by (simp add: toggle_member_def)

lemma fetchMessages_safe:
  "in_ok s \<Longrightarrow> safe in_ok in_request_ok (\<lambda>_. True) (fetchMessages s)"
proof -
  assume ok: "in_ok s"
  then obtain k where k: "in_offset s = 50 * int k" by (auto simp: in_ok_def)
  have "in_request_ok (request ''get'' (''/messages?'' @
      url_serialize (messages_query (js_or (in_label s) Null) (in_params s))) NoBody)"
    unfolding in_request_ok_def in_params_def in_limit_def k wire_request by blast
  then show ?thesis
    by (auto simp: fetchMessages_def api react in_ok_def Let_def split: option.split)
qed

lemma max_page: "\<exists>j. max 0 (50 * int k - 50) = 50 * int j"
proof (cases k)
  case 0
  then show ?thesis by (intro exI [of _ 0]) simp
next
  case (Suc n)
  then show ?thesis by (intro exI [of _ n]) simp
qed

interpretation in_discipline: disciplined "Inbox loc l q" in_ok in_request_ok "\<lambda>_. True"
proof unfold_locales
  show "in_ok (initial (Inbox loc l q))" by (auto simp: in_ok_def in_initial_def intro: exI [of _ 0])
  show "safe in_ok in_request_ok (\<lambda>_. True) (cleanup (Inbox loc l q) s)" for s by simp
  show "safe in_ok in_request_ok (\<lambda>_. True) (after_commit (Inbox loc l q) old s)"
    if "in_ok s" for old s
    using fetchMessages_safe [OF that]
    by (auto simp: in_commit_def fetchLabels_def api react in_request_ok_def in_ok_def)
  show "safe in_ok in_request_ok (\<lambda>_. True) (handle (Inbox loc l q) ev s)"
    if ok: "in_ok s" and en: "enabled (Inbox loc l q) s ev" for s ev
  proof (cases ev)
    case (InBatch action)
    with in_enabled [OF en] have "action \<in> {''archive'', ''spam'', ''delete''}" "in_selected s \<noteq> []" by auto
    moreover have "distinct (in_selected s)" using ok by (simp add: in_ok_def)
    ultimately have "in_request_ok (request ''post'' ''/messages/batch''
        (Json (JObj [(''action'', JStr action), (''message_ids'', JArr (in_selected s))])))"
      unfolding in_request_ok_def wire_request by blast
    with InBatch ok fetchMessages_safe [OF ok] show ?thesis
      by (auto simp: handleBatch_def api react in_ok_def)
  next
    case (InStar msg)
    have "in_request_ok (request ''patch'' (''/messages/'' @ js_string i)
        (Json (JObj [(''is_flagged'', js_not f)])))" for i f
      unfolding in_request_ok_def wire_request js_not_def by blast
    with InStar ok fetchMessages_safe [OF ok] show ?thesis
      by (auto simp: handleToggleStar_def api react Let_def split: option.split)
  next
    case InSelectAll
    have "distinct (set_of_list ids)" for ids using set_of_list_distinct by blast
    with InSelectAll show ?thesis
      by (auto simp: toggleSelectAll_def react uncaught_def in_ok_def split: option.split)
  next
    case (InSelect i)
    with ok show ?thesis by (auto simp: toggleSelect_def in_ok_def toggle_member_distinct)
  next
    case InPrev
    from ok obtain k where "in_offset s = 50 * int k" by (auto simp: in_ok_def)
    with InPrev max_page [of k] show ?thesis by (auto simp: in_ok_def in_limit_def)
  next
    case InNext
    from ok obtain k where "in_offset s = 50 * int k" by (auto simp: in_ok_def)
    then have "in_offset s + 50 = 50 * int (Suc k)" by simp
    with InNext show ?thesis by (auto simp: in_ok_def in_limit_def intro: exI [of _ "Suc _"])
  qed (use ok fetchMessages_safe [OF ok] in \<open>auto simp: in_open_def in_ok_def\<close>)
qed

section \<open>Commits\<close>

lemma in_settle_same:
  "map_option in_key (rendered c) = Some (in_key (st c)) \<Longrightarrow> mounted c \<Longrightarrow>
   settle commit_limit (Inbox loc l q) c = c\<lparr>rendered := Some (st c)\<rparr>"
  by (subst settle_noop) (auto simp: in_commit_def)

definition list_request :: "in_state \<Rightarrow> http" where
  "list_request s = request ''get'' (''/messages?'' @
     url_serialize (messages_query (js_or (in_label s) Null) (in_params s))) NoBody"

text \<open>
  What a list request is to ask for, as the server decodes it: the parameters in the order they are
  written, \<open>q\<close> when there is a search and \<open>label_id\<close> when there is a label.
\<close>

definition asks_list :: "jsval \<Rightarrow> jsval \<Rightarrow> int \<Rightarrow> http \<Rightarrow> bool" where
  "asks_list label search start p \<longleftrightarrow> (\<exists>query. wire p = (''get'', ''/messages?'' @ query, NoBody) \<and>
     url_parse query = map (\<lambda>(k, v). (Inr k, Inr v))
       ([(''limit'', ''50''), (''offset'', int_str start)] @
        (if truthy search then [(''q'', js_string search)] else []) @
        (if truthy label then [(''label_id'', js_string label)] else [])))"

lemma list_request_asks: "asks_list (in_label s) (in_query s) (in_offset s) (list_request s)"
proof -
  have "int_str 50 = ''50''" by code_simp
  then show ?thesis
    by (auto simp: asks_list_def list_request_def in_params_def in_limit_def url_parse_serialize
        messages_query_def search_params_def js_or_def Let_def intro!: exI)
qed

definition list_answer :: "reply \<Rightarrow> in_state prog" where
  "list_answer r =
     (let finish = SetSt (in_loading_update (\<lambda>_. False)) Done in
      case (case r of Resolved res \<Rightarrow>
              do { d \<leftarrow> res_data res; m \<leftarrow> js_get d ''messages''; t \<leftarrow> js_get d ''total''; Some (m, t) }
            | Rejected _ \<Rightarrow> None) of
        Some (m, t) \<Rightarrow> SetSt (in_messages_update (\<lambda>_. js_or m (JArr [])))
              (SetSt (in_total_update (\<lambda>_. js_or t (JNum 0))) finish)
      | None \<Rightarrow> Perform (ConsoleError ''Failed to load messages:''
          (case r of Rejected e \<Rightarrow> e | Resolved _ \<Rightarrow> type_error)) finish)"

lemma fetchMessages_eq:
  "fetchMessages s = SetSt (in_loading_update (\<lambda>_. True)) (Request (list_request s) list_answer)"
  by (auto simp: fetchMessages_def list_request_def list_answer_def api call_def fun_eq_iff Let_def
      split: reply.split option.split)

lemma list_request_passes [simp]: "request_interceptor ck (list_request s) = Inr (list_request s)"
  by (simp add: list_request_def request_interceptor_def get_not_mutating)

lemma exec_fetch:
  "mounted c \<Longrightarrow> exec (fetchMessages s) c = c\<lparr>st := (st c)\<lparr>in_loading := True\<rparr>,
     pend := pend c @ [(Wire (list_request s), list_answer)], sent := sent c @ [list_request s]\<rparr>"
  by (simp add: fetchMessages_eq)

text \<open>A change of label, page or query: the list is fetched again and the selection dropped.\<close>

lemma in_settle_changed:
  assumes "rendered c = Some old" "in_key old \<noteq> in_key (st c)" "mounted c"
  shows "settle commit_limit (Inbox loc l q) c =
    c\<lparr>st := (st c)\<lparr>in_loading := True, in_selected := []\<rparr>,
      pend := pend c @ [(Wire (list_request (st c)), list_answer)],
      sent := sent c @ [list_request (st c)],
      rendered := Some ((st c)\<lparr>in_loading := True, in_selected := []\<rparr>)\<rparr>"
proof -
  let ?d = "c\<lparr>st := (st c)\<lparr>in_loading := True, in_selected := []\<rparr>, rendered := Some (st c),
    pend := pend c @ [(Wire (list_request (st c)), list_answer)], sent := sent c @ [list_request (st c)]\<rparr>"
  have n: "commit_limit = Suc 49" by (simp add: commit_limit_def)
  have "rendered c \<noteq> Some (st c)" using assms by auto
  then have "settle commit_limit (Inbox loc l q) c = settle 49 (Inbox loc l q) ?d"
    unfolding n by (subst settle.simps(2)) (use assms in \<open>cases c; simp add: in_commit_def exec_fetch\<close>)
  also have "\<dots> = ?d\<lparr>rendered := Some (st ?d)\<rparr>"
    by (subst settle_noop) (use assms in \<open>auto simp: in_commit_def in_key_def\<close>)
  finally show ?thesis by (cases c) simp
qed

section \<open>Properties\<close>

text \<open>
  C3. Every request the page ever sends, in any order of clicks, answers and new-mail events: a
  list request asks for 50 messages at an offset that is a multiple of 50, so every page starts
  where the one before ended; a batch request carries a non-empty list of distinct messages and
  one of the three actions; nothing else is sent but label requests and star changes.
\<close>

theorem inbox_requests:
  assumes "reachable (Inbox loc l q) c" "q' \<in> set (sent c)"
  shows "wire q' = (''get'', ''/labels'', NoBody) \<or>
     (\<exists>query k. wire q' = (''get'', ''/messages?'' @ query, NoBody) \<and>
        url_get ''limit'' query = Some (Inr ''50'') \<and>
        url_get ''offset'' query = Some (Inr (int_str (50 * int k)))) \<or>
     (\<exists>action ids. wire q' = (''post'', ''/messages/batch'',
        Json (JObj [(''action'', JStr action), (''message_ids'', JArr ids)])) \<and>
        action \<in> {''archive'', ''spam'', ''delete''} \<and> ids \<noteq> [] \<and> distinct ids) \<or>
     (\<exists>i flag. wire q' = (''patch'', ''/messages/'' @ js_string i,
        Json (JObj [(''is_flagged'', JBool flag)])))"
proof -
  obtain p ck where p: "in_request_ok p" "request_interceptor ck p = Inr q'"
    using in_discipline.requests [OF assms] by blast
  have w: "wire q' = wire p" using wire_signed [of ck p] p(2) by (simp add: signed_def)
  have "int_str 50 = ''50''" by code_simp
  then have "url_get ''limit'' (url_serialize (messages_query label (JObj ([(''limit'', JNum 50),
        (''offset'', JNum (50 * int k))] @ rest)))) = Some (Inr ''50'')"
      "url_get ''offset'' (url_serialize (messages_query label (JObj ([(''limit'', JNum 50),
        (''offset'', JNum (50 * int k))] @ rest)))) = Some (Inr (int_str (50 * int k)))" for label rest k
    by (simp_all add: getMessages_param_query search_params_def)
  with p(1) show ?thesis unfolding w in_request_ok_def by blast
qed

theorem inbox_requests_witness:
  "\<exists>q'. q' \<in> set (sent (boot (Inbox plain_locale Undefined Null) [] ''/'')) \<and>
     reachable (Inbox plain_locale Undefined Null) (boot (Inbox plain_locale Undefined Null) [] ''/'') \<and>
     (wire q' = (''get'', ''/labels'', NoBody) \<or> fst (wire q') \<noteq> ''delete'')"
proof -
  let ?c = "boot (Inbox plain_locale Undefined Null) [] ''/''"
  have r: "reachable (Inbox plain_locale Undefined Null) ?c" by (rule reachable.start)
  have n: "49 = Suc 48" by simp
  have grow: "set (sent c) \<subseteq> set (sent (exec p c))" for p :: "in_state prog" and c
    by (induction p arbitrary: c) (fastforce simp: Let_def split: sum.splits)+
  have settle_grow: "set (sent c) \<subseteq> set (sent (settle n C c))" for n c
      and C :: "(in_event, in_state) component"
    by (induction n arbitrary: c) (use grow in \<open>fastforce+\<close>)
  have "request ''get'' ''/labels'' NoBody \<in> set (sent ?c)"
    unfolding boot_mount
    by (rule subsetD [OF settle_grow]) (simp add: in_commit_def fetchLabels_def api call_def
        mount_config_def exec_fetch request_interceptor_def get_not_mutating)
  with inbox_requests [OF r this] r show ?thesis by auto
qed

text \<open>
  C17. Changing the label or the search, as the router does while the page stays mounted: the
  selection is empty, so no batch action can reach messages of the label left behind, and exactly
  one request is sent: a GET of the list whose query string decodes to the page size, the offset as
  it was, the new search when there is one, and the new label when there is one.
\<close>

theorem inbox_change_label:
  assumes "rendered c = Some (st c)" "(l', q') \<noteq> (in_label (st c), in_query (st c))"
    and "run (Inbox loc l q) c [UserDo (InRoute l' q')] = Some c'"
  shows "in_selected (st c') = [] \<and> in_loading (st c') \<and> in_label (st c') = l' \<and>
    in_query (st c') = q' \<and> in_offset (st c') = in_offset (st c) \<and>
    (\<exists>p. sent c' = sent c @ [p] \<and> asks_list l' q' (in_offset (st c)) p) \<and>
    (\<forall>a. \<not> enabled (Inbox loc l q) (st c') (InBatch a))"
proof -
  let ?d = "c\<lparr>st := (st c)\<lparr>in_label := l', in_query := q'\<rparr>\<rparr>"
  have k: "in_key (st c) \<noteq> in_key (st ?d)" using assms(2) by (auto simp: in_key_def)
  have m: "mounted c" using assms(3) by (auto split: if_splits)
  then have "c' = settle commit_limit (Inbox loc l q) ?d" using assms(3) by (auto split: if_splits)
  also have "\<dots> = ?d\<lparr>st := (st ?d)\<lparr>in_loading := True, in_selected := []\<rparr>,
      pend := pend ?d @ [(Wire (list_request (st ?d)), list_answer)],
      sent := sent ?d @ [list_request (st ?d)],
      rendered := Some ((st ?d)\<lparr>in_loading := True, in_selected := []\<rparr>)\<rparr>"
    by (rule in_settle_changed [OF _ k]) (use assms(1) m in simp_all)
  finally have c': "c' = \<dots>" .
  moreover have "list_request (st c') = list_request (st ?d)"
    by (simp add: c' list_request_def in_params_def)
  ultimately show ?thesis using in_enabled [of loc l q "st c'"] list_request_asks [of "st c'"] by (auto simp: c')
qed

theorem inbox_change_label_witness:
  "let c = (mount_config (Inbox plain_locale Undefined Null) [] ''/'');
       d = c\<lparr>st := (st c)\<lparr>in_selected := [JStr ''7'']\<rparr>, rendered := Some ((st c)\<lparr>in_selected := [JStr ''7'']\<rparr>)\<rparr>
   in \<exists>c'. run (Inbox plain_locale Undefined Null) d [UserDo (InRoute (JStr ''sent'') Null)] = Some c' \<and>
      in_selected (st c') = []"
proof -
  let ?C = "Inbox plain_locale Undefined Null"
  let ?c = "mount_config ?C [] ''/''"
  let ?d = "?c\<lparr>st := (st ?c)\<lparr>in_selected := [JStr ''7'']\<rparr>, rendered := Some ((st ?c)\<lparr>in_selected := [JStr ''7'']\<rparr>)\<rparr>"
  have "run ?C ?d [UserDo (InRoute (JStr ''sent'') Null)] \<noteq> None"
    by (simp add: enabled_def mount_config_def)
  then obtain c' where c': "run ?C ?d [UserDo (InRoute (JStr ''sent'') Null)] = Some c'" by auto
  have "(JStr ''sent'', Null) \<noteq> (in_label (st ?d), in_query (st ?d))"
    by (simp add: mount_config_def in_initial_def)
  from inbox_change_label [OF _ this c'] c' show ?thesis unfolding Let_def by auto
qed

text \<open>
  C16. A batch action sends exactly the selection, once. When the server answers, the selection is
  dropped, the list is fetched again and the notice says how many messages failed, or nothing;
  when the request fails, selection and list stay as they are and the notice names the action and
  the reason: the message of the server's error body, or else the one of the error.
\<close>

theorem inbox_batch:
  assumes "rendered c = Some (st c)" "cookie_ok (cookie c)" "in_selected (st c) \<noteq> []"
    and "run (Inbox loc l q) c [UserDo (InBatch action), Answer (length (pend c)) r] = Some c'"
  shows "\<exists>b more. sent c' = sent c @ b # more \<and>
    wire b = (''post'', ''/messages/batch'',
      Json (JObj [(''action'', JStr action), (''message_ids'', JArr (in_selected (st c)))])) \<and>
    (case (case r of Resolved res \<Rightarrow> res_data res | Rejected _ \<Rightarrow> None) of
       Some d \<Rightarrow> in_selected (st c') = [] \<and> in_loading (st c') \<and>
         in_notice (st c') = batch_notice action (st c) d \<and>
         (\<forall>fs. js_oget d ''failed'' = JArr fs \<longrightarrow> in_notice (st c') = (if fs = [] then [] else
            nat_str (length fs) @ '' of '' @ nat_str (length (in_selected (st c))) @
            '' message(s) failed to '' @ action)) \<and>
         (\<exists>p. more = [p] \<and> asks_list (in_label (st c)) (in_query (st c)) (in_offset (st c)) p)
     | None \<Rightarrow> more = [] \<and> in_selected (st c') = in_selected (st c) \<and>
         in_messages (st c') = in_messages (st c) \<and>
         (let e = (case r of Rejected e \<Rightarrow> e | Resolved _ \<Rightarrow> type_error);
              told = js_oget (js_oget (js_oget (js_oget e ''response'') ''data'') ''error'') ''message'' in
          in_notice (st c') = ''Batch '' @ action @ '' failed: '' @
            js_string (if truthy told then told else js_prop e ''message'')))"
proof -
  let ?q = "request ''post'' ''/messages/batch''
    (Json (JObj [(''action'', JStr action), (''message_ids'', JArr (in_selected (st c)))]))"
  let ?ok = "\<lambda>res. SetSt (in_notice_update (\<lambda>_. batch_notice action (st c) res))
           (Fork (fetchMessages (st c)) (SetSt (in_selected_update (\<lambda>_. [])) Done))"
  let ?er = "\<lambda>err. SetSt (in_notice_update (\<lambda>_. ''Batch '' @ action @ '' failed: '' @
             js_string (err_text err (js_prop err ''message'')))) Done"
  let ?k = "\<lambda>r. case r of Resolved res \<Rightarrow> (case res_data res of Some v \<Rightarrow> ?ok v | None \<Rightarrow> ?er type_error)
    | Rejected e \<Rightarrow> ?er e"
  have "handle (Inbox loc l q) (InBatch action) (st c) = Request ?q ?k"
    using assms(3) by (auto simp: handleBatch_def api call_def fun_eq_iff split: reply.split option.split)
  note c' = ask_and_answer [OF assms(1) this assms(4)]
  have sg: "request_interceptor (cookie c) ?q = Inr (signed (cookie c) ?q)"
    by (rule interceptor_signed [OF assms(2)])
  have key: "in_key (s\<lparr>in_notice := n\<rparr>) = in_key s" "in_key (s\<lparr>in_loading := b\<rparr>) = in_key s"
      "in_key (s\<lparr>in_selected := xs\<rparr>) = in_key s" for s n b xs
    by (simp_all add: in_key_def)
  have count: "batch_notice action (st c) d = (if fs = [] then [] else nat_str (length fs) @ '' of '' @
      nat_str (length (in_selected (st c))) @ '' message(s) failed to '' @ action)"
    if "js_oget d ''failed'' = JArr fs" for d fs
    using that by (simp add: batch_notice_def js_oget_def int_str_def)
  show ?thesis
  proof (cases "case r of Resolved res \<Rightarrow> res_data res | Rejected _ \<Rightarrow> None")
    case None
    then have "?k r = ?er (case r of Rejected e \<Rightarrow> e | Resolved _ \<Rightarrow> type_error)" by (cases r) auto
    with c' assms(1) sg None show ?thesis
      by (simp add: in_settle_same key err_text_def err_detail_def js_or_def Let_def)
  next
    case (Some d)
    then have "?k r = ?ok d" by (cases r) auto
    with c' assms(1) sg Some show ?thesis
      using count [of d] list_request_asks [of "st c"] by (simp add: in_settle_same key exec_fetch)
  qed
qed

theorem inbox_batch_witness:
  "let C = Inbox plain_locale Undefined Null;
       s = (initial C)\<lparr>in_selected := [JStr ''7'', JStr ''8'']\<rparr>;
       c = (mount_config C [] ''/'')\<lparr>st := s, rendered := Some s\<rparr>
   in \<exists>c'. run C c [UserDo (InBatch ''spam''), Answer (length (pend c))
        (Resolved (JObj [(''data'', JObj [(''failed'', JArr [JStr ''8''])])]))] = Some c' \<and>
      in_notice (st c') = ''1 of 2 message(s) failed to spam'' \<and> in_selected (st c') = []"
proof -
  let ?C = "Inbox plain_locale Undefined Null"
  let ?s = "(initial ?C)\<lparr>in_selected := [JStr ''7'', JStr ''8'']\<rparr>"
  let ?c = "(mount_config ?C [] ''/'')\<lparr>st := ?s, rendered := Some ?s\<rparr>"
  let ?d = "JObj [(''failed'', JArr [JStr ''8''])]"
  let ?is = "[UserDo (InBatch ''spam''), Answer (length (pend ?c)) (Resolved (JObj [(''data'', ?d)]))]"
  have "enabled ?C ?s (InBatch ''spam'')"
    by (simp add: enabled_def in_view_def in_list_def in_initial_def currentLabel_def)
  then have "run ?C ?c ?is \<noteq> None"
    by (simp add: mount_config_def handleBatch_def in_initial_def api call_def settle_settled)
  then obtain c' where c': "run ?C ?c ?is = Some c'" by auto
  have r: "rendered ?c = Some (st ?c)" "cookie_ok (cookie ?c)" "in_selected (st ?c) \<noteq> []"
    by (simp_all add: mount_config_def)
  have "batch_notice ''spam'' ?s ?d = ''1 of 2 message(s) failed to spam''"
    unfolding in_initial_def Inbox_simps by code_simp
  with inbox_batch [OF r c'] have "in_notice (st c') = ''1 of 2 message(s) failed to spam''"
      "in_selected (st c') = []"
    by (auto simp: res_data_def)
  with c' show ?thesis unfolding Let_def by blast
qed

text \<open>
  Select all: from a selection of another size than the list, it selects exactly the messages of
  the page, in order; used again it selects nothing. Toggling one message twice gives back the
  same selection.
\<close>

theorem inbox_select_all:
  assumes "rendered c = Some (st c)" "in_messages (st c) = JArr ms"
    and "map (\<lambda>m. js_get m ''id'') ms = map Some ids" "distinct ids"
    and "length (in_selected (st c)) \<noteq> length ids"
    and "run (Inbox loc l q) c [UserDo InSelectAll] = Some c1"
    and "run (Inbox loc l q) c1 [UserDo InSelectAll] = Some c2"
  shows "in_selected (st c1) = ids \<and> in_selected (st c2) = [] \<and>
    (\<forall>i. set (toggle_member i (toggle_member i ids)) = set ids) \<and>
    sent c2 = sent c"
proof -
  have set_id: "distinct xs \<Longrightarrow> set_of_list xs = xs" for xs
    by (induction xs) (auto simp: filter_id_conv)
  have len: "length ms = length ids" using assms(3) by (metis length_map)
  have "message_ids (in_messages (st c)) = Some ids"
    using assms(2,3) by (simp add: message_ids_def sequence_eq_Some)
  moreover have "\<not> all_selected (st c)" using assms(2,5) len by (simp add: all_selected_def)
  ultimately have h: "toggleSelectAll (st c) = SetSt (in_selected_update (\<lambda>_. ids)) Done"
    using assms(4) by (simp add: toggleSelectAll_def set_id)
  have m: "mounted c" using assms(6) by (auto split: if_splits)
  have c1: "c1 = c\<lparr>st := (st c)\<lparr>in_selected := ids\<rparr>, rendered := Some ((st c)\<lparr>in_selected := ids\<rparr>)\<rparr>"
    using assms(1,6) m h by (auto simp: in_settle_same in_key_def split: if_splits)
  have "all_selected (st c1)" using assms(2) len by (simp add: c1 all_selected_def)
  then have h1: "toggleSelectAll (st c1) = SetSt (in_selected_update (\<lambda>_. [])) Done"
    by (simp add: toggleSelectAll_def)
  have m1: "mounted c1" "rendered c1 = Some (st c1)" using m by (simp_all add: c1)
  have c2: "c2 = c1\<lparr>st := (st c1)\<lparr>in_selected := []\<rparr>, rendered := Some ((st c1)\<lparr>in_selected := []\<rparr>)\<rparr>"
    using assms(7) m1 h1 by (auto simp: in_settle_same in_key_def split: if_splits)
  have "sent c2 = sent c" by (simp add: c1 c2)
  moreover have "set (toggle_member i (toggle_member i ids)) = set ids" for i
    by (auto simp: toggle_member_def)
  ultimately show ?thesis by (simp add: c1 c2)
qed

theorem inbox_select_all_witness:
  "let C = Inbox plain_locale Undefined Null;
       s = (initial C)\<lparr>in_messages := JArr [JObj [(''id'', JStr ''7'')]]\<rparr>;
       c = (mount_config C [] ''/'')\<lparr>st := s, rendered := Some s\<rparr>
   in \<exists>c1 c2. run C c [UserDo InSelectAll] = Some c1 \<and> run C c1 [UserDo InSelectAll] = Some c2 \<and>
      in_selected (st c1) = [JStr ''7''] \<and> in_selected (st c2) = []"
proof -
  let ?C = "Inbox plain_locale Undefined Null"
  let ?s = "(initial ?C)\<lparr>in_messages := JArr [JObj [(''id'', JStr ''7'')]]\<rparr>"
  let ?c = "(mount_config ?C [] ''/'')\<lparr>st := ?s, rendered := Some ?s\<rparr>"
  have v: "in_view plain_locale s \<noteq> None"
    if "in_messages s = JArr [JObj [(''id'', JStr ''7'')]]" "in_total s = JNum 0" "in_labels s = JArr []" for s
    using that by (simp add: in_view_def in_list_def in_row_def in_pages_def currentLabel_def)
  then have en: "enabled ?C s InSelectAll"
    if "in_messages s = JArr [JObj [(''id'', JStr ''7'')]]" "in_total s = JNum 0" "in_labels s = JArr []" for s
    using v [OF that] by (auto simp: enabled_def in_view_def bind_Some_iff)
  have "\<exists>c1. run ?C ?c [UserDo InSelectAll] = Some c1 \<and> mounted c1 \<and>
      in_messages (st c1) = JArr [JObj [(''id'', JStr ''7'')]] \<and> in_total (st c1) = JNum 0 \<and> in_labels (st c1) = JArr []"
    by (simp add: en mount_config_def in_initial_def toggleSelectAll_def all_selected_def
        message_ids_def in_settle_same in_key_def)
  then obtain c1 where c1: "run ?C ?c [UserDo InSelectAll] = Some c1" "mounted c1"
    "in_messages (st c1) = JArr [JObj [(''id'', JStr ''7'')]]" "in_total (st c1) = JNum 0" "in_labels (st c1) = JArr []" by blast
  then have "run ?C c1 [UserDo InSelectAll] \<noteq> None" by (simp add: en)
  then obtain c2 where c2: "run ?C c1 [UserDo InSelectAll] = Some c2" by auto
  from inbox_select_all [OF _ _ _ _ _ c1(1) c2, of "[JObj [(''id'', JStr ''7'')]]" "[JStr ''7'']"] c1(1) c2
  show ?thesis unfolding Let_def by (auto simp: in_initial_def)
qed

text \<open>
  C18. Paging: the next page can be asked for only when there is one, so its offset lies inside the
  list; the previous one only when this is not the first, and its offset is not negative. Either
  way exactly one request is sent, for the new offset, and the selection is dropped.
\<close>

theorem inbox_paging:
  assumes "rendered c = Some (st c)" "in_total (st c) = JNum t"
    and "ev = InNext \<or> ev = InPrev" "run (Inbox loc l q) c [UserDo ev] = Some c'"
    and "in_offset (st c) \<ge> 0"
  shows "in_offset (st c') = (if ev = InNext then in_offset (st c) + 50 else max 0 (in_offset (st c) - 50)) \<and>
    0 \<le> in_offset (st c') \<and> (ev = InNext \<longrightarrow> in_offset (st c') < t) \<and>
    (ev = InPrev \<longrightarrow> in_offset (st c') < in_offset (st c)) \<and>
    in_selected (st c') = [] \<and> sent c' = sent c @ [list_request (st c')] \<and>
    asks_list (in_label (st c)) (in_query (st c)) (in_offset (st c')) (list_request (st c'))"
proof -
  let ?o = "if ev = InNext then in_offset (st c) + 50 else max 0 (in_offset (st c) - 50)"
  let ?d = "c\<lparr>st := (st c)\<lparr>in_offset := ?o\<rparr>\<rparr>"
  have m: "mounted c" and en: "enabled (Inbox loc l q) (st c) ev" using assms(4) by (auto split: if_splits)
  from in_enabled [OF en] assms(2,3) have g: "ev = InNext \<Longrightarrow> in_offset (st c) + 50 < t"
      "ev = InPrev \<Longrightarrow> in_offset (st c) \<noteq> 0"
    by (auto simp: at_end_def in_limit_def)
  have k: "in_key (st c) \<noteq> in_key (st ?d)" using g assms(3,5) by (auto simp: in_key_def)
  have "c' = settle commit_limit (Inbox loc l q) ?d"
    using assms(3,4) m by (auto simp: in_limit_def split: if_splits)
  also have "\<dots> = ?d\<lparr>st := (st ?d)\<lparr>in_loading := True, in_selected := []\<rparr>,
      pend := pend ?d @ [(Wire (list_request (st ?d)), list_answer)],
      sent := sent ?d @ [list_request (st ?d)],
      rendered := Some ((st ?d)\<lparr>in_loading := True, in_selected := []\<rparr>)\<rparr>"
    by (rule in_settle_changed [OF _ k]) (use assms(1) m in simp_all)
  finally have c': "c' = \<dots>" .
  have "list_request (st c') = list_request (st ?d)" by (simp add: c' list_request_def in_params_def)
  then show ?thesis using g assms(3,5) list_request_asks [of "st c'"] by (auto simp: c')
qed

theorem inbox_paging_witness:
  "let C = Inbox plain_locale Undefined Null;
       s = (initial C)\<lparr>in_messages := JArr [JObj []], in_total := JNum 51\<rparr>;
       c = (mount_config C [] ''/'')\<lparr>st := s, rendered := Some s\<rparr>
   in \<exists>c'. run C c [UserDo InNext] = Some c' \<and> in_offset (st c') = 50"
proof -
  let ?C = "Inbox plain_locale Undefined Null"
  let ?s = "(initial ?C)\<lparr>in_messages := JArr [JObj []], in_total := JNum 51\<rparr>"
  let ?c = "(mount_config ?C [] ''/'')\<lparr>st := ?s, rendered := Some ?s\<rparr>"
  have "enabled ?C ?s InNext"
    by (simp add: enabled_def in_view_def in_list_def in_row_def in_pages_def in_initial_def
        at_end_def in_limit_def currentLabel_def)
  then have "run ?C ?c [UserDo InNext] \<noteq> None" by (simp add: mount_config_def)
  then obtain c' where c': "run ?C ?c [UserDo InNext] = Some c'" by auto
  from inbox_paging [OF _ _ _ c', of 51] c' show ?thesis
    unfolding Let_def by (auto simp: in_initial_def)
qed

section \<open>Weak spots\<close>

text \<open>
  No answer is tied to the label it was asked for: when the answer for the label left behind
  arrives last, its messages are shown under the new label.
\<close>

lemma inbox_stale_answer:
  assumes "rendered c = Some (st c)" "mounted c"
    and "pend c = [(Wire (list_request old), list_answer), (Wire (list_request (st c)), list_answer)]"
  shows "\<exists>c'. run (Inbox loc l q) c
      [Answer 1 (Resolved (JObj [(''data'', JObj [(''messages'', JArr new)])])),
       Answer 0 (Resolved (JObj [(''data'', JObj [(''messages'', JArr stale)])]))] = Some c' \<and>
    in_messages (st c') = JArr stale \<and> in_label (st c') = in_label (st c) \<and> pend c' = []"
  using assms
  by (simp add: answer_def remove_nth_def list_answer_def res_data_def in_settle_same in_key_def Let_def)

text \<open>
  The page controls are part of the non-empty list only: on an empty page past the first, which a
  batch delete of the last page leaves, nothing leads back.
\<close>

lemma inbox_empty_page_stuck:
  "in_messages s = JArr [] \<Longrightarrow>
   \<not> enabled (Inbox loc l q) s InPrev \<and> \<not> enabled (Inbox loc l q) s InNext"
  using in_enabled [of loc l q s InPrev] in_enabled [of loc l q s InNext] by auto

text \<open>A selection left over from a longer list can have the size of the new one by chance.\<close>

lemma inbox_select_all_by_size:
  "in_messages s = JArr [m] \<Longrightarrow> in_selected s = [i] \<Longrightarrow>
   toggleSelectAll s = SetSt (in_selected_update (\<lambda>_. [])) Done"
  by (simp add: toggleSelectAll_def all_selected_def)

end
