(* ===== verification/Layout.thy ===== *)
theory Layout imports Api Busy_Flag begin

text \<open>
  \<open>web/src/components/Layout.jsx\<close>: the frame around every page, with the navigation, the search
  box and sign-out. The path of the current location comes from the router (\<open>LaLocation\<close>);
  \<open>navigate\<close> is the effect \<open>Navigate\<close>.
\<close>

record la_state =
  la_sidebarOpen :: bool
  la_searchQuery :: string
  la_pathname :: string
  la_user :: jsval

datatype la_event =
    LaLocation string
  | LaGo string
  | LaLogout
  | LaSidebar
  | is_LaQuery: LaQuery string
  | LaSearch

text \<open>Lines 6 to 15.\<close>

record nav_item =
  nav_id :: string
  nav_label :: string
  nav_icon :: string
  nav_path :: string

definition navItems :: "nav_item list" where
  "navItems = map (\<lambda>(i, l, k, p). \<lparr>nav_id = i, nav_label = l, nav_icon = k, nav_path = p\<rparr>)
    [(''inbox'', ''Inbox'', ''Inbox'', ''/''),
     (''sent'', ''Sent'', ''Send'', ''/inbox/sent''),
     (''drafts'', ''Drafts'', ''FileText'', ''/inbox/drafts''),
     (''important'', ''Important'', ''Star'', ''/inbox/important''),
     (''junk'', ''Junk'', ''AlertCircle'', ''/inbox/junk''),
     (''trash'', ''Trash'', ''Trash2'', ''/inbox/trash''),
     (''contacts'', ''Contacts'', ''Users'', ''/contacts''),
     (''calendar'', ''Calendar'', ''Calendar'', ''/calendar'')]"

text \<open>Line 61.\<close>

definition is_active :: "string \<Rightarrow> nav_item \<Rightarrow> bool" where
  "is_active path item =
     (if nav_path item = ''/'' then path = ''/''
      else path = nav_path item \<or> js_starts_with path (nav_path item))"

definition la_logout :: "la_state prog" where
  "la_logout = logout (\<lambda>_. Perform LocationReload Done) uncaught"

definition la_search :: "la_state \<Rightarrow> la_state prog" where
  "la_search s =
     (if js_trim (la_searchQuery s) \<noteq> []
      then Perform (Navigate (''/?q='' @ encodeURIComponent (js_trim (la_searchQuery s))) Undefined) Done
      else Done)"

fun la_handle :: "la_event \<Rightarrow> la_state \<Rightarrow> la_state prog" where
  "la_handle (LaLocation p) s = SetSt (la_pathname_update (\<lambda>_. p)) Done"
| "la_handle (LaGo p) s = Perform (Navigate p Undefined) Done"
| "la_handle LaLogout s = la_logout"
| "la_handle LaSidebar s = SetSt (la_sidebarOpen_update (\<lambda>_. \<not> la_sidebarOpen s)) Done"
| "la_handle (LaQuery v) s = SetSt (la_searchQuery_update (\<lambda>_. v)) Done"
| "la_handle LaSearch s = la_search s"

text \<open>Line 35.\<close>

definition is_admin :: "jsval \<Rightarrow> bool" where
  "is_admin user \<longleftrightarrow> truthy (js_oget user ''is_super_admin'') \<or> js_oget user ''role'' = JStr ''admin''"

definition nav_button :: "string \<Rightarrow> nav_item \<Rightarrow> la_event ui" where
  "nav_button path item = Btn False (LaGo (nav_path item))
     ([Icon (nav_icon item), Txt (nav_label item)] @ shown (is_active path item) [Icon ''active''])"

text \<open>Lines 84 to 93: \<open>v?.charAt(0).toUpperCase()\<close> is empty for a missing name.\<close>

definition la_user_view :: "jsval \<Rightarrow> la_event ui list option" where
  "la_user_view user = do {
     name \<leftarrow> js_get user ''display_name'';
     let email = js_prop user ''email'';
     let shown_name = js_or name email;
     letter \<leftarrow> (if nullish shown_name then Some [] else js_initial shown_name);
     who \<leftarrow> js_child shown_name;
     address \<leftarrow> js_child email;
     Some [Txt letter, Txt who, Txt address, Btn False LaLogout [Icon ''LogOut'', Txt ''Sign out'']] }"

definition la_view :: "la_state \<Rightarrow> la_event ui option" where
  "la_view s = do {
     user \<leftarrow> la_user_view (la_user s);
     Some (Box
       ([Icon ''Mail'', Txt ''PostNest'', Btn False (LaGo ''/compose'') [Icon ''Plus'', Txt ''Compose''],
         Box (map (nav_button (la_pathname s)) navItems @
           shown (is_admin (la_user s)) [Btn False (LaGo ''/admin'')
             ([Icon ''Shield'', Txt ''Admin''] @ shown (la_pathname s = ''/admin'') [Icon ''active''])])]
        @ user @
        [Btn False LaSidebar [Icon (if la_sidebarOpen s then ''ChevronLeft'' else ''Menu'')],
         Form False LaSearch [Icon ''Search'', Field (JStr (la_searchQuery s)) is_LaQuery]])) }"

definition Layout :: "jsval \<Rightarrow> string \<Rightarrow> (la_event, la_state) component" where
  "Layout user path = \<lparr>initial = \<lparr>la_sidebarOpen = True, la_searchQuery = [],
       la_pathname = path, la_user = user\<rparr>,
     handle = la_handle, after_commit = \<lambda>_ _. Done, cleanup = \<lambda>_. Done, view = la_view,
     external = \<lambda>e. (case e of LaLocation _ \<Rightarrow> True | _ \<Rightarrow> False)\<rparr>"

lemma Layout_simps [simp]:
  "handle (Layout user p) = la_handle" "after_commit (Layout user p) old s = Done"
  "cleanup (Layout user p) s = Done" "view (Layout user p) = la_view"
  by (simp_all add: Layout_def)

lemma la_settle [simp]:
  "settle commit_limit (Layout user p) c = (if mounted c then c\<lparr>rendered := Some (st c)\<rparr> else c)"
  by (rule settle_done) simp_all

section \<open>Properties\<close>

text \<open>A path cannot begin with two of the navigation paths.\<close>

lemma starts_with_comparable:
  "js_starts_with s p \<Longrightarrow> js_starts_with s q \<Longrightarrow> js_starts_with p q \<or> js_starts_with q p"
proof (induction s p arbitrary: q rule: js_starts_with.induct)
  case (3 c cs p ps)
  then show ?case by (cases q) auto
qed auto

lemma nav_table:
  "list_all (\<lambda>it. js_starts_with ''/'' (nav_path it) \<longrightarrow> nav_path it = ''/'') navItems"
  "list_all (\<lambda>it. list_all (\<lambda>it'. nav_path it' \<noteq> ''/'' \<longrightarrow>
     js_starts_with (nav_path it) (nav_path it') \<longrightarrow> it = it') navItems) navItems"
  "list_all (\<lambda>it. list_all (\<lambda>it'. nav_path it = nav_path it' \<longrightarrow> it = it') navItems) navItems"
  by code_simp+

lemma nav_paths_apart:
  "it \<in> set navItems \<Longrightarrow> it' \<in> set navItems \<Longrightarrow> nav_path it' \<noteq> ''/'' \<Longrightarrow>
   js_starts_with (nav_path it) (nav_path it') \<Longrightarrow> it = it'"
  using nav_table(2) unfolding list_all_iff by blast

lemma is_active_iff: "is_active p it \<longleftrightarrow> nav_path it = ''/'' \<and> p = ''/'' \<or>
    nav_path it \<noteq> ''/'' \<and> js_starts_with p (nav_path it)"
  by (auto simp: is_active_def js_starts_with_append)

lemma root_item: "it \<in> set navItems \<Longrightarrow> js_starts_with ''/'' (nav_path it) \<Longrightarrow> nav_path it = ''/''"
  using nav_table(1) unfolding list_all_iff by blast

lemma nav_path_inj: "it \<in> set navItems \<Longrightarrow> it' \<in> set navItems \<Longrightarrow> nav_path it = nav_path it' \<Longrightarrow> it = it'"
  using nav_table(3) unfolding list_all_iff by blast

lemma active_unique:
  assumes "it \<in> set navItems" "it' \<in> set navItems" "is_active p it" "is_active p it'"
  shows "it = it'"
  using assms starts_with_comparable [of p "nav_path it" "nav_path it'"]
    nav_paths_apart [of it it'] nav_paths_apart [of it' it] nav_path_inj [of it it']
    root_item [of it] root_item [of it']
  unfolding is_active_iff by auto

lemma navItems_distinct: "distinct navItems"
  by (simp add: navItems_def)

text \<open>
  Wherever the user is, at most one entry of the navigation is marked active; on the very path
  of an entry it is that entry, and on any path below it too, except for the inbox at the root.
\<close>

theorem nav_one_active:
  "length (filter (is_active path) navItems) \<le> 1 \<and>
   (\<forall>item \<in> set navItems. filter (is_active (nav_path item)) navItems = [item] \<and>
      (nav_path item \<noteq> ''/'' \<longrightarrow> filter (is_active (nav_path item @ rest)) navItems = [item]))"
proof (intro conjI ballI impI)
  show "length (filter (is_active path) navItems) \<le> 1"
    by (rule filter_unique(1) [OF navItems_distinct]) (rule active_unique)
  fix item assume i: "item \<in> set navItems"
  show "filter (is_active (nav_path item)) navItems = [item]"
    by (rule filter_unique(2) [OF navItems_distinct _ i]) (auto intro: active_unique simp: is_active_def)
  assume "nav_path item \<noteq> ''/''"
  then show "filter (is_active (nav_path item @ rest)) navItems = [item]"
    by (intro filter_unique(2) [OF navItems_distinct _ i])
       (auto intro: active_unique simp: is_active_def js_starts_with_append)
qed

theorem nav_one_active_witness:
  "filter (is_active ''/inbox/sent'') navItems = [navItems ! 1]"
proof -
  have n: "navItems ! 1 \<in> set navItems" "nav_path (navItems ! 1) = ''/inbox/sent''"
    by (simp_all add: navItems_def)
  have "\<forall>item \<in> set navItems. filter (is_active (nav_path item)) navItems = [item]"
    using nav_one_active [of "[]" "[]"] by blast
  from bspec [OF this n(1)] n(2) show ?thesis by simp
qed

text \<open>
  C25. Searching: submitting the search box navigates exactly when the text is not blank, and then to
  the inbox with a query from which \<open>URLSearchParams\<close> reads back the trimmed text, whatever
  characters it has.
\<close>

theorem search_roundtrip:
  assumes "run (Layout user path) c [UserDo LaSearch] = Some c'"
  shows "(if js_trim (la_searchQuery (st c)) = [] then effects c' = effects c
     else \<exists>query. effects c' = effects c @ [Navigate (''/?'' @ query) Undefined] \<and>
       url_get ''q'' query = Some (Inr (js_trim (la_searchQuery (st c)))))"
proof -
  have "url_get ''q'' (''q'' @ ''='' @ encodeURIComponent t) = Some (Inr t)" for t
  proof (rule url_get_encoded)
    have "form_encode ''q'' = ''q''" by code_simp
    then show "form_decode ''q'' = Inr ''q''" using form_decode_encode [of "''q''"] by simp
  qed (simp add: url_safe_def)
  with assms show ?thesis by (auto simp: la_search_def split: if_splits)
qed

theorem search_roundtrip_witness:
  "let C = Layout (JObj [(''email'', JStr ''a@x.org'')]) ''/'';
       c = (boot C [] ''/'')\<lparr>st := (initial C)\<lparr>la_searchQuery := '' a&b ''\<rparr>\<rparr>
   in \<exists>c' query. run C c [UserDo LaSearch] = Some c' \<and> effects c' = [Navigate (''/?'' @ query) Undefined] \<and>
      url_get ''q'' query = Some (Inr ''a&b'')"
proof -
  let ?C = "Layout (JObj [(''email'', JStr ''a@x.org'')]) ''/''"
  let ?c = "(boot ?C [] ''/'')\<lparr>st := (initial ?C)\<lparr>la_searchQuery := '' a&b ''\<rparr>\<rparr>"
  have "enabled ?C (st ?c) LaSearch"
    by (simp add: enabled_def la_view_def la_user_view_def Layout_def)
  then have "run ?C ?c [UserDo LaSearch] \<noteq> None" by (simp add: boot_def)
  then obtain c' where c': "run ?C ?c [UserDo LaSearch] = Some c'" by auto
  have q: "js_trim (la_searchQuery (st ?c)) = ''a&b''" by simp code_simp
  have e: "effects ?c = []" by (simp add: boot_def)
  from search_roundtrip [OF c'] c' show ?thesis unfolding q e Let_def by auto
qed

text \<open>
  Signing out: the page reloads only after the server ended the session; a failed request is
  reported as an uncaught error and leaves the user signed in.
\<close>

theorem logout_then_reload:
  assumes "rendered c = Some (st c)"
    and "run (Layout user path) c [UserDo LaLogout, Answer (length (pend c)) r] = Some c'"
  shows "st c' = st c \<and> effects c' = effects c @ response_interceptor (pathname c) r @
    (case r of Resolved _ \<Rightarrow> [LocationReload] | Rejected e \<Rightarrow> [Uncaught e])"
proof -
  let ?k = "\<lambda>r. case r of Resolved res \<Rightarrow> Perform LocationReload Done | Rejected e \<Rightarrow> uncaught e"
  have "handle (Layout user path) LaLogout (st c) = Request (request ''post'' ''/auth/logout'' NoBody) ?k"
    by (simp add: la_logout_def api call_def no_result_def fun_eq_iff split: reply.split)
  from ask_and_answer [OF assms(1) this assms(2)] assms(1) show ?thesis
    by (cases r) (simp_all add: uncaught_def)
qed

theorem logout_then_reload_witness:
  "let C = Layout (JObj [(''email'', JStr ''a@x.org'')]) ''/''; c = boot C [] ''/''
   in \<exists>c'. run C c [UserDo LaLogout, Answer (length (pend c)) (Resolved (JObj []))] = Some c' \<and>
      effects c' = [LocationReload]"
proof -
  let ?C = "Layout (JObj [(''email'', JStr ''a@x.org'')]) ''/''"
  have "enabled ?C (initial ?C) LaLogout"
    by (simp add: enabled_def la_view_def la_user_view_def Layout_def)
  then have "run ?C (boot ?C [] ''/'') [UserDo LaLogout, Answer (length (pend (boot ?C [] ''/''))) (Resolved (JObj []))] \<noteq> None"
    by (simp add: boot_def la_logout_def api call_def)
  then obtain c' where c': "run ?C (boot ?C [] ''/'')
      [UserDo LaLogout, Answer (length (pend (boot ?C [] ''/''))) (Resolved (JObj []))] = Some c'" by auto
  have r: "rendered (boot ?C [] ''/'') = Some (st (boot ?C [] ''/''))" "effects (boot ?C [] ''/'') = []"
    by (simp_all add: boot_def)
  from logout_then_reload [OF r(1) c'] have "effects c' = [LocationReload]"
    unfolding r(2) by (simp add: response_interceptor_def)
  with c' show ?thesis unfolding Let_def by blast
qed

end
