(* ===== verification/Login.thy ===== *)
theory Login imports Api Busy_Flag begin

text \<open>
  \<open>web/src/components/Login.jsx\<close>: the sign-in form. The state has the four \<open>useState\<close> values of
  lines 6 to 9; \<open>onLogin\<close>, the callback of \<open>App.jsx\<close>, is the effect \<open>LoggedIn\<close>. The view keeps
  the \<open>required\<close> attributes: the browser does not submit a form with an empty required field,
  nor one whose submit button is disabled.
\<close>

record login_state =
  login_email :: string
  login_password :: string
  login_error :: jsval
  login_loading :: bool

datatype login_event = is_LoginEmail: LoginEmail string | is_LoginPassword: LoginPassword string | LoginSubmit

definition login_initial :: login_state where
  "login_initial = \<lparr>login_email = [], login_password = [], login_error = JStr [],
     login_loading = False\<rparr>"

text \<open>Lines 11 to 23.\<close>

definition login_submit :: "login_state \<Rightarrow> login_state prog" where
  "login_submit s =
     SetSt (login_error_update (\<lambda>_. JStr []))
     (SetSt (login_loading_update (\<lambda>_. True))
     (login (JStr (login_email s)) (JStr (login_password s))
        (\<lambda>data. Perform (LoggedIn data) (SetSt (login_loading_update (\<lambda>_. False)) Done))
        (\<lambda>err. SetSt (login_error_update (\<lambda>_. err_text err (JStr ''Invalid credentials'')))
          (SetSt (login_loading_update (\<lambda>_. False)) Done))))"

fun login_handle :: "login_event \<Rightarrow> login_state \<Rightarrow> login_state prog" where
  "login_handle (LoginEmail v) s = SetSt (login_email_update (\<lambda>_. v)) Done"
| "login_handle (LoginPassword v) s = SetSt (login_password_update (\<lambda>_. v)) Done"
| "login_handle LoginSubmit s = login_submit s"

text \<open>Lines 25 to 83.\<close>

definition login_view :: "login_state \<Rightarrow> login_event ui option" where
  "login_view s = do {
     err \<leftarrow> shown_value (login_error s) (\<lambda>t. [Box [Icon ''AlertCircle'', Txt t]]);
     Some (Box
       ([Box [Icon ''Mail'', Txt ''PostNest''], Txt ''Sign in to Webmail''] @ err @
        [Form (login_loading s \<or> login_email s = [] \<or> login_password s = []) LoginSubmit
          [Txt ''Email address'', Field (JStr (login_email s)) is_LoginEmail,
           Txt ''Password'', Field (JStr (login_password s)) is_LoginPassword,
           Txt (if login_loading s then ''Signing in...'' else ''Sign in'')]])) }"

definition Login :: "(login_event, login_state) component" where
  "Login = \<lparr>initial = login_initial, handle = login_handle, after_commit = \<lambda>_ _. Done,
     cleanup = \<lambda>_. Done, view = login_view, external = \<lambda>_. False\<rparr>"

lemma Login_simps [simp]:
  "initial Login = login_initial" "handle Login = login_handle"
  "after_commit Login old s = Done" "cleanup Login s = Done" "view Login = login_view"
  "external Login e = False"
  by (simp_all add: Login_def)

lemma login_settle [simp]:
  "settle commit_limit Login c = (if mounted c then c\<lparr>rendered := Some (st c)\<rparr> else c)"
  by (rule settle_done) simp_all

lemma login_enabled_submit:
  "enabled Login s LoginSubmit \<longleftrightarrow> js_child (login_error s) \<noteq> None \<and>
     \<not> login_loading s \<and> login_email s \<noteq> [] \<and> login_password s \<noteq> []"
  by (auto simp: enabled_def login_view_def shown_value_Some)

lemma login_submit_exec:
  "mounted c \<Longrightarrow> exec (login_submit (st c)) c =
     exec (login (JStr (login_email (st c))) (JStr (login_password (st c)))
        (\<lambda>data. Perform (LoggedIn data) (SetSt (login_loading_update (\<lambda>_. False)) Done))
        (\<lambda>err. SetSt (login_error_update (\<lambda>_. err_text err (JStr ''Invalid credentials'')))
          (SetSt (login_loading_update (\<lambda>_. False)) Done)))
      (c\<lparr>st := (st c)\<lparr>login_error := JStr [], login_loading := True\<rparr>\<rparr>)"
  by (simp add: login_submit_def)

section \<open>The spinner\<close>

interpretation login_spinner: busy_flag Login login_loading "\<lambda>_ _. False"
proof unfold_locales
  show "tidy login_loading False (handle Login ev s)" for ev s
    by (cases ev) (auto simp: login_submit_def api react)
qed (simp_all add: login_initial_def)

section \<open>One attempt at a time\<close>

text \<open>
  A request is in flight only while the form is locked, and its continuation issues none:
  so a second attempt waits for the first.
\<close>

definition ends_here :: "issued \<times> (reply \<Rightarrow> 's prog) \<Rightarrow> bool" where
  "ends_here p \<longleftrightarrow> (\<forall>r. silent (snd p r) \<and> (\<forall>d. timers (exec (snd p r) d) = timers d))"

definition login_single :: "login_state config \<Rightarrow> bool" where
  "login_single c \<longleftrightarrow> timers c = [] \<and> length (pend c) \<le> 1 \<and>
     (pend c \<noteq> [] \<longrightarrow> mounted c \<longrightarrow> login_loading (st c)) \<and>
     list_all ends_here (pend c)"

lemma login_submit_single:
  "pend c = [] \<Longrightarrow> timers c = [] \<Longrightarrow> mounted c \<Longrightarrow> login_single (exec (login_submit (st c)) c)"
  by (auto simp: login_single_def ends_here_def login_submit_def api call_def react
      split: sum.splits reply.splits option.splits)

lemma login_step_single:
  assumes c: "login_single c" and s: "step Login c i = Some c'"
  shows "login_single c'"
proof (cases i)
  case (UserDo ev)
  with s have m: "mounted c" "enabled Login (st c) ev"
    and c': "c' = (exec (login_handle ev (st c)) c)\<lparr>rendered := Some (st (exec (login_handle ev (st c)) c))\<rparr>"
    by (auto split: if_splits)
  show ?thesis
  proof (cases ev)
    case LoginSubmit
    with m c have "pend c = []" "timers c = []"
      by (auto simp: login_single_def login_enabled_submit)
    with LoginSubmit c' m login_submit_single [of c] show ?thesis by (simp add: login_single_def)
  qed (use c c' m in \<open>auto simp: login_single_def\<close>)
next
  case (Answer j r)
  with s have j: "j < length (pend c)" by (auto split: if_splits)
  obtain q k where qk: "pend c = [(q, k)]" using c j
    by (cases "pend c") (auto simp: login_single_def)
  with j have "j = 0" by simp
  with c qk s Answer show ?thesis
    by (auto simp: login_single_def ends_here_def answer_def split: if_splits)
qed (use assms in \<open>auto simp: login_single_def split: if_splits option.splits\<close>)

lemma login_reachable_single: "reachable Login c \<Longrightarrow> login_single c"
proof (induction rule: reachable.induct)
  case (start ck path)
  show ?case by (simp add: boot_def login_single_def)
next
  case (advance c i c')
  then show ?case by (blast intro: login_step_single)
qed

section \<open>Properties\<close>

text \<open>
  C14. Submitting the form and its answer: on success the application is told of the user the
  server returned and no error is shown; on any failure (a refused or failed request, an error
  answer, an answer without \<open>data\<close>) nobody is logged in and a non-empty message is shown, the
  server's own when it sent one. In every case the form is unlocked and keeps its fields.
\<close>

theorem login_attempt:
  assumes "mounted c" "enabled Login (st c) LoginSubmit"
    and "run Login c [UserDo LoginSubmit, Answer (length (pend c)) r] = Some c'"
  shows "\<not> login_loading (st c') \<and> login_email (st c') = login_email (st c) \<and>
    login_password (st c') = login_password (st c) \<and> pend c' = pend c \<and>
    (case (case r of Resolved res \<Rightarrow> res_field ''user'' res | Rejected _ \<Rightarrow> None) of
       Some u \<Rightarrow> effects c' = effects c @ [LoggedIn u] \<and> login_error (st c') = JStr []
     | None \<Rightarrow> effects c' = effects c @ response_interceptor (pathname c) r \<and>
         truthy (login_error (st c')) \<and>
         login_error (st c') = err_text (case r of Rejected e \<Rightarrow> e | Resolved _ \<Rightarrow> type_error)
           (JStr ''Invalid credentials''))"
proof -
  let ?ok = "\<lambda>data. Perform (LoggedIn data) (SetSt (login_loading_update (\<lambda>_. False)) Done)"
  let ?er = "\<lambda>err. SetSt (login_error_update (\<lambda>_. err_text err (JStr ''Invalid credentials'')))
          (SetSt (login_loading_update (\<lambda>_. False)) Done)"
  let ?q = "request ''post'' ''/auth/login'' (Json (JObj [(''email'', JStr (login_email (st c))),
      (''password'', JStr (login_password (st c)))]))"
  let ?k = "\<lambda>r. case r of Resolved res \<Rightarrow> (case res_field ''user'' res of Some v \<Rightarrow> ?ok v | None \<Rightarrow> ?er type_error)
      | Rejected err \<Rightarrow> ?er err"
  obtain c1 q where c1: "step Login c (UserDo LoginSubmit) = Some c1"
    and p: "pend c1 = pend c @ [(q, ?k)]" and m: "mounted c1" "effects c1 = effects c"
      "pathname c1 = pathname c" "st c1 = (st c)\<lparr>login_error := JStr [], login_loading := True\<rparr>"
    using assms(1,2)
    by (cases "request_interceptor (cookie c) ?q") (auto simp: login_submit_exec login_def call_def)
  from assms(3) c1 have "step Login c1 (Answer (length (pend c)) r) = Some c'"
    by (simp add: bind_Some_iff del: step.simps)
  with p m show ?thesis
    by (cases r)
      (auto simp: answer_def remove_nth_def nth_append truthy_err_text response_interceptor_def
        split: if_splits option.splits)
qed

theorem login_attempt_witness:
  "let c = (boot Login [] ''/login'')\<lparr>st := login_initial\<lparr>login_email := ''a@x.org'', login_password := ''pw''\<rparr>\<rparr>;
       r = Rejected (server_error 401 ''/auth/login'' ''Invalid credentials'')
   in \<exists>c'. run Login c [UserDo LoginSubmit, Answer (length (pend c)) r] = Some c' \<and> \<not> login_loading (st c')"
proof -
  let ?c = "(boot Login [] ''/login'')\<lparr>st := login_initial\<lparr>login_email := ''a@x.org'', login_password := ''pw''\<rparr>\<rparr>"
  let ?r = "Rejected (server_error 401 ''/auth/login'' ''Invalid credentials'')"
  have e: "enabled Login (st ?c) LoginSubmit" "mounted ?c"
    by (simp_all add: login_enabled_submit login_initial_def boot_def)
  have "run Login ?c [UserDo LoginSubmit, Answer (length (pend ?c)) ?r] \<noteq> None"
    using e by (simp add: login_submit_def login_def call_def boot_def server_error_def)
  then obtain c' where "run Login ?c [UserDo LoginSubmit, Answer (length (pend ?c)) ?r] = Some c'" by auto
  with login_attempt [OF e(2,1) this] show ?thesis unfolding Let_def by blast
qed

text \<open>
  C15. The form sends one attempt at a time: at any reachable moment at most one sign-in request
  is in flight, and while one is, the submit control of the page is locked.
\<close>

theorem login_one_attempt:
  assumes "reachable Login c"
  shows "length (pend c) \<le> 1 \<and>
    (pend c \<noteq> [] \<and> mounted c \<longrightarrow> \<not> enabled Login (st c) LoginSubmit) \<and>
    (pend c = [] \<and> mounted c \<longrightarrow> \<not> login_loading (st c))"
  using login_reachable_single [OF assms] login_spinner.idle_off [OF assms]
  by (auto simp: login_single_def login_enabled_submit)

theorem login_one_attempt_witness:
  "reachable Login (boot Login [] ''/login'') \<and> length (pend (boot Login [] ''/login'')) \<le> 1"
  using login_one_attempt [OF reachable.start] reachable.start by blast

end
