(* ===== verification/MessageView.thy ===== *)
theory MessageView imports Api Busy_Flag begin

text \<open>
  \<open>web/src/components/MessageView.jsx\<close>: one message, with its attachments. \<open>mv_id\<close> is the route
  parameter, which the router may change while the component stays mounted (\<open>MvRoute\<close>).
  DOMPurify's \<open>sanitize\<close> and the browser's \<open>toLocaleString\<close> are parameters.
\<close>

record mv_state =
  mv_id :: string
  mv_message :: jsval
  mv_attachments :: jsval
  mv_loading :: bool

datatype mv_event =
    MvRoute string
  | MvBack
  | MvDelete
  | MvReply
  | MvForward
  | MvStar
  | MvDownload jsval

definition mv_initial :: "string \<Rightarrow> mv_state" where
  "mv_initial i = \<lparr>mv_id = i, mv_message = Null, mv_attachments = JArr [], mv_loading = True\<rparr>"

definition mv_loaded :: "mv_state prog" where
  "mv_loaded = SetSt (mv_loading_update (\<lambda>_. False)) Done"

text \<open>The callback of line 17; it reads \<open>id\<close> from its own render.\<close>

definition mv_show :: "string \<Rightarrow> jsval \<Rightarrow> mv_state prog" where
  "mv_show i data =
     SetSt (mv_message_update (\<lambda>_. data))
     (attempt (do { a \<leftarrow> js_get data ''attachments''; r \<leftarrow> js_get data ''is_read''; Some (a, r) })
        (\<lambda>(a, r). SetSt (mv_attachments_update (\<lambda>_. js_or a (JArr [])))
           (if truthy r then mv_loaded
            else Fork (patchMessage (JStr i) (JObj [(''is_read'', JBool True)])
                   (\<lambda>_. Done) (\<lambda>err. Perform (ConsoleError [] err) Done))
                 mv_loaded))
        (\<lambda>err. Perform (ConsoleError [] err) mv_loaded))"

text \<open>The effect of lines 14 to 27, run when \<open>id\<close> changed.\<close>

definition mv_fetch :: "string \<Rightarrow> mv_state prog" where
  "mv_fetch i =
     SetSt (mv_loading_update (\<lambda>_. True))
     (getMessage (JStr i) (mv_show i) (\<lambda>err. Perform (ConsoleError [] err) mv_loaded))"

definition mv_commit :: "mv_state option \<Rightarrow> mv_state \<Rightarrow> mv_state prog" where
  "mv_commit old s =
     (if map_option mv_id old = Some (mv_id s) then Done else mv_fetch (mv_id s))"

definition mv_delete :: "mv_state \<Rightarrow> mv_state prog" where
  "mv_delete s = deleteMessage (JStr (mv_id s)) (\<lambda>_. Perform NavigateBack Done) uncaught"

definition mv_toggle_star :: "mv_state \<Rightarrow> mv_state prog" where
  "mv_toggle_star s =
     attempt (js_get (mv_message s) ''is_flagged'')
       (\<lambda>flag. patchMessage (JStr (mv_id s)) (JObj [(''is_flagged'', js_not flag)])
          (\<lambda>_. SetSt (mv_message_update (\<lambda>_. js_spread_set (mv_message s) ''is_flagged'' (js_not flag))) Done)
          uncaught)
       uncaught"

definition mv_download :: "mv_state \<Rightarrow> jsval \<Rightarrow> mv_state prog" where
  "mv_download s att =
     (let failed = (\<lambda>err. Perform (ConsoleError ''Download failed:'' err) Done) in
      attempt (js_get att ''id'')
        (\<lambda>attId. downloadAttachment (JStr (mv_id s)) attId
           (\<lambda>blob. Perform (SaveBlob blob (js_oget att ''filename'')) Done) failed)
        failed)"

fun mv_handle :: "mv_event \<Rightarrow> mv_state \<Rightarrow> mv_state prog" where
  "mv_handle (MvRoute i) s = SetSt (mv_id_update (\<lambda>_. i)) Done"
| "mv_handle MvBack s = Perform NavigateBack Done"
| "mv_handle MvDelete s = mv_delete s"
| "mv_handle MvReply s = Perform (Navigate ''/compose'' (JObj [(''replyTo'', mv_message s)])) Done"
| "mv_handle MvForward s = Perform (Navigate ''/compose'' (JObj [(''forwardTo'', mv_message s)])) Done"
| "mv_handle MvStar s = mv_toggle_star s"
| "mv_handle (MvDownload att) s = mv_download s att"

section \<open>The view\<close>

text \<open>Lines 132 to 143: one attachment.\<close>

definition mv_attachment_view :: "jsval \<Rightarrow> mv_event ui option" where
  "mv_attachment_view att = do {
     name \<leftarrow> js_get att ''filename'';
     size \<leftarrow> js_get att ''size_bytes'';
     t \<leftarrow> js_child name;
     Some (Btn False (MvDownload att) [Icon ''Paperclip'', Txt t, Txt (''('' @ kilobytes size @ '' KB)'')]) }"

definition mv_attachments_view :: "jsval \<Rightarrow> mv_event ui list option" where
  "mv_attachments_view atts = do {
     n \<leftarrow> js_get atts ''length'';
     if js_positive n then do { xs \<leftarrow> js_elems atts; sequence (map mv_attachment_view xs) } else Some [] }"

text \<open>Lines 110 to 123: recipients and labels.\<close>

definition mv_to_text :: "jsval \<Rightarrow> string option" where
  "mv_to_text to =
     (if nullish to then Some []
      else do { ts \<leftarrow> js_elems to; es \<leftarrow> sequence (map (\<lambda>t. js_get t ''email'') ts);
                Some (js_join_values '', '' es) })"

definition mv_labels_view :: "jsval \<Rightarrow> mv_event ui list option" where
  "mv_labels_view labels =
     (if js_positive (js_oget labels ''length'')
      then do { ls \<leftarrow> js_elems labels; ts \<leftarrow> sequence (map js_child ls); Some (map Txt ts) }
      else Some [])"

definition mv_header_view :: "(jsval \<Rightarrow> string) \<Rightarrow> jsval \<Rightarrow> mv_event ui list option" where
  "mv_header_view locale_time msg = do {
     let from = js_prop msg ''from'';
     let name = js_or (js_oget from ''name'') (js_oget from ''email'');
     subject \<leftarrow> js_child (js_or (js_prop msg ''subject'') (JStr ''(no subject)''));
     letter \<leftarrow> js_initial (js_or name (JStr ''U''));
     who \<leftarrow> js_child name;
     email \<leftarrow> js_child (js_oget from ''email'');
     to \<leftarrow> mv_to_text (js_prop msg ''to'');
     labels \<leftarrow> mv_labels_view (js_prop msg ''labels'');
     Some ([Txt subject, Txt letter, Txt who, Txt email, Txt (locale_time (js_prop msg ''date'')),
            Txt ''To: '', Txt to] @ labels) }"

text \<open>Lines 148 to 162: the body.\<close>

definition mv_body_view :: "(string \<Rightarrow> string) \<Rightarrow> jsval \<Rightarrow> mv_event ui option" where
  "mv_body_view sanitize msg =
     (if truthy (js_prop msg ''html_body'')
      then Some (Frame [] (sanitize (js_string (js_prop msg ''html_body''))))
      else text_child (js_or (js_prop msg ''plain_text'')
             (js_or (js_prop msg ''snippet'') (JStr ''No content''))))"

definition mv_view ::
  "(string \<Rightarrow> string) \<Rightarrow> (jsval \<Rightarrow> string) \<Rightarrow> mv_state \<Rightarrow> mv_event ui option" where
  "mv_view sanitize locale_time s =
     (if mv_loading s then Some (Box [Icon ''spinner''])
      else if \<not> truthy (mv_message s) then Some (Box [Txt ''Message not found''])
      else do {
        header \<leftarrow> mv_header_view locale_time (mv_message s);
        atts \<leftarrow> mv_attachments_view (mv_attachments s);
        body \<leftarrow> mv_body_view sanitize (mv_message s);
        Some (Box
          ([Btn False MvBack [Icon ''ArrowLeft''], Btn False MvDelete [Icon ''Trash2''],
            Btn False MvReply [Icon ''Reply''], Btn False MvForward [Icon ''Forward''],
            Btn False MvStar [Icon (if truthy (js_prop (mv_message s) ''is_flagged'')
               then ''Star filled'' else ''Star'')]]
           @ header @ atts @ [body])) })"

definition MessageView ::
  "(string \<Rightarrow> string) \<Rightarrow> (jsval \<Rightarrow> string) \<Rightarrow> string \<Rightarrow> (mv_event, mv_state) component" where
  "MessageView sanitize locale_time i = \<lparr>initial = mv_initial i, handle = mv_handle,
     after_commit = mv_commit, cleanup = \<lambda>_. Done, view = mv_view sanitize locale_time,
     external = \<lambda>e. (case e of MvRoute _ \<Rightarrow> True | _ \<Rightarrow> False)\<rparr>"

lemma MessageView_simps [simp]:
  "initial (MessageView san loc i) = mv_initial i" "handle (MessageView san loc i) = mv_handle"
  "after_commit (MessageView san loc i) = mv_commit" "cleanup (MessageView san loc i) s = Done"
  "view (MessageView san loc i) = mv_view san loc"
  "external (MessageView san loc i) (MvRoute j)"
  by (simp_all add: MessageView_def)

section \<open>The spinner\<close>

lemmas mv_defs = mv_commit_def mv_fetch_def mv_show_def mv_loaded_def mv_delete_def
  mv_toggle_star_def mv_download_def

interpretation mv_spinner: busy_flag "MessageView san loc i" mv_loading "\<lambda>_ _. False"
proof unfold_locales
  show "tidy mv_loading False (handle (MessageView san loc i) ev s)" for ev s
    by (cases ev) (auto simp: mv_defs api react uncaught_def Let_def split: option.split)
qed (auto simp: mv_initial_def mv_defs api react split: option.split)

section \<open>Facts\<close>

lemma mv_settle:
  "map_option mv_id (rendered c) = Some (mv_id (st c)) \<Longrightarrow> mounted c \<Longrightarrow>
   settle commit_limit (MessageView san loc i) c = c\<lparr>rendered := Some (st c)\<rparr>"
  by (subst settle_done) (auto simp: mv_commit_def)

text \<open>The configuration after the first commit: the message is on its way.\<close>

lemma mv_boot:
  "boot (MessageView san loc i) ck path =
     exec (mv_fetch i) (mount_config (MessageView san loc i) ck path)"
proof -
  let ?c = "exec (mv_fetch i) (mount_config (MessageView san loc i) ck path)"
  have "request_interceptor ck (request ''get'' (''/messages/'' @ i) NoBody)
      = Inr (request ''get'' (''/messages/'' @ i) NoBody)"
    by (simp add: request_interceptor_def get_not_mutating)
  then have "rendered ?c = Some (st ?c)"
    by (simp add: mv_fetch_def getMessage_def call_def mount_config_def mv_initial_def)
  then show ?thesis
    unfolding boot_mount by (simp add: mv_commit_def mv_initial_def settle_settled)
qed

lemma get_passes: "request_interceptor ck (request ''get'' u b) = Inr (request ''get'' u b)"
  by (simp add: request_interceptor_def get_not_mutating)

lemma frames_list: "(\<And>u. u \<in> set us \<Longrightarrow> frames u = []) \<Longrightarrow> concat (map frames us) = []"
  by simp

lemma mv_attachments_no_frame:
  assumes "mv_attachments_view atts = Some us" shows "concat (map frames us) = []"
proof (rule frames_list)
  fix u assume u: "u \<in> set us"
  with assms obtain att where "mv_attachment_view att = Some u"
    by (auto simp: mv_attachments_view_def bind_Some_iff sequence_eq_Some split: if_splits)
       (metis (no_types, lifting) image_eqI imageE list.set_map)
  then show "frames u = []" by (auto simp: mv_attachment_view_def bind_Some_iff)
qed

lemma mv_header_no_frame:
  assumes "mv_header_view loc msg = Some us" shows "concat (map frames us) = []"
  using assms by (auto simp: mv_header_view_def mv_labels_view_def bind_Some_iff Let_def split: if_splits)

section \<open>Properties\<close>

text \<open>
  C19. The HTML of a message reaches the page only inside a frame with an empty \<open>sandbox\<close> attribute,
  and only after \<open>sanitize\<close>: every frame of every view has that form, there is one exactly when
  a loaded message has an HTML body, and then its text is not shown otherwise.
\<close>

theorem mv_html_sandboxed:
  assumes "mv_view sanitize locale_time s = Some u"
  shows "frames u =
    (if \<not> mv_loading s \<and> truthy (mv_message s) \<and> truthy (js_prop (mv_message s) ''html_body'')
     then [([], sanitize (js_string (js_prop (mv_message s) ''html_body'')))] else [])"
  using assms
  by (auto simp: mv_view_def mv_body_view_def text_child_def bind_Some_iff mv_header_no_frame
      mv_attachments_no_frame split: if_splits)

theorem mv_html_sandboxed_witness:
  "\<exists>u. mv_view (\<lambda>h. ''clean'') (\<lambda>_. ''today'')
      \<lparr>mv_id = ''7'', mv_message = JObj [(''html_body'', JStr ''<script>'')], mv_attachments = JArr [],
       mv_loading = False\<rparr> = Some u \<and> frames u = [([], ''clean'')]"
proof -
  let ?s = "\<lparr>mv_id = ''7'', mv_message = JObj [(''html_body'', JStr ''<script>'')], mv_attachments = JArr [],
       mv_loading = False\<rparr>"
  have "mv_view (\<lambda>h. ''clean'') (\<lambda>_. ''today'') ?s \<noteq> None"
    by (simp add: mv_view_def mv_header_view_def mv_to_text_def mv_labels_view_def
        mv_attachments_view_def mv_body_view_def Let_def)
  then obtain u where u: "mv_view (\<lambda>h. ''clean'') (\<lambda>_. ''today'') ?s = Some u" by auto
  from mv_html_sandboxed [OF u] u show ?thesis by simp
qed

text \<open>
  C20. Opening a message shows it and marks it read: when the answer arrives the spinner is off,
  message and attachments are those of the server, and a \<open>PATCH\<close> with \<open>is_read: true\<close> to this very
  message was sent if and only if the message was unread.
\<close>

theorem mv_open_marks_read:
  assumes "cookie_ok ck" "js_get res ''data'' = Some data" "\<not> nullish data"
    and "run (MessageView san loc i) (boot (MessageView san loc i) ck path) [Answer 0 (Resolved res)] = Some c"
  shows "\<not> mv_loading (st c) \<and> mv_message (st c) = data \<and>
    mv_attachments (st c) = js_or (js_prop data ''attachments'') (JArr []) \<and>
    map wire (sent c) = (''get'', ''/messages/'' @ i, NoBody) #
      (if truthy (js_prop data ''is_read'') then []
       else [(''patch'', ''/messages/'' @ i, Json (JObj [(''is_read'', JBool True)]))])"
proof -
  have d: "js_get data k = Some (js_prop data k)" for k using assms(3) by (simp add: js_get_def)
  have "res_data res = Some data" using assms(2) by (simp add: res_data_def)
  with assms(1,4) d show ?thesis
    by (auto simp: mv_boot mv_fetch_def mv_show_def mv_loaded_def mount_config_def mv_initial_def
        api call_def get_passes answer_def interceptor_signed mv_settle split: if_splits)
qed

theorem mv_open_marks_read_witness:
  "\<exists>c. run (MessageView id (\<lambda>_. []) ''7'') (boot (MessageView id (\<lambda>_. []) ''7'') [] ''/message/7'')
      [Answer 0 (Resolved (JObj [(''data'', JObj [(''is_read'', JBool False)])]))] = Some c \<and>
     length (sent c) = 2"
proof -
  let ?C = "MessageView id (\<lambda>_. []) ''7''"
  let ?res = "JObj [(''data'', JObj [(''is_read'', JBool False)])]"
  have "run ?C (boot ?C [] ''/message/7'') [Answer 0 (Resolved ?res)] \<noteq> None"
    by (simp add: mv_boot mv_fetch_def mount_config_def api call_def)
  then obtain c where c: "run ?C (boot ?C [] ''/message/7'') [Answer 0 (Resolved ?res)] = Some c" by auto
  from mv_open_marks_read [OF cookie_ok_Nil _ _ c] have "length (map wire (sent c)) = 2" by simp
  with c show ?thesis by auto
qed

text \<open>
  C21. Deleting: the page goes back only after the server confirmed the deletion; when the request
  fails the message stays on screen and nothing navigates.
\<close>

theorem mv_delete_then_back:
  assumes "rendered c = Some (st c)"
    and "run (MessageView san loc i) c [UserDo MvDelete, Answer (length (pend c)) r] = Some c'"
  shows "st c' = st c \<and> effects c' = effects c @ response_interceptor (pathname c) r @
    (case r of Resolved _ \<Rightarrow> [NavigateBack] | Rejected e \<Rightarrow> [Uncaught e])"
proof -
  let ?k = "\<lambda>r. case r of Resolved res \<Rightarrow> Perform NavigateBack Done | Rejected e \<Rightarrow> uncaught e"
  have "handle (MessageView san loc i) MvDelete (st c)
      = Request (request ''delete'' (''/messages/'' @ mv_id (st c)) NoBody) ?k"
    by (simp add: mv_delete_def api call_def no_result_def fun_eq_iff split: reply.split)
  from ask_and_answer [OF assms(1) this assms(2)] assms(1) show ?thesis
    by (cases r) (simp_all add: uncaught_def mv_settle)
qed

theorem mv_delete_then_back_witness:
  "let C = MessageView id (\<lambda>_. []) ''7'';
       s = \<lparr>mv_id = ''7'', mv_message = JObj [], mv_attachments = JArr [], mv_loading = False\<rparr>;
       c = (boot C [] ''/message/7'')\<lparr>st := s, rendered := Some s, pend := []\<rparr>
   in \<exists>c'. run C c [UserDo MvDelete, Answer (length (pend c)) (Resolved (JObj []))] = Some c' \<and>
      NavigateBack \<in> set (effects c')"
proof -
  let ?C = "MessageView id (\<lambda>_. []) ''7''"
  let ?s = "\<lparr>mv_id = ''7'', mv_message = JObj [], mv_attachments = JArr [], mv_loading = False\<rparr>"
  let ?c = "(boot ?C [] ''/message/7'')\<lparr>st := ?s, rendered := Some ?s, pend := []\<rparr>"
  have "enabled ?C ?s MvDelete"
    by (simp add: enabled_def mv_view_def mv_header_view_def mv_to_text_def mv_labels_view_def
        mv_attachments_view_def mv_body_view_def text_child_def Let_def)
  then have "run ?C ?c [UserDo MvDelete, Answer (length (pend ?c)) (Resolved (JObj []))] \<noteq> None"
    by (simp add: mv_boot mv_fetch_def mount_config_def mv_delete_def api call_def settle_settled)
  then obtain c' where c': "run ?C ?c [UserDo MvDelete, Answer (length (pend ?c)) (Resolved (JObj []))] = Some c'"
    by auto
  from mv_delete_then_back [OF _ c'] c' show ?thesis unfolding Let_def by auto
qed

text \<open>
  The star: the click asks the server for the opposite of the flag shown; when it agrees, the
  message on screen has the flag inverted and every other field as before; when it refuses, the
  message is unchanged.
\<close>

theorem mv_star_toggles:
  assumes "rendered c = Some (st c)" "mv_message (st c) = JObj kvs"
    and "run (MessageView san loc i) c [UserDo MvStar, Answer (length (pend c)) r] = Some c'"
  shows "(case r of
      Resolved res \<Rightarrow>
        (nullish res \<longrightarrow> st c' = st c) \<and>
        (\<not> nullish res \<longrightarrow>
           js_prop (mv_message (st c')) ''is_flagged'' = js_not (js_prop (JObj kvs) ''is_flagged'') \<and>
           (\<forall>k. k \<noteq> ''is_flagged'' \<longrightarrow> js_prop (mv_message (st c')) k = js_prop (JObj kvs) k))
    | Rejected e \<Rightarrow> st c' = st c \<and> Uncaught e \<in> set (effects c'))"
proof -
  let ?v = "js_not (js_prop (JObj kvs) ''is_flagged'')"
  let ?k = "\<lambda>r. case r of
      Resolved res \<Rightarrow> (case res_data res of
        Some _ \<Rightarrow> SetSt (mv_message_update (\<lambda>_. js_spread_set (JObj kvs) ''is_flagged'' ?v)) Done
      | None \<Rightarrow> uncaught type_error)
    | Rejected e \<Rightarrow> uncaught e"
  have h: "handle (MessageView san loc i) MvStar (st c)
      = Request (request ''patch'' (''/messages/'' @ mv_id (st c)) (Json (JObj [(''is_flagged'', ?v)]))) ?k"
    using assms(2) by (simp add: mv_toggle_star_def api call_def fun_eq_iff split: reply.split option.split)
  note c' = ask_and_answer [OF assms(1) h assms(3)]
  show ?thesis
  proof (cases r)
    case (Resolved res)
    with c' assms(1) show ?thesis
      by (cases "nullish res") (simp_all add: uncaught_def mv_settle res_data_def js_get_def
        js_prop_spread_set_other)
  next
    case (Rejected e)
    with c' assms(1) show ?thesis by (simp add: uncaught_def mv_settle)
  qed
qed

theorem mv_star_toggles_witness:
  "let C = MessageView id (\<lambda>_. []) ''7'';
       s = \<lparr>mv_id = ''7'', mv_message = JObj [(''is_flagged'', JBool True)], mv_attachments = JArr [],
            mv_loading = False\<rparr>;
       c = (boot C [] ''/message/7'')\<lparr>st := s, rendered := Some s, pend := []\<rparr>
   in \<exists>c'. run C c [UserDo MvStar, Answer (length (pend c)) (Resolved (JObj []))] = Some c' \<and>
      js_prop (mv_message (st c')) ''is_flagged'' = JBool False"
proof -
  let ?C = "MessageView id (\<lambda>_. []) ''7''"
  let ?s = "\<lparr>mv_id = ''7'', mv_message = JObj [(''is_flagged'', JBool True)], mv_attachments = JArr [],
    mv_loading = False\<rparr>"
  let ?c = "(boot ?C [] ''/message/7'')\<lparr>st := ?s, rendered := Some ?s, pend := []\<rparr>"
  have "enabled ?C ?s MvStar"
    by (simp add: enabled_def mv_view_def mv_header_view_def mv_to_text_def mv_labels_view_def
        mv_attachments_view_def mv_body_view_def text_child_def Let_def)
  then have "run ?C ?c [UserDo MvStar, Answer (length (pend ?c)) (Resolved (JObj []))] \<noteq> None"
    by (simp add: mv_boot mv_fetch_def mount_config_def mv_toggle_star_def api call_def settle_settled)
  then obtain c' where c': "run ?C ?c [UserDo MvStar, Answer (length (pend ?c)) (Resolved (JObj []))] = Some c'"
    by auto
  from mv_star_toggles [OF _ _ c', of "[(''is_flagged'', JBool True)]"]
  have "js_prop (mv_message (st c')) ''is_flagged'' = JBool False" by (simp add: js_not_def)
  with c' show ?thesis unfolding Let_def by blast
qed

end
