(* ===== verification/Rich_Editor.thy ===== *)
theory Rich_Editor imports Reactor begin

text \<open>
  \<open>web/src/components/RichEditor.jsx\<close>: the body editor as a component controlled by its parent. The
  tiptap editor is a parameter: \<open>get_html\<close> writes a document, \<open>parse\<close> reads one, \<open>run_command\<close> is what
  a toolbar command does to one. The parent keeps in \<open>re_value\<close> what \<open>onChange\<close> passed last, as
  \<open>Compose\<close> does with \<open>setHtml\<close>; \<open>ReValue\<close> is the parent setting another value. The editor is there
  from the first render on (line 22 is for server rendering).
\<close>

record 'd editor_fns =
  get_html :: "'d \<Rightarrow> string"
  parse :: "string \<Rightarrow> 'd"
  run_command :: "string \<Rightarrow> 'd \<Rightarrow> 'd"

record 'd re_state =
  re_doc :: 'd
  re_value :: jsval

datatype 'd re_event =
    is_ReEdit: ReEdit 'd
  | ReCommand string
  | ReValue jsval

text \<open>\<open>value || ''\<close>, as a document.\<close>

definition content_of :: "'d editor_fns \<Rightarrow> jsval \<Rightarrow> 'd" where
  "content_of ed v = parse ed (js_string (js_or v (JStr [])))"

definition re_initial :: "'d editor_fns \<Rightarrow> jsval \<Rightarrow> 'd re_state" where
  "re_initial ed v = \<lparr>re_doc = content_of ed v, re_value = v\<rparr>"

text \<open>Lines 10 to 12: a change of the document is reported to the parent.\<close>

definition onUpdate :: "'d editor_fns \<Rightarrow> 'd \<Rightarrow> 'd re_state prog" where
  "onUpdate ed d = SetSt (\<lambda>s. s\<lparr>re_doc := d, re_value := JStr (get_html ed d)\<rparr>) Done"

fun re_handle :: "'d editor_fns \<Rightarrow> 'd re_event \<Rightarrow> 'd re_state \<Rightarrow> 'd re_state prog" where
  "re_handle ed (ReEdit d) s = onUpdate ed d"
| "re_handle ed (ReCommand c) s =
     (if run_command ed c (re_doc s) = re_doc s then Done else onUpdate ed (run_command ed c (re_doc s)))"
| "re_handle ed (ReValue v) s = SetSt (re_value_update (\<lambda>_. v)) Done"

text \<open>
  Lines 15 to 20. The \<open>false\<close> is meant as \<open>emitUpdate\<close>, but the second argument of \<open>setContent\<close> is an object of
  options in the tiptap of \<open>web/package-lock.json\<close> (3.23.4), and \<open>emitUpdate\<close> of \<open>false\<close> is undefined, which
  stands for true. So \<open>onUpdate\<close> is called, unless the new document equals the old one.
\<close>

definition setContent :: "'d editor_fns \<Rightarrow> 'd \<Rightarrow> 'd \<Rightarrow> 'd re_state prog" where
  "setContent ed old new = (if new = old then Done else onUpdate ed new)"

definition re_commit :: "'d editor_fns \<Rightarrow> 'd re_state option \<Rightarrow> 'd re_state \<Rightarrow> 'd re_state prog" where
  "re_commit ed old s =
     (if map_option re_value old = Some (re_value s) then Done
      else if re_value s \<noteq> JStr (get_html ed (re_doc s))
      then setContent ed (re_doc s) (content_of ed (re_value s))
      else Done)"

definition re_view :: "'d re_state \<Rightarrow> 'd re_event ui option" where
  "re_view s = Some (Box (map (\<lambda>(c, icon). Btn False (ReCommand c) [Icon icon])
       [(''toggleBold'', ''Bold''), (''toggleItalic'', ''Italic''), (''toggleBulletList'', ''List''),
        (''toggleOrderedList'', ''ListOrdered''), (''toggleBlockquote'', ''Quote'')] @
     [Field (re_value s) is_ReEdit]))"

definition RichEditor :: "'d editor_fns \<Rightarrow> jsval \<Rightarrow> ('d re_event, 'd re_state) component" where
  "RichEditor ed v = \<lparr>initial = re_initial ed v, handle = re_handle ed, after_commit = re_commit ed,
     cleanup = \<lambda>_. Done, view = re_view, external = \<lambda>e. (case e of ReValue _ \<Rightarrow> True | _ \<Rightarrow> False)\<rparr>"

lemma RichEditor_simps [simp]:
  "initial (RichEditor ed v) = re_initial ed v" "handle (RichEditor ed v) = re_handle ed"
  "after_commit (RichEditor ed v) = re_commit ed" "cleanup (RichEditor ed v) s = Done"
  by (simp_all add: RichEditor_def)

text \<open>The document shows the value: it is the one written as that value, or the one read from it.\<close>

definition shows_value :: "'d editor_fns \<Rightarrow> 'd re_state \<Rightarrow> bool" where
  "shows_value ed s \<longleftrightarrow> re_value s = JStr (get_html ed (re_doc s)) \<or> re_doc s = content_of ed (re_value s)"

text \<open>A commit that does not touch a state in order, and one that brings it in order.\<close>

lemma settle_same_value:
  assumes "mounted c" "map_option re_value (rendered c) = Some (re_value (st c))" "0 < n"
  shows "settle n (RichEditor ed v) c = c\<lparr>rendered := Some (st c)\<rparr>"
  using assms by (subst settle_done) (simp_all add: re_commit_def)

definition synced :: "'d editor_fns \<Rightarrow> 'd re_state \<Rightarrow> 'd re_state" where
  "synced ed s =
     (let d = content_of ed (re_value s) in
      if re_value s = JStr (get_html ed (re_doc s)) \<or> d = re_doc s then s
      else s\<lparr>re_doc := d, re_value := JStr (get_html ed d)\<rparr>)"

lemma synced_shows: "shows_value ed (synced ed s)"
  by (auto simp: synced_def shows_value_def Let_def)

lemma settle_value:
  assumes "mounted c" "map_option re_value (rendered c) \<noteq> Some (re_value (st c))"
  shows "settle (Suc (Suc n)) (RichEditor ed v) c = c\<lparr>st := synced ed (st c), rendered := Some (synced ed (st c))\<rparr>"
proof -
  let ?s = "synced ed (st c)"
  have "rendered c \<noteq> Some (st c)" using assms(2) by auto
  moreover have "exec (re_commit ed (rendered c) (st c)) (c\<lparr>rendered := Some (st c)\<rparr>) =
      c\<lparr>st := ?s, rendered := Some (st c)\<rparr>"
    using assms by (cases c) (auto simp: re_commit_def setContent_def onUpdate_def synced_def Let_def)
  ultimately have "settle (Suc (Suc n)) (RichEditor ed v) c =
      settle (Suc n) (RichEditor ed v) (c\<lparr>st := ?s, rendered := Some (st c)\<rparr>)"
    using assms(1) by (subst settle.simps(2)) simp
  also have "\<dots> = c\<lparr>st := ?s, rendered := Some ?s\<rparr>"
    using assms(1) by (subst settle_done) (auto simp: re_commit_def synced_def Let_def)
  finally show ?thesis .
qed

definition re_ok :: "'d editor_fns \<Rightarrow> 'd re_state config \<Rightarrow> bool" where
  "re_ok ed c \<longleftrightarrow> pend c = [] \<and> timers c = [] \<and> (mounted c \<longrightarrow> rendered c = Some (st c) \<and> shows_value ed (st c))"

lemma settle_re_ok:
  assumes "pend c = []" "timers c = []" "map_option re_value (rendered c) = Some (re_value (st c)) \<longrightarrow> shows_value ed (st c)"
  shows "re_ok ed (settle commit_limit (RichEditor ed v) c)"
proof (cases "mounted c")
  case False
  then have "settle commit_limit (RichEditor ed v) c = c"
    by (simp add: commit_limit_def eval_nat_numeral)
  with assms False show ?thesis by (simp add: re_ok_def)
next
  case True
  have n: "commit_limit = Suc (Suc 48)" by (simp add: commit_limit_def)
  show ?thesis
  proof (cases "map_option re_value (rendered c) = Some (re_value (st c))")
    case same: True
    then show ?thesis using assms True settle_same_value [OF True same, of commit_limit] by (simp add: re_ok_def)
  next
    case False
    from settle_value [OF True this, where ed = ed and v = v and n = 48] show ?thesis using assms(1,2)
      by (simp add: re_ok_def n synced_shows)
  qed
qed

lemma re_ok_step: "re_ok ed c \<Longrightarrow> step (RichEditor ed v) c i = Some c' \<Longrightarrow> re_ok ed c'"
proof (cases i)
  case (UserDo e)
  assume ok: "re_ok ed c" and s: "step (RichEditor ed v) c i = Some c'"
  then have m: "mounted c" and c': "c' = settle commit_limit (RichEditor ed v) (exec (re_handle ed e (st c)) c)"
    using UserDo by (auto split: if_splits)
  show ?thesis unfolding c'
    by (rule settle_re_ok; cases e; use ok m in \<open>auto simp: re_ok_def onUpdate_def shows_value_def\<close>)
qed (auto simp: re_ok_def split: if_splits)

text \<open>
  C40. In every run, whatever the user types, whichever toolbar button is pressed and whatever value the
  parent sets, the document in the editor shows the parent's value after each commit: it is the
  document that is written as that value, or the one read from it.
\<close>

theorem editor_shows_value:
  assumes "reachable (RichEditor ed v) c" "mounted c"
  shows "shows_value ed (st c)"
proof -
  have "re_ok ed c" using assms(1)
  proof (induction rule: reachable.induct)
    case (start ck path)
    show ?case unfolding boot_def by (rule settle_re_ok) simp_all
  qed (rule re_ok_step)
  with assms(2) show ?thesis by (simp add: re_ok_def)
qed

text \<open>Typing never resets the document under the cursor: the value it reports comes back unchanged.\<close>

lemma edit_kept:
  assumes "rendered c = Some (st c)" "step (RichEditor ed v) c (UserDo (ReEdit d)) = Some c'"
  shows "re_doc (st c') = d \<and> re_value (st c') = JStr (get_html ed d)"
proof -
  let ?s = "(st c)\<lparr>re_doc := d, re_value := JStr (get_html ed d)\<rparr>"
  have m: "mounted c" and c': "c' = settle commit_limit (RichEditor ed v) (c\<lparr>st := ?s\<rparr>)"
    using assms(2) by (auto simp: onUpdate_def split: if_splits)
  have n: "commit_limit = Suc (Suc 48)" by (simp add: commit_limit_def)
  show ?thesis
  proof (cases "map_option re_value (rendered c) = Some (re_value ?s)")
    case True
    then show ?thesis using settle_same_value [of "c\<lparr>st := ?s\<rparr>" commit_limit ed v] m c' by simp
  next
    case False
    then show ?thesis using settle_value [of "c\<lparr>st := ?s\<rparr>" 48 ed v] m c' n by (simp add: synced_def)
  qed
qed

text \<open>
  Loading is not silent: a value the parent sets, such as the body of a stored draft, comes back to it as
  the editor writes it, and \<open>Compose\<close> saves the draft with that body though nobody edited it.
\<close>

lemma loading_reports:
  assumes "rendered c = Some (st c)" "content_of ed x \<noteq> re_doc (st c)" "x \<noteq> re_value (st c)"
    "x \<noteq> JStr (get_html ed (re_doc (st c)))"
    and "step (RichEditor ed v) c (UserDo (ReValue x)) = Some c'"
  shows "re_value (st c') = JStr (get_html ed (content_of ed x))"
proof -
  have m: "mounted c" and c': "c' = settle commit_limit (RichEditor ed v) (c\<lparr>st := (st c)\<lparr>re_value := x\<rparr>\<rparr>)"
    using assms(5) by (auto split: if_splits)
  have n: "commit_limit = Suc (Suc 48)" by (simp add: commit_limit_def)
  show ?thesis unfolding c' n using assms(1-4) m by (subst settle_value) (auto simp: synced_def Let_def)
qed

definition plain_editor :: "string editor_fns" where
  "plain_editor = \<lparr>get_html = (\<lambda>d. ''<p>'' @ d @ ''</p>''), parse = (\<lambda>t. t), run_command = (\<lambda>_ d. d)\<rparr>"

theorem editor_shows_value_witness:
  "\<exists>c. run (RichEditor plain_editor (JStr [])) (boot (RichEditor plain_editor (JStr [])) [] []) [UserDo (ReEdit ''hi'')] = Some c \<and>
     re_value (st c) = JStr ''<p>hi</p>'' \<and> shows_value plain_editor (st c)"
proof -
  let ?C = "RichEditor plain_editor (JStr [])" and ?b = "boot (RichEditor plain_editor (JStr [])) [] []"
  have b: "reachable ?C ?b" by (rule reachable.start)
  have m: "mounted ?b" by (simp add: boot_def)
  have "enabled ?C (st ?b) (ReEdit ''hi'')" by (simp add: enabled_def RichEditor_def re_view_def)
  with m obtain c where c: "step ?C ?b (UserDo (ReEdit ''hi'')) = Some c" by simp
  have r: "re_ok plain_editor ?b" unfolding boot_def by (rule settle_re_ok) simp_all
  have "re_value (st c) = JStr ''<p>hi</p>''"
    using edit_kept [OF _ c] r m by (simp add: re_ok_def plain_editor_def)
  moreover have "mounted c" using c m by (auto split: if_splits)
  moreover have "reachable ?C c" by (rule reachable.advance [OF b c])
  ultimately show ?thesis using editor_shows_value c by (intro exI [of _ c]) auto
qed

end
