(* ===== verification/App.thy ===== *)
theory App imports Api Busy_Flag begin

text \<open>
  \<open>web/src/App.jsx\<close>: who is signed in, and which part of the interface is shown. Signing in is the
  event \<open>AppLoggedIn\<close>, raised by the \<open>Login\<close> component; the event stream is connected and
  disconnected through the effects \<open>SseConnect\<close> and \<open>SseDisconnect\<close>, which \<open>Sse\<close> models.
  Which page a path shows is decided by React Router; the model has the table of routes.
\<close>

record app_state =
  app_user :: jsval
  app_loading :: bool

datatype app_event = is_AppLoggedIn: AppLoggedIn jsval

definition app_initial :: app_state where
  "app_initial = \<lparr>app_user = Null, app_loading = True\<rparr>"

text \<open>The effect of lines 18 to 28.\<close>

definition app_mount :: "app_state prog" where
  "app_mount =
     (let finish = SetSt (app_loading_update (\<lambda>_. False)) Done in
      getMe
        (\<lambda>data. SetSt (app_user_update (\<lambda>_. data)) (Perform SseConnect finish))
        (\<lambda>_. SetSt (app_user_update (\<lambda>_. Null)) finish))"

definition app_commit :: "app_state option \<Rightarrow> app_state \<Rightarrow> app_state prog" where
  "app_commit old s = (if old = None then app_mount else Done)"

fun app_handle :: "app_event \<Rightarrow> app_state \<Rightarrow> app_state prog" where
  "app_handle (AppLoggedIn u) s = SetSt (app_user_update (\<lambda>_. u)) (Perform SseConnect Done)"

text \<open>Lines 30 to 42, 44 to 56. The \<open>Login\<close> page hands over whatever user the server named.\<close>

datatype screen = Spinner | LoginPage | Pages jsval

definition app_screen :: "app_state \<Rightarrow> screen" where
  "app_screen s =
     (if app_loading s then Spinner else if \<not> truthy (app_user s) then LoginPage
      else Pages (app_user s))"

definition app_view :: "app_state \<Rightarrow> app_event ui option" where
  "app_view s = Some (case app_screen s of
     Spinner \<Rightarrow> Icon ''spinner''
   | LoginPage \<Rightarrow> Field Undefined is_AppLoggedIn
   | Pages u \<Rightarrow> Box [])"

datatype page = ToRoot | InboxPage | MessagePage | ComposePage | ContactsPage | CalendarPage | AdminPage

definition routes :: "(string \<times> page) list" where
  "routes = [(''/login'', ToRoot), (''/'', InboxPage), (''/inbox/:labelId?'', InboxPage),
     (''/message/:id'', MessagePage), (''/compose'', ComposePage), (''/compose/:draftId'', ComposePage),
     (''/contacts'', ContactsPage), (''/calendar'', CalendarPage), (''/admin'', AdminPage)]"

definition App :: "(app_event, app_state) component" where
  "App = \<lparr>initial = app_initial, handle = app_handle, after_commit = app_commit,
     cleanup = \<lambda>_. Perform SseDisconnect Done, view = app_view, external = \<lambda>_. False\<rparr>"

lemma App_simps [simp]:
  "initial App = app_initial" "handle App = app_handle" "after_commit App = app_commit"
  "cleanup App s = Perform SseDisconnect Done" "view App = app_view" "external App e = False"
  by (simp_all add: App_def)

interpretation app_spinner: busy_flag App app_loading "\<lambda>_ _. False"
proof unfold_locales
  show "tidy app_loading False (handle App ev s)" for ev s by (cases ev) auto
qed (auto simp: app_initial_def app_commit_def app_mount_def api react Let_def)

lemma app_settle:
  "rendered c \<noteq> None \<Longrightarrow> mounted c \<Longrightarrow> settle commit_limit App c = c\<lparr>rendered := Some (st c)\<rparr>"
  by (subst settle_done) (auto simp: app_commit_def)

definition app_answer :: "reply \<Rightarrow> app_state prog" where
  "app_answer r =
     (let finish = SetSt (app_loading_update (\<lambda>_. False)) Done in
      case (case r of Resolved res \<Rightarrow> res_field ''user'' res | Rejected _ \<Rightarrow> None) of
        Some u \<Rightarrow> SetSt (app_user_update (\<lambda>_. u)) (Perform SseConnect finish)
      | None \<Rightarrow> SetSt (app_user_update (\<lambda>_. Null)) finish)"

lemma app_boot:
  "boot App ck path = (mount_config App ck path)
     \<lparr>pend := [(Wire (request ''get'' ''/auth/me'' NoBody), app_answer)],
      sent := [request ''get'' ''/auth/me'' NoBody]\<rparr>"
proof -
  have "(\<lambda>r. case r of Resolved res \<Rightarrow>
        (case res_field ''user'' res of
          Some v \<Rightarrow> SetSt (app_user_update (\<lambda>_. v)) (Perform SseConnect (SetSt (app_loading_update (\<lambda>_. False)) Done))
        | None \<Rightarrow> SetSt (app_user_update (\<lambda>_. Null)) (SetSt (app_loading_update (\<lambda>_. False)) Done))
      | Rejected err \<Rightarrow> SetSt (app_user_update (\<lambda>_. Null)) (SetSt (app_loading_update (\<lambda>_. False)) Done))
    = app_answer"
    by (auto simp: fun_eq_iff app_answer_def split: reply.split option.split)
  then have "exec (after_commit App None (initial App)) (mount_config App ck path) = (mount_config App ck path)
     \<lparr>pend := [(Wire (request ''get'' ''/auth/me'' NoBody), app_answer)],
      sent := [request ''get'' ''/auth/me'' NoBody]\<rparr>"
    by (simp add: app_commit_def app_mount_def api call_def mount_config_def
        request_interceptor_def get_not_mutating)
  then show ?thesis unfolding boot_mount
    by (simp add: settle_settled mount_config_def)
qed

section \<open>Properties\<close>

text \<open>
  C26. Starting the application: whatever the answer to the first request, the spinner goes away.
  With a signed-in user the pages are shown for that user and the event stream is connected once;
  on any failure the sign-in form is shown, no stream is opened, and a 401 of this endpoint does
  not reload the page.
\<close>

theorem app_start:
  assumes "run App (boot App ck path) [Answer 0 r] = Some c"
  shows "\<not> app_loading (st c) \<and> pend c = [] \<and>
    (case (case r of Resolved res \<Rightarrow> res_field ''user'' res | Rejected _ \<Rightarrow> None) of
       Some u \<Rightarrow> (truthy u \<longrightarrow> app_screen (st c) = Pages u) \<and> effects c = [SseConnect]
     | None \<Rightarrow> app_screen (st c) = LoginPage \<and> effects c = response_interceptor path r) \<and>
    (\<forall>msg. r = Rejected (server_error 401 ''/auth/me'' msg) \<longrightarrow> effects c = [])"
proof -
  have i: "js_includes ''/auth/me'' ''/auth/''" by simp
  from assms show ?thesis
    by (cases r)
      (auto simp: app_boot answer_def app_answer_def app_settle mount_config_def app_initial_def
        app_screen_def response_interceptor_def server_error_def auth_url_def i Let_def
        split: option.splits if_splits)
qed

theorem app_start_witness:
  "\<exists>c. run App (boot App [] ''/'') [Answer 0 (Resolved (JObj [(''data'', JObj [(''user'', JObj [])])]))] = Some c \<and>
     app_screen (st c) = Pages (JObj []) \<and> effects c = [SseConnect]"
proof -
  let ?r = "Resolved (JObj [(''data'', JObj [(''user'', JObj [])])])"
  have "run App (boot App [] ''/'') [Answer 0 ?r] \<noteq> None" by (simp add: app_boot)
  then obtain c where c: "run App (boot App [] ''/'') [Answer 0 ?r] = Some c" by auto
  have "res_field ''user'' (JObj [(''data'', JObj [(''user'', JObj [])])]) = Some (JObj [])"
    by (simp add: res_field_def)
  with app_start [OF c] c show ?thesis by auto
qed

end
