(* ===== verification/Sse.thy ===== *)
theory Sse imports Js_Value begin

text \<open>
  \<open>web/src/sse.js\<close>: the client of the server's event stream. \<open>sse_client\<close> has the fields of
  the class; \<open>sse_world\<close> adds what the browser holds for it: the open \<open>EventSource\<close>
  objects, the pending timeouts (all of them call \<open>connect\<close>) and the calls made to
  subscribers. Subscribers are functions compared by identity (\<open>'cb\<close>); what each of them does when it
  is called, subscribing, unsubscribing or throwing, is part of the message that calls them. No
  subscriber of the program connects or disconnects, which is left to \<open>App.jsx\<close>.

  A server-sent event carries what \<open>JSON.parse(e.data)\<close> gives, \<open>None\<close> when it throws. The
  browser delivers events only from a source that is not closed.
\<close>

section \<open>Subscribers\<close>

text \<open>A \<open>Map\<close> from event names to \<open>Set\<close>s of callbacks, both in insertion order.\<close>

type_synonym 'cb listeners = "(jsval \<times> 'cb list) list"

fun map_set :: "'k \<Rightarrow> 'v \<Rightarrow> ('k \<times> 'v) list \<Rightarrow> ('k \<times> 'v) list" where
  "map_set k v [] = [(k, v)]"
| "map_set k v ((k', w) # kvs) = (if k = k' then (k, v) # kvs else (k', w) # map_set k v kvs)"

lemma map_of_map_set [simp]: "map_of (map_set k v kvs) = (map_of kvs)(k \<mapsto> v)"
  by (induction kvs) (auto simp: fun_eq_iff)

definition set_add :: "'a \<Rightarrow> 'a list \<Rightarrow> 'a list" where
  "set_add x xs = (if x \<in> set xs then xs else xs @ [x])"

definition set_delete :: "'a \<Rightarrow> 'a list \<Rightarrow> 'a list" where
  "set_delete x xs = filter (\<lambda>y. y \<noteq> x) xs"

definition sse_on :: "'cb listeners \<Rightarrow> jsval \<Rightarrow> 'cb \<Rightarrow> 'cb listeners" where
  "sse_on ls event callback =
     (let ls' = (if map_of ls event = None then map_set event [] ls else ls) in
      case map_of ls' event of
        Some cbs \<Rightarrow> map_set event (set_add callback cbs) ls'
      | None \<Rightarrow> ls')"

text \<open>The function \<open>on\<close> returns.\<close>

definition sse_off :: "'cb listeners \<Rightarrow> jsval \<Rightarrow> 'cb \<Rightarrow> 'cb listeners" where
  "sse_off ls event callback =
     (case map_of ls event of
        Some cbs \<Rightarrow> map_set event (set_delete callback cbs) ls
      | None \<Rightarrow> ls)"

text \<open>The callbacks \<open>emit\<close> calls, in order.\<close>

definition sse_subscribed :: "'cb listeners \<Rightarrow> jsval \<Rightarrow> 'cb list" where
  "sse_subscribed ls event = (case map_of ls event of Some cbs \<Rightarrow> cbs | None \<Rightarrow> [])"

lemma sse_subscribed_Nil [simp]: "sse_subscribed [] e = []"
  by (simp add: sse_subscribed_def)

lemma sse_subscribed_on:
  "sse_subscribed (sse_on ls e c) e' =
     (if e' = e then set_add c (sse_subscribed ls e) else sse_subscribed ls e')"
  by (cases "map_of ls e") (auto simp: sse_on_def sse_subscribed_def set_add_def Let_def)

lemma sse_subscribed_off:
  "sse_subscribed (sse_off ls e c) e' =
     (if e' = e then set_delete c (sse_subscribed ls e) else sse_subscribed ls e')"
  by (cases "map_of ls e") (auto simp: sse_off_def sse_subscribed_def set_delete_def)

section \<open>Calling the subscribers\<close>

text \<open>
  What a subscriber does while it is called: its calls to \<open>on\<close> and to functions \<open>on\<close> returned, and
  whether it throws then.
\<close>

datatype 'cb sub_op = Subscribe jsval 'cb | Unsubscribe jsval 'cb

type_synonym 'cb reaction = "'cb sub_op list \<times> bool"

text \<open>
  \<open>forEach\<close> on a \<open>Set\<close> that may change meanwhile: \<open>k\<close> is how many of its present elements have been
  visited. An element added goes to the end and will be visited; one that is deleted is not, and
  makes the visited part shorter when it lay there.
\<close>

fun perform :: "jsval \<Rightarrow> 'cb sub_op \<Rightarrow> nat \<times> 'cb listeners \<Rightarrow> nat \<times> 'cb listeners" where
  "perform event (Subscribe e cb) (k, ls) = (k, sse_on ls e cb)"
| "perform event (Unsubscribe e cb) (k, ls) =
     (if e = event then length (set_delete cb (take k (sse_subscribed ls event))) else k, sse_off ls e cb)"

text \<open>
  The loop. Subscribers called after the list of reactions is used up do nothing; a loop that never
  ends, because subscribers keep adding new ones, is no step.
\<close>

fun dispatch :: "jsval \<Rightarrow> jsval \<Rightarrow> 'cb reaction list \<Rightarrow> nat \<times> 'cb listeners \<Rightarrow> 'cb listeners \<times> ('cb \<times> jsval) list" where
  "dispatch event payload [] (k, ls) = (ls, map (\<lambda>cb. (cb, payload)) (drop k (sse_subscribed ls event)))"
| "dispatch event payload ((ops, throws) # rs) (k, ls) =
     (if length (sse_subscribed ls event) \<le> k then (ls, [])
      else let call = (sse_subscribed ls event ! k, payload); (k', ls') = fold (perform event) ops (Suc k, ls) in
        if throws then (ls', [call])
        else let (ls'', calls) = dispatch event payload rs (k', ls') in (ls'', call # calls))"

text \<open>The calls when the subscribers leave the subscriptions alone: up to the first that throws.\<close>

definition until_throw :: "'cb reaction list \<Rightarrow> 'a list \<Rightarrow> 'a list" where
  "until_throw rs xs = (if list_ex snd rs then take (Suc (length (takeWhile (\<lambda>r. \<not> snd r) rs))) xs else xs)"

lemma until_throw_simps [simp]:
  "until_throw [] xs = xs" "until_throw rs [] = []"
  "until_throw ((ops, t) # rs) (x # xs) = x # (if t then [] else until_throw rs xs)"
  by (simp_all add: until_throw_def)

lemma dispatch_calm:
  "list_all (\<lambda>r. fst r = []) rs \<Longrightarrow> dispatch event payload rs (k, ls) =
     (ls, map (\<lambda>cb. (cb, payload)) (until_throw rs (drop k (sse_subscribed ls event))))"
proof (induction rs arbitrary: k)
  case (Cons r rs)
  obtain t where r: "r = ([], t)" using Cons.prems by (cases r) auto
  show ?case
  proof (cases "length (sse_subscribed ls event) \<le> k")
    case False
    then have "drop k (sse_subscribed ls event) = sse_subscribed ls event ! k # drop (Suc k) (sse_subscribed ls event)"
      by (simp add: Cons_nth_drop_Suc)
    with False Cons r show ?thesis by simp
  qed (simp add: r)
qed simp

text \<open>Otherwise: one that is dropped before its turn is not called, one that is added meanwhile is, last.\<close>

lemma dispatch_changing:
  assumes "distinct [a, b, c, d]"
  shows "dispatch e p [([Unsubscribe e b, Subscribe e d], False), ([Unsubscribe e a], False)] (0, [(e, [a, b, c])]) =
    ([(e, [c, d])], [(a, p), (c, p), (d, p)])"
  using assms by (auto simp: sse_subscribed_def sse_on_def sse_off_def set_add_def set_delete_def)

section \<open>The contract of publish and subscribe\<close>

locale pubsub =
  fixes none :: 'l
    and add :: "'l \<Rightarrow> 'e \<Rightarrow> 'c \<Rightarrow> 'l"
    and remove :: "'l \<Rightarrow> 'e \<Rightarrow> 'c \<Rightarrow> 'l"
    and callbacks :: "'l \<Rightarrow> 'e \<Rightarrow> 'c list"
  assumes none: "callbacks none e = []"
    and add_new: "c \<notin> set (callbacks l e) \<Longrightarrow> callbacks (add l e c) e = callbacks l e @ [c]"
    and add_old: "c \<in> set (callbacks l e) \<Longrightarrow> callbacks (add l e c) e = callbacks l e"
    and add_other: "e' \<noteq> e \<Longrightarrow> callbacks (add l e c) e' = callbacks l e'"
    and remove_same: "callbacks (remove l e c) e = filter (\<lambda>d. d \<noteq> c) (callbacks l e)"
    and remove_other: "e' \<noteq> e \<Longrightarrow> callbacks (remove l e c) e' = callbacks l e'"
begin

lemma add_distinct: "distinct (callbacks l e') \<Longrightarrow> distinct (callbacks (add l e c) e')"
  by (cases "e' = e"; cases "c \<in> set (callbacks l e)") (simp_all add: add_new add_old add_other)

lemma remove_distinct: "distinct (callbacks l e') \<Longrightarrow> distinct (callbacks (remove l e c) e')"
  by (cases "e' = e") (simp_all add: remove_same remove_other)

text \<open>Dropping a subscription undoes it, and leaves the other subscribers in their order.\<close>

lemma add_remove:
  "c \<notin> set (callbacks l e) \<Longrightarrow> callbacks (remove (add l e c) e c) e' = callbacks l e'"
  by (cases "e' = e") (auto simp: remove_same remove_other add_new add_other filter_id_conv)

text \<open>An effect that replaces its callback keeps one subscription.\<close>

lemma resubscribe:
  assumes "c \<in> set (callbacks l e)" "distinct (callbacks l e)" "d \<notin> set (callbacks l e)"
  shows "length (callbacks (add (remove l e c) e d) e) = length (callbacks l e)"
    "last (callbacks (add (remove l e c) e d) e) = d"
proof -
  let ?cs = "filter (\<lambda>x. x \<noteq> c) (callbacks l e)"
  have cs: "callbacks (add (remove l e c) e d) e = ?cs @ [d]"
    using assms(3) by (subst add_new) (simp_all add: remove_same)
  have "length ?cs = length (remove1 c (callbacks l e))"
    using assms(2) by (simp add: distinct_remove1_removeAll removeAll_filter_not_eq)
       (metis (mono_tags, lifting) filter_cong)
  then show "length (callbacks (add (remove l e c) e d) e) = length (callbacks l e)"
    using assms(1) cs by (simp add: length_remove1) (metis Suc_pred length_pos_if_in_set)
  show "last (callbacks (add (remove l e c) e d) e) = d" by (simp add: cs)
qed

end

interpretation listeners: pubsub "[]" sse_on sse_off sse_subscribed
  by unfold_locales
    (simp_all add: sse_subscribed_on sse_subscribed_off set_add_def set_delete_def)

section \<open>The connection\<close>

record 'cb sse_client =
  eventSource :: "nat option"
  listeners_of :: "'cb listeners"
  reconnectTimer :: "nat option"
  reconnectDelay :: int

record 'cb sse_world =
  client :: "'cb sse_client"
  open_sources :: "nat list"
  timeouts :: "(nat \<times> int) list"
  next_handle :: nat
  called :: "('cb \<times> jsval) list"

text \<open>The constructor, lines 2 to 7; handles start at 1, so every handle is truthy.\<close>

definition sse_start :: "'cb sse_world" where
  "sse_start = \<lparr>client = \<lparr>eventSource = None, listeners_of = [], reconnectTimer = None,
      reconnectDelay = 1000\<rparr>, open_sources = [], timeouts = [], next_handle = 1, called = []\<rparr>"

definition set_client :: "('cb sse_client \<Rightarrow> 'cb sse_client) \<Rightarrow> 'cb sse_world \<Rightarrow> 'cb sse_world" where
  "set_client f w = w\<lparr>client := f (client w)\<rparr>"

definition sse_connect :: "'cb sse_world \<Rightarrow> 'cb sse_world" where
  "sse_connect w =
     (if eventSource (client w) \<noteq> None then w
      else (let h = next_handle w in
        set_client (eventSource_update (\<lambda>_. Some h))
          (w\<lparr>open_sources := open_sources w @ [h], next_handle := Suc h\<rparr>)))"

definition clear_reconnect :: "'cb sse_world \<Rightarrow> 'cb sse_world" where
  "clear_reconnect w =
     (case reconnectTimer (client w) of
        Some h \<Rightarrow> set_client (reconnectTimer_update (\<lambda>_. None))
          (w\<lparr>timeouts := filter (\<lambda>t. fst t \<noteq> h) (timeouts w)\<rparr>)
      | None \<Rightarrow> w)"

definition close_source :: "'cb sse_world \<Rightarrow> 'cb sse_world" where
  "close_source w =
     (case eventSource (client w) of
        Some h \<Rightarrow> set_client (eventSource_update (\<lambda>_. None))
          (w\<lparr>open_sources := filter (\<lambda>s. s \<noteq> h) (open_sources w)\<rparr>)
      | None \<Rightarrow> w)"

definition sse_disconnect :: "'cb sse_world \<Rightarrow> 'cb sse_world" where
  "sse_disconnect w = close_source (clear_reconnect w)"

definition emit :: "jsval \<Rightarrow> jsval \<Rightarrow> 'cb reaction list \<Rightarrow> 'cb sse_world \<Rightarrow> 'cb sse_world" where
  "emit event payload rs w =
     (let (ls, calls) = dispatch event payload rs (0, listeners_of (client w)) in
      set_client (listeners_of_update (\<lambda>_. ls)) (w\<lparr>called := called w @ calls\<rparr>))"

text \<open>
  Lines 14 to 17 and 23 to 30. A payload that does not parse leaves the client as it is; what a subscriber
  throws is caught by the same \<open>catch\<close>, after the calls made so far.
\<close>

definition on_connected :: "jsval option \<Rightarrow> 'cb sse_world \<Rightarrow> 'cb sse_world" where
  "on_connected parsed w =
     (if parsed = None then w else set_client (reconnectDelay_update (\<lambda>_. 1000)) w)"

definition on_message :: "jsval option \<Rightarrow> 'cb reaction list \<Rightarrow> 'cb sse_world \<Rightarrow> 'cb sse_world" where
  "on_message parsed rs w =
     (case do { event \<leftarrow> parsed; t \<leftarrow> js_get event ''type''; p \<leftarrow> js_get event ''payload''; Some (t, p) } of
        Some (t, p) \<Rightarrow> emit t p rs w
      | None \<Rightarrow> w)"

text \<open>Lines 32 to 36.\<close>

definition sse_onerror :: "'cb sse_world \<Rightarrow> 'cb sse_world" where
  "sse_onerror w =
     (let w1 = sse_disconnect w;
          delay = min (reconnectDelay (client w1) * 2) 30000;
          h = next_handle w1 in
      set_client (\<lambda>c. c\<lparr>reconnectDelay := delay, reconnectTimer := Some h\<rparr>)
        (w1\<lparr>timeouts := timeouts w1 @ [(h, delay)], next_handle := Suc h\<rparr>))"

section \<open>Steps\<close>

datatype 'cb sse_event =
    Connected "jsval option"
  | Heartbeat
  | Message "jsval option" "'cb reaction list"
  | ConnectionError

datatype 'cb sse_input =
    Connect
  | Disconnect
  | On jsval 'cb
  | Off jsval 'cb
  | Delivered nat "'cb sse_event"
  | TimeoutDue nat

fun on_event :: "'cb sse_event \<Rightarrow> 'cb sse_world \<Rightarrow> 'cb sse_world" where
  "on_event (Connected parsed) w = on_connected parsed w"
| "on_event Heartbeat w = w"
| "on_event (Message parsed rs) w = on_message parsed rs w"
| "on_event ConnectionError w = sse_onerror w"

inductive sse_step :: "'cb sse_world \<Rightarrow> 'cb sse_input \<Rightarrow> 'cb sse_world \<Rightarrow> bool" where
  connect: "sse_step w Connect (sse_connect w)"
| disconnect: "sse_step w Disconnect (sse_disconnect w)"
| subscribe: "sse_step w (On e cb) (set_client (listeners_of_update (\<lambda>ls. sse_on ls e cb)) w)"
| unsubscribe: "sse_step w (Off e cb) (set_client (listeners_of_update (\<lambda>ls. sse_off ls e cb)) w)"
| deliver: "s \<in> set (open_sources w) \<Longrightarrow> sse_step w (Delivered s ev) (on_event ev w)"
| timeout: "h \<in> fst ` set (timeouts w) \<Longrightarrow>
    sse_step w (TimeoutDue h) (sse_connect (w\<lparr>timeouts := filter (\<lambda>t. fst t \<noteq> h) (timeouts w)\<rparr>))"

inductive_cases sse_stepE: "sse_step w i w'"

inductive sse_run :: "'cb sse_world \<Rightarrow> 'cb sse_input list \<Rightarrow> 'cb sse_world \<Rightarrow> bool" where
  stop: "sse_run w [] w"
| more: "sse_step w i w' \<Longrightarrow> sse_run w' is w'' \<Longrightarrow> sse_run w (i # is) w''"

inductive_simps sse_run_Nil [simp]: "sse_run w [] w'"
inductive_simps sse_run_Cons: "sse_run w (i # is) w''"

lemma sse_run_append: "sse_run w (is @ js) w' \<longleftrightarrow> (\<exists>v. sse_run w is v \<and> sse_run v js w')"
  by (induction "is" arbitrary: w) (auto simp: sse_run_Cons)

section \<open>Invariants\<close>

definition backoff :: "nat \<Rightarrow> int" where
  "backoff n = min (1000 * 2 ^ n) 30000"

lemma backoff_0 [simp]: "backoff 0 = 1000"
  by (simp add: backoff_def)

lemma backoff_reset [simp]: "\<exists>n. backoff n = 1000" "\<exists>n. 1000 = backoff n"
  using backoff_0 by metis+

lemma backoff_Suc: "min (backoff n * 2) 30000 = backoff (Suc n)"
  by (simp add: backoff_def min_def)

lemma backoff_bounds: "1000 \<le> backoff n" "backoff n \<le> 30000"
proof -
  have "(1::int) \<le> 2 ^ n" by simp
  then show "1000 \<le> backoff n" unfolding backoff_def by linarith
qed (simp add: backoff_def)

definition sse_ok :: "'cb sse_world \<Rightarrow> bool" where
  "sse_ok w \<longleftrightarrow>
     open_sources w = (case eventSource (client w) of Some h \<Rightarrow> [h] | None \<Rightarrow> []) \<and>
     (timeouts w = [] \<or> (\<exists>h d. reconnectTimer (client w) = Some h \<and> timeouts w = [(h, d)])) \<and>
     (\<exists>n. reconnectDelay (client w) = backoff n) \<and>
     (\<forall>t \<in> set (timeouts w). \<exists>n. snd t = backoff (Suc n))"

lemmas sse_defs = sse_connect_def sse_disconnect_def clear_reconnect_def close_source_def
  set_client_def emit_def on_connected_def on_message_def

text \<open>What each operation does to a well-formed world.\<close>

lemma sse_connect_simps [simp]:
  "timeouts (sse_connect w) = timeouts w"
  "reconnectTimer (client (sse_connect w)) = reconnectTimer (client w)"
  "reconnectDelay (client (sse_connect w)) = reconnectDelay (client w)"
  "listeners_of (client (sse_connect w)) = listeners_of (client w)"
  "eventSource (client (sse_connect w)) \<noteq> None"
  by (auto simp: sse_connect_def set_client_def Let_def)

lemma sse_disconnect_simps:
  assumes "sse_ok w"
  shows "timeouts (sse_disconnect w) = []" "open_sources (sse_disconnect w) = []"
    "reconnectTimer (client (sse_disconnect w)) = None"
    "eventSource (client (sse_disconnect w)) = None"
    "reconnectDelay (client (sse_disconnect w)) = reconnectDelay (client w)"
    "listeners_of (client (sse_disconnect w)) = listeners_of (client w)"
  using assms
  by (auto simp: sse_ok_def sse_disconnect_def clear_reconnect_def close_source_def set_client_def
      split: option.splits)

lemma sse_onerror_simps:
  assumes "sse_ok w"
  shows "open_sources (sse_onerror w) = []" "eventSource (client (sse_onerror w)) = None"
    "reconnectDelay (client (sse_onerror w)) = min (reconnectDelay (client w) * 2) 30000"
    "\<exists>h. reconnectTimer (client (sse_onerror w)) = Some h \<and>
       timeouts (sse_onerror w) = [(h, min (reconnectDelay (client w) * 2) 30000)]"
    "listeners_of (client (sse_onerror w)) = listeners_of (client w)"
  using sse_disconnect_simps [OF assms]
  by (simp_all add: sse_onerror_def set_client_def Let_def)

lemma on_message_simps [simp]:
  "eventSource (client (on_message p rs w)) = eventSource (client w)"
  "reconnectTimer (client (on_message p rs w)) = reconnectTimer (client w)"
  "reconnectDelay (client (on_message p rs w)) = reconnectDelay (client w)"
  "open_sources (on_message p rs w) = open_sources w" "timeouts (on_message p rs w) = timeouts w"
  by (auto simp: on_message_def emit_def set_client_def split: option.splits prod.splits)

lemma on_connected_simps [simp]:
  "open_sources (on_connected p w) = open_sources w" "timeouts (on_connected p w) = timeouts w"
  "eventSource (client (on_connected p w)) = eventSource (client w)"
  "reconnectTimer (client (on_connected p w)) = reconnectTimer (client w)"
  "listeners_of (client (on_connected p w)) = listeners_of (client w)"
  "reconnectDelay (client (on_connected p w)) =
     (if p = None then reconnectDelay (client w) else 1000)"
  by (auto simp: on_connected_def set_client_def)

lemma sse_connect_ok:
  assumes "sse_ok w" shows "sse_ok (sse_connect w)"
  using assms by (auto simp: sse_ok_def sse_connect_def set_client_def Let_def)

lemma sse_disconnect_ok:
  assumes "sse_ok w" shows "sse_ok (sse_disconnect w)"
  using assms sse_disconnect_simps [OF assms] by (simp add: sse_ok_def)

lemma sse_onerror_ok:
  assumes "sse_ok w" shows "sse_ok (sse_onerror w)"
proof -
  obtain n where "reconnectDelay (client w) = backoff n" using assms by (auto simp: sse_ok_def)
  with sse_onerror_simps [OF assms] show ?thesis
    by (auto simp: sse_ok_def backoff_Suc)
qed

lemma sse_start_ok: "sse_ok sse_start"
  by (simp add: sse_ok_def sse_start_def)

lemma drop_timeout_ok: "sse_ok w \<Longrightarrow> sse_ok (w\<lparr>timeouts := filter P (timeouts w)\<rparr>)"
  by (auto simp: sse_ok_def)

lemma on_event_ok: "sse_ok w \<Longrightarrow> sse_ok (on_event ev w)"
proof (cases ev)
  case (Connected p)
  assume "sse_ok w"
  then show ?thesis using Connected by (auto simp: sse_ok_def)
qed (simp_all add: sse_onerror_ok, simp_all add: sse_ok_def)

lemma sse_step_ok: "sse_step w i w' \<Longrightarrow> sse_ok w \<Longrightarrow> sse_ok w'"
proof (induction rule: sse_step.induct)
  case (timeout h w)
  then show ?case by (intro sse_connect_ok drop_timeout_ok)
qed (simp_all add: sse_connect_ok sse_disconnect_ok on_event_ok, simp_all add: sse_ok_def set_client_def)

lemma sse_run_ok: "sse_run w is w' \<Longrightarrow> sse_ok w \<Longrightarrow> sse_ok w'"
  by (induction rule: sse_run.induct) (auto dest: sse_step_ok)

section \<open>Reconnecting\<close>

fun is_error :: "'cb sse_input \<Rightarrow> bool" where
  "is_error (Delivered s ConnectionError) = True"
| "is_error _ = False"

fun resets_delay :: "'cb sse_input \<Rightarrow> bool" where
  "resets_delay (Delivered s (Connected (Some _))) = True"
| "resets_delay _ = False"

definition steady :: "nat \<Rightarrow> 'cb sse_world \<Rightarrow> bool" where
  "steady n w \<longleftrightarrow> sse_ok w \<and> reconnectDelay (client w) = backoff n \<and>
     (\<forall>t \<in> set (timeouts w). snd t = backoff n)"

lemma sse_step_steady:
  assumes "sse_step w i w'" "steady n w" "\<not> resets_delay i"
  shows "steady (n + of_bool (is_error i)) w'"
proof -
  have ok: "sse_ok w" "sse_ok w'" using assms by (auto simp: steady_def dest: sse_step_ok)
  have b: "min (backoff n * 2) 30000 = backoff (Suc n)" by (rule backoff_Suc)
  show ?thesis using assms(1)
  proof cases
    case (deliver s ev)
    show ?thesis
    proof (cases ev)
      case (Connected p)
      with deliver assms ok show ?thesis by (cases p) (auto simp: steady_def)
    next
      case ConnectionError
      with deliver assms ok sse_onerror_simps [OF ok(1)] b show ?thesis
        by (auto simp: steady_def)
    qed (use deliver assms ok in \<open>auto simp: steady_def\<close>)
  qed (use assms ok sse_disconnect_simps [OF ok(1)] in \<open>auto simp: steady_def set_client_def\<close>)
qed

lemma sse_run_steady:
  "sse_run w is w' \<Longrightarrow> steady n w \<Longrightarrow> list_all (\<lambda>i. \<not> resets_delay i) is \<Longrightarrow>
   steady (n + length (filter is_error is)) w'"
proof (induction "is" arbitrary: w n)
  case (Cons i "is")
  then obtain v where v: "sse_step w i v" "sse_run v is w'" by (auto simp: sse_run_Cons)
  have "steady (n + of_bool (is_error i)) v"
    by (rule sse_step_steady [OF v(1) Cons.prems(2)]) (use Cons.prems in simp)
  from Cons.IH [OF v(2) this] Cons.prems(3) show ?case by (cases "is_error i") auto
qed simp

text \<open>Nothing is open and nothing will be, until somebody connects.\<close>

definition quiet :: "'cb sse_world \<Rightarrow> bool" where
  "quiet w \<longleftrightarrow> sse_ok w \<and> open_sources w = [] \<and> timeouts w = []"

lemma sse_step_quiet: "sse_step w i w' \<Longrightarrow> quiet w \<Longrightarrow> i \<noteq> Connect \<Longrightarrow> quiet w'"
proof -
  assume s: "sse_step w i w'" and q: "quiet w" and i: "i \<noteq> Connect"
  have ok: "sse_ok w" "sse_ok w'" using s q by (auto simp: quiet_def dest: sse_step_ok)
  show "quiet w'" using s
    by cases (use q i ok sse_disconnect_simps [OF ok(1)] in \<open>auto simp: quiet_def set_client_def\<close>)
qed

lemma sse_run_quiet: "sse_run w is w' \<Longrightarrow> quiet w \<Longrightarrow> Connect \<notin> set is \<Longrightarrow> quiet w'"
  by (induction rule: sse_run.induct) (auto dest: sse_step_quiet)

text \<open>Once asked to connect, the client is connected or has a timer that will.\<close>

definition lively :: "'cb sse_world \<Rightarrow> bool" where
  "lively w \<longleftrightarrow> sse_ok w \<and> (open_sources w \<noteq> [] \<or> timeouts w \<noteq> [])"

lemma sse_connect_open: "sse_ok w \<Longrightarrow> open_sources (sse_connect w) \<noteq> []"
  by (auto simp: sse_ok_def sse_connect_def set_client_def Let_def)

lemma sse_step_lively:
  assumes s: "sse_step w i w'" and l: "lively w" and i: "i \<noteq> Disconnect"
  shows "lively w'"
proof -
  have ok: "sse_ok w" "sse_ok w'" using s l by (auto simp: lively_def dest: sse_step_ok)
  show ?thesis using s
  proof cases
    case (deliver s ev)
    with l ok sse_onerror_simps(4) [OF ok(1)] show ?thesis
      by (cases ev) (auto simp: lively_def)
  next
    case (timeout h)
    have "open_sources w' \<noteq> []"
      unfolding timeout by (intro sse_connect_open drop_timeout_ok ok)
    with ok show ?thesis by (simp add: lively_def)
  qed (use l i ok in \<open>auto simp: lively_def set_client_def sse_connect_open\<close>)
qed

lemma sse_run_lively: "sse_run w is w' \<Longrightarrow> lively w \<Longrightarrow> Disconnect \<notin> set is \<Longrightarrow> lively w'"
  by (induction rule: sse_run.induct) (auto dest: sse_step_lively)

section \<open>Properties\<close>

text \<open>
  C7. At any moment of any run from the initial client at most one event stream is open, and it is
  the one the client holds; at most one reconnect timer is pending, and it is the one
  \<open>disconnect\<close> clears; the delay stays between one second and thirty.
\<close>

theorem sse_single_stream:
  assumes "sse_run sse_start is w"
  shows "open_sources w = (case eventSource (client w) of Some h \<Rightarrow> [h] | None \<Rightarrow> []) \<and>
    (timeouts w = [] \<or> (\<exists>h d. reconnectTimer (client w) = Some h \<and> timeouts w = [(h, d)])) \<and>
    1000 \<le> reconnectDelay (client w) \<and> reconnectDelay (client w) \<le> 30000"
  using sse_run_ok [OF assms sse_start_ok] backoff_bounds unfolding sse_ok_def by metis

theorem sse_single_stream_witness:
  "\<exists>w. sse_run (sse_start :: nat sse_world) [Connect, Connect] w \<and> length (open_sources w) = 1 \<and>
     1000 \<le> reconnectDelay (client w)"
proof -
  let ?w = "sse_connect (sse_connect (sse_start :: nat sse_world))"
  have r: "sse_run (sse_start :: nat sse_world) [Connect, Connect] ?w"
    by (rule sse_run.more [OF sse_step.connect]) (rule sse_run.more [OF sse_step.connect sse_run.stop])
  have "length (open_sources ?w) = 1"
    by (simp add: sse_connect_def sse_start_def set_client_def Let_def)
  with r sse_single_stream [OF r] show ?thesis by blast
qed

text \<open>
  C5. Exponential back-off: from a fresh connection with no timer pending, after any run in which
  no \<open>connected\<close> message arrived, the pending reconnect timer (if any) and the next delay are
  \<open>min (1000 * 2 ^ n) 30000\<close> milliseconds, where \<open>n\<close> is the number of connection errors.
\<close>

theorem sse_backoff:
  assumes "sse_run sse_start pre w" "reconnectDelay (client w) = 1000" "timeouts w = []"
    and "sse_run w is w'" "list_all (\<lambda>i. \<not> resets_delay i) is"
  shows "reconnectDelay (client w') = min (1000 * 2 ^ length (filter is_error is)) 30000 \<and>
    (\<forall>t \<in> set (timeouts w'). snd t = min (1000 * 2 ^ length (filter is_error is)) 30000)"
proof -
  have "steady 0 w" using sse_run_ok [OF assms(1) sse_start_ok] assms(2,3) by (simp add: steady_def)
  from sse_run_steady [OF assms(4) this assms(5)] show ?thesis
    by (simp add: steady_def backoff_def)
qed

theorem sse_backoff_witness:
  "\<exists>w'. sse_run (sse_start :: nat sse_world)
      [Connect, Delivered 1 ConnectionError, TimeoutDue 2, Delivered 3 ConnectionError] w' \<and>
     reconnectDelay (client w') = 4000"
proof -
  let ?s = "sse_start :: nat sse_world"
  let ?is = "[Connect, Delivered 1 ConnectionError, TimeoutDue 2, Delivered 3 ConnectionError] :: nat sse_input list"
  define w1 where "w1 = sse_connect ?s"
  define w2 where "w2 = sse_onerror w1"
  define w3 where "w3 = sse_connect (w2\<lparr>timeouts := filter (\<lambda>t. fst t \<noteq> 2) (timeouts w2)\<rparr>)"
  note run_defs = w1_def w2_def w3_def sse_connect_def sse_onerror_def sse_disconnect_def
    clear_reconnect_def close_source_def set_client_def sse_start_def Let_def
  have "1 \<in> set (open_sources w1)" "2 \<in> fst ` set (timeouts w2)" "3 \<in> set (open_sources w3)"
    by (simp_all add: run_defs)
  then have "sse_step w1 (Delivered 1 ConnectionError) w2" "sse_step w2 (TimeoutDue 2) w3"
      "sse_step w3 (Delivered 3 ConnectionError) (sse_onerror w3)"
    using sse_step.deliver [of 1 w1 ConnectionError] sse_step.timeout [of 2 w2]
      sse_step.deliver [of 3 w3 ConnectionError] by (simp_all add: w2_def w3_def)
  moreover have "sse_step ?s Connect w1" unfolding w1_def by (rule sse_step.connect)
  ultimately have r: "sse_run ?s ?is (sse_onerror w3)" by (blast intro: sse_run.intros)
  have "reconnectDelay (client (sse_onerror w3)) = min (1000 * 2 ^ length (filter is_error ?is)) 30000"
    using sse_backoff [OF sse_run.stop _ _ r] by (simp add: sse_start_def)
  with r show ?thesis by auto
qed

text \<open>
  C8. After \<open>disconnect\<close> (the clean-up of \<open>App\<close>) nothing is open and no timer is pending, and it
  stays so through any later events until somebody calls \<open>connect\<close>: no stream comes back by itself.
\<close>

theorem sse_disconnect_final:
  assumes "sse_run sse_start (before @ Disconnect # after) w" "Connect \<notin> set after"
  shows "open_sources w = [] \<and> timeouts w = [] \<and> eventSource (client w) = None"
proof -
  obtain v where v: "sse_run sse_start before v" "sse_run v (Disconnect # after) w"
    using assms(1) sse_run_append by blast
  have ok: "sse_ok v" by (rule sse_run_ok [OF v(1) sse_start_ok])
  obtain u where u: "sse_step v Disconnect u" "sse_run u after w"
    using v(2) by (auto simp: sse_run_Cons)
  have "quiet u" using u(1)
    by cases (simp add: quiet_def sse_disconnect_simps [OF ok] sse_disconnect_ok [OF ok])
  from sse_run_quiet [OF u(2) this assms(2)] show ?thesis
    by (auto simp: quiet_def sse_ok_def split: option.splits)
qed

theorem sse_disconnect_final_witness:
  "\<exists>w. sse_run (sse_start :: nat sse_world) ([Connect] @ Disconnect # [On (JStr ''message:new'') 7]) w \<and>
     open_sources w = []"
proof -
  let ?r = "\<exists>w. sse_run (sse_start :: nat sse_world) ([Connect] @ Disconnect # [On (JStr ''message:new'') 7]) w"
  have ?r by (auto simp: sse_run_Cons intro: sse_step.intros)
  then obtain w where w: "sse_run (sse_start :: nat sse_world)
      ([Connect] @ Disconnect # [On (JStr ''message:new'') 7]) w" by blast
  with sse_disconnect_final [OF w] show ?thesis by auto
qed

text \<open>
  C6. Once \<open>connect\<close> was called, and until \<open>disconnect\<close> is, the client always has a stream open or a
  timer pending that opens one: it never gives up, whatever errors occur.
\<close>

theorem sse_never_gives_up:
  assumes "sse_run sse_start (before @ Connect # after) w" "Disconnect \<notin> set after"
  shows "(open_sources w \<noteq> [] \<or> timeouts w \<noteq> []) \<and>
    (\<forall>h \<in> fst ` set (timeouts w). \<exists>w'. sse_step w (TimeoutDue h) w' \<and> open_sources w' \<noteq> [])"
proof -
  obtain v where v: "sse_run sse_start before v" "sse_run v (Connect # after) w"
    using assms(1) sse_run_append by blast
  have ok: "sse_ok v" by (rule sse_run_ok [OF v(1) sse_start_ok])
  obtain u where u: "sse_step v Connect u" "sse_run u after w"
    using v(2) by (auto simp: sse_run_Cons)
  have "lively u" using u(1)
    by cases (simp add: lively_def sse_connect_ok [OF ok] sse_connect_open [OF ok])
  from sse_run_lively [OF u(2) this assms(2)] have l: "lively w" .
  then have okw: "sse_ok w" by (simp add: lively_def)
  have "\<exists>w'. sse_step w (TimeoutDue h) w' \<and> open_sources w' \<noteq> []" if h: "h \<in> fst ` set (timeouts w)" for h
    by (intro exI conjI, rule sse_step.timeout [OF h]) (intro sse_connect_open drop_timeout_ok okw)
  with l show ?thesis unfolding lively_def by blast
qed

theorem sse_never_gives_up_witness:
  "\<exists>w. sse_run (sse_start :: nat sse_world) ([] @ Connect # [Delivered 1 ConnectionError]) w \<and>
     (open_sources w \<noteq> [] \<or> timeouts w \<noteq> [])"
proof -
  have "1 \<in> set (open_sources (sse_connect (sse_start :: nat sse_world)))"
    by (simp add: sse_connect_def sse_start_def set_client_def Let_def)
  then have "\<exists>w. sse_run (sse_start :: nat sse_world) ([] @ Connect # [Delivered 1 ConnectionError]) w"
    unfolding append.simps by (blast intro: sse_run.intros sse_step.intros)
  then obtain w where w: "sse_run (sse_start :: nat sse_world) ([] @ Connect # [Delivered 1 ConnectionError]) w"
    by blast
  with sse_never_gives_up [OF w] show ?thesis by auto
qed

section \<open>Subscriptions\<close>

text \<open>
  Whom a message should call, read off the calls to \<open>on\<close> and to the functions it returned: the
  subscription made at \<open>i\<close> is in force when it was not revoked since, and when its subscriber was
  not subscribed already. The order is the one in which they subscribed.
\<close>

definition in_force :: "'cb sse_input list \<Rightarrow> jsval \<Rightarrow> nat \<Rightarrow> 'cb \<Rightarrow> bool" where
  "in_force is e i cb \<longleftrightarrow> is ! i = On e cb \<and> Off e cb \<notin> set (drop i is) \<and>
     (\<forall>j \<in> {0..<i}. is ! j = On e cb \<longrightarrow> Off e cb \<in> set (drop j (take i is)))"

definition subscribers :: "'cb sse_input list \<Rightarrow> jsval \<Rightarrow> 'cb list" where
  "subscribers is e = concat (map (\<lambda>i. case is ! i of
       On e' cb \<Rightarrow> if e' = e \<and> in_force is e i cb then [cb] else [] | _ \<Rightarrow> []) [0..<length is])"

lemma subscribers_iff: "cb \<in> set (subscribers is e) \<longleftrightarrow> (\<exists>i < length is. is ! i = On e cb \<and> Off e cb \<notin> set (drop i is))"
proof
  assume "cb \<in> set (subscribers is e)"
  then show "\<exists>i < length is. is ! i = On e cb \<and> Off e cb \<notin> set (drop i is)"
    by (fastforce simp: subscribers_def in_force_def split: sse_input.splits if_splits)
next
  let ?P = "\<lambda>i. i < length is \<and> is ! i = On e cb \<and> Off e cb \<notin> set (drop i is)"
  assume "\<exists>i < length is. is ! i = On e cb \<and> Off e cb \<notin> set (drop i is)"
  then obtain i where i: "?P i" "\<And>j. j < i \<Longrightarrow> \<not> ?P j" using exists_least_iff [of ?P] by blast
  have "Off e cb \<in> set (drop j (take i is))" if "j < i" "is ! j = On e cb" for j
  proof -
    have "Off e cb \<in> set (drop j is)" using i(2) [OF that(1)] that i(1) by auto
    moreover have "drop j is = drop j (take i is) @ drop i is"
      using that(1) i(1) by (metis append_take_drop_id drop_append diff_is_0_eq drop0 length_take less_imp_le_nat min.absorb4)
    ultimately show ?thesis using i(1) by auto
  qed
  with i(1) have "in_force is e i cb" by (auto simp: in_force_def)
  with i(1) show "cb \<in> set (subscribers is e)"
    by (auto simp: subscribers_def intro!: bexI [of _ i])
qed

lemma in_force_snoc:
  assumes "i < length is"
  shows "in_force (is @ [x]) e i cb \<longleftrightarrow> in_force is e i cb \<and> x \<noteq> Off e cb"
proof -
  have "(is @ [x]) ! j = is ! j" "take i (is @ [x]) = take i is" if "j \<le> i" for j
    using that assms by (simp_all add: nth_append)
  then show ?thesis using assms by (auto simp: in_force_def)
qed

lemma subscribers_snoc:
  "subscribers (is @ [x]) e =
     (case x of On e' cb \<Rightarrow> if e' = e \<and> cb \<notin> set (subscribers is e) then subscribers is e @ [cb] else subscribers is e
      | Off e' cb \<Rightarrow> if e' = e then filter (\<lambda>c. c \<noteq> cb) (subscribers is e) else subscribers is e
      | _ \<Rightarrow> subscribers is e)"
proof -
  let ?f = "\<lambda>is i. case is ! i of On e' cb \<Rightarrow> if e' = e \<and> in_force is e i cb then [cb] else [] | _ \<Rightarrow> []"
  have old: "?f (is @ [x]) i = filter (\<lambda>c. Off e c \<noteq> x) (?f is i)" if "i < length is" for i
    using that by (auto simp: nth_append in_force_snoc split: sse_input.split)
  have "subscribers (is @ [x]) e = filter (\<lambda>c. Off e c \<noteq> x) (subscribers is e) @ ?f (is @ [x]) (length is)"
  proof -
    have "map (?f (is @ [x])) [0..<length is] = map (\<lambda>i. filter (\<lambda>c. Off e c \<noteq> x) (?f is i)) [0..<length is]"
      by (rule map_cong [OF refl]) (simp only: old set_upt atLeastLessThan_iff)
    from arg_cong [OF this, of concat] show ?thesis unfolding subscribers_def
      by (simp add: filter_concat comp_def del: map_eq_conv)
  qed
  moreover have "in_force (is @ [On e cb]) e (length is) cb \<longleftrightarrow> cb \<notin> set (subscribers is e)" for cb
    by (auto simp: subscribers_iff in_force_def nth_append)
  ultimately show ?thesis by (cases x) (auto intro: filter_True)
qed

text \<open>The client's own bookkeeping comes to the same, when no subscriber subscribes while it is called.\<close>

fun calm :: "'cb sse_input \<Rightarrow> bool" where
  "calm (Delivered s (Message p rs)) = list_all (\<lambda>r. fst r = []) rs"
| "calm _ = True"

lemma on_message_calm:
  "list_all (\<lambda>r. fst r = []) rs \<Longrightarrow> listeners_of (client (on_message p rs w)) = listeners_of (client w)"
  by (auto simp: on_message_def emit_def set_client_def dispatch_calm split: option.split)

lemma sse_step_subscribers:
  assumes "sse_step w i w'" "sse_ok w" "calm i" "\<forall>e. sse_subscribed (listeners_of (client w)) e = subscribers is e"
  shows "sse_subscribed (listeners_of (client w')) e = subscribers (is @ [i]) e"
  using assms(1)
proof cases
  case (deliver s ev)
  have "listeners_of (client w') = listeners_of (client w)"
    using deliver assms(2,3) by (cases ev) (simp_all add: sse_onerror_simps on_message_calm)
  with deliver assms(4) show ?thesis by (simp add: subscribers_snoc)
qed (use assms(2-4) in \<open>auto simp: subscribers_snoc set_client_def sse_disconnect_simps sse_subscribed_on
      sse_subscribed_off set_add_def set_delete_def\<close>)

lemma sse_run_subscribers:
  assumes "sse_run w is w'" "sse_ok w" "list_all calm is"
    "\<forall>e. sse_subscribed (listeners_of (client w)) e = subscribers past e"
  shows "sse_subscribed (listeners_of (client w')) e = subscribers (past @ is) e"
  using assms
proof (induction arbitrary: past rule: sse_run.induct)
  case (more w i w' "is" w'')
  have "\<forall>e. sse_subscribed (listeners_of (client w')) e = subscribers (past @ [i]) e"
    using more.prems sse_step_subscribers [OF more(1)] by simp
  with more.IH [of "past @ [i]"] more.prems sse_step_ok [OF more(1)] show ?case by simp
qed simp

text \<open>
  C10. Subscriptions: in any run from the initial client in which no subscriber subscribes or unsubscribes
  while it is being called, a message of type \<open>t\<close> calls with its payload the subscribers whose
  subscription to \<open>t\<close> is in force, once each and in the order they subscribed, up to the first one that
  throws, all of them when none does. A message that does not parse, or is \<open>null\<close>, calls nobody and
  changes nothing.
\<close>

theorem sse_dispatch:
  assumes "sse_run sse_start is w" "list_all calm is" "list_all (\<lambda>r. fst r = []) rs"
  shows "distinct (subscribers is (js_prop (JObj kvs) ''type'')) \<and>
    called (on_message (Some (JObj kvs)) rs w) = called w @
      map (\<lambda>cb. (cb, js_prop (JObj kvs) ''payload'')) (until_throw rs (subscribers is (js_prop (JObj kvs) ''type''))) \<and>
    on_message None rs w = w \<and> on_message (Some Null) rs w = w"
proof -
  have s: "sse_subscribed (listeners_of (client w)) e = subscribers is e" for e
    using sse_run_subscribers [OF assms(1) sse_start_ok assms(2), of "[]" e]
    by (simp add: sse_start_def subscribers_def)
  have "distinct (subscribers is e)" for e
    by (induction "is" rule: rev_induct) (auto simp: subscribers_snoc subscribers_def [of "[]"] split: sse_input.split)
  then show ?thesis using assms(3)
    by (simp add: on_message_def emit_def set_client_def dispatch_calm s)
qed

theorem sse_dispatch_witness:
  "\<exists>w. sse_run (sse_start :: nat sse_world) [On (JStr ''message:new'') 7, On (JStr ''message:new'') 8,
      On (JStr ''message:new'') 9, Off (JStr ''message:new'') 7, On (JStr ''message:new'') 7] w \<and>
     called (on_message (Some (JObj [(''type'', JStr ''message:new''), (''payload'', JNum 1)])) [([], False), ([], True)] w)
       = called w @ [(8, JNum 1), (9, JNum 1)]"
proof -
  let ?t = "JStr ''message:new''"
  let ?is = "[On ?t 7, On ?t 8, On ?t 9, Off ?t 7, On ?t 7] :: nat sse_input list"
  let ?kvs = "[(''type'', ?t), (''payload'', JNum 1)]" and ?rs = "[([], False), ([], True)] :: nat reaction list"
  obtain w where w: "sse_run (sse_start :: nat sse_world) ?is w"
    by (meson sse_run.intros sse_step.intros)
  have "subscribers ?is ?t = [8, 9, 7]"
    using subscribers_snoc [of "[On ?t 7, On ?t 8, On ?t 9, Off ?t 7]" "On ?t (7::nat)" ?t]
      subscribers_snoc [of "[On ?t 7, On ?t 8, On ?t 9]" "Off ?t (7::nat)" ?t]
      subscribers_snoc [of "[On ?t 7, On ?t 8]" "On ?t (9::nat)" ?t]
      subscribers_snoc [of "[On ?t 7]" "On ?t (8::nat)" ?t] subscribers_snoc [of "[]" "On ?t (7::nat)" ?t]
    by (simp add: subscribers_def [of "[]"])
  with w sse_dispatch [OF w, of ?rs ?kvs] show ?thesis by auto
qed

end
