(* ===== verification/Session.thy ===== *)
theory Session imports App Sse begin

text \<open>
  \<open>App.jsx\<close> and \<open>sse.js\<close> together: the application drives the event stream of the tab through the calls
  \<open>sse.connect()\<close> and \<open>sse.disconnect()\<close>, which are effects in \<open>App\<close> and operations in \<open>Sse\<close>, while
  the browser delivers events and timeouts to the stream in between.
\<close>

section \<open>The two together\<close>

fun stream_effect :: "effect \<Rightarrow> 'cb sse_world \<Rightarrow> 'cb sse_world" where
  "stream_effect SseConnect w = sse_connect w"
| "stream_effect SseDisconnect w = sse_disconnect w"
| "stream_effect _ w = w"

text \<open>The effects a step of the application adds, applied to the stream.\<close>

definition stream_after :: "app_state config \<Rightarrow> app_state config \<Rightarrow> 'cb sse_world \<Rightarrow> 'cb sse_world" where
  "stream_after a a' w = fold stream_effect (drop (length (effects a)) (effects a')) w"

text \<open>Every interleaving, with the inputs the application has had.\<close>

inductive session :: "app_event input list \<Rightarrow> app_state config \<Rightarrow> 'cb sse_world \<Rightarrow> bool" where
  fresh: "session [] (boot App ck path) sse_start"
| app: "session past a w \<Longrightarrow> step App a i = Some a' \<Longrightarrow> session (past @ [i]) a' (stream_after a a' w)"
| stream: "session past a w \<Longrightarrow> sse_step w i w' \<Longrightarrow> i \<noteq> Connect \<Longrightarrow> i \<noteq> Disconnect \<Longrightarrow> session past a w'"

section \<open>When there should be a stream\<close>

text \<open>
  Signing in: the login form hands over a user, or the server's answer to the one request of \<open>App\<close>,
  \<open>getMe\<close>, has a user to read.
\<close>

fun sign_in :: "app_event input \<Rightarrow> bool" where
  "sign_in (UserDo (AppLoggedIn u)) = True"
| "sign_in (Answer j (Resolved res)) = (res_field ''user'' res \<noteq> None)"
| "sign_in _ = False"

text \<open>A stream is wanted when somebody signed in and the application was not left since.\<close>

definition wanted :: "app_event input list \<Rightarrow> bool" where
  "wanted past \<longleftrightarrow> (\<exists>k < length past. sign_in (past ! k) \<and> Unmount \<notin> set (drop k past))"

lemma wanted_Nil [simp]: "\<not> wanted []"
  by (simp add: wanted_def)

lemma wanted_snoc: "wanted (past @ [i]) \<longleftrightarrow> sign_in i \<or> wanted past \<and> i \<noteq> Unmount"
proof -
  let ?Q = "\<lambda>k. sign_in ((past @ [i]) ! k) \<and> Unmount \<notin> set (drop k (past @ [i]))"
  have old: "?Q k \<longleftrightarrow> sign_in (past ! k) \<and> Unmount \<notin> set (drop k past) \<and> i \<noteq> Unmount" if "k < length past" for k
    using that by (auto simp: nth_append)
  have ex: "(\<exists>k < Suc n. P k) \<longleftrightarrow> P n \<or> (\<exists>k < n. P k)" for n P
    by (auto simp: less_Suc_eq)
  have "?Q (length past) \<longleftrightarrow> sign_in i" by (cases i) auto
  then have "wanted (past @ [i]) \<longleftrightarrow> sign_in i \<or> (\<exists>k < length past. ?Q k)"
    unfolding wanted_def length_append_singleton ex [of "length past" ?Q] by simp
  also have "(\<exists>k < length past. ?Q k) \<longleftrightarrow> wanted past \<and> i \<noteq> Unmount"
    unfolding wanted_def using old by blast
  finally show ?thesis .
qed

section \<open>What the application asks of the stream\<close>

definition app_ok :: "app_state config \<Rightarrow> bool" where
  "app_ok a \<longleftrightarrow> rendered a \<noteq> None \<and> timers a = [] \<and> (\<forall>(q, k) \<in> set (pend a). k = app_answer)"

lemma app_ok_settle: "app_ok a \<Longrightarrow> mounted a \<Longrightarrow> app_ok (settle commit_limit App a)"
  by (simp add: app_ok_def app_settle)

lemma exec_app_answer:
  "exec (app_answer r) a = (case (case r of Resolved res \<Rightarrow> res_field ''user'' res | Rejected _ \<Rightarrow> None) of
     Some u \<Rightarrow> (if mounted a then a\<lparr>st := (st a)\<lparr>app_user := u, app_loading := False\<rparr>\<rparr> else a)
       \<lparr>effects := effects a @ [SseConnect]\<rparr>
   | None \<Rightarrow> (if mounted a then a\<lparr>st := (st a)\<lparr>app_user := Null, app_loading := False\<rparr>\<rparr> else a))"
  by (auto simp: app_answer_def Let_def split: option.split)

lemma unmounted_settle: "\<not> mounted a \<Longrightarrow> settle commit_limit App a = a"
  by (simp add: commit_limit_def eval_nat_numeral)

lemma sign_in_answer:
  "sign_in (Answer j r) \<longleftrightarrow> (case r of Resolved res \<Rightarrow> res_field ''user'' res | Rejected _ \<Rightarrow> None) \<noteq> None"
  by (cases r) auto

text \<open>
  A step adds effects: it connects exactly when somebody signs in, and disconnects exactly when the
  application is left.
\<close>

definition asks_stream :: "app_event input \<Rightarrow> app_state config \<Rightarrow> app_state config \<Rightarrow> bool" where
  "asks_stream i a a' \<longleftrightarrow> (\<exists>new. effects a' = effects a @ new \<and>
     (SseConnect \<in> set new \<longleftrightarrow> sign_in i) \<and> (SseDisconnect \<in> set new \<longleftrightarrow> i = Unmount)) \<and>
   (mounted a' \<longrightarrow> mounted a \<and> i \<noteq> Unmount \<and>
     (truthy (app_user (st a')) \<longrightarrow> sign_in i \<or> truthy (app_user (st a))))"

lemma app_step:
  assumes "app_ok a" "step App a i = Some a'"
  shows "app_ok a' \<and> asks_stream i a a'"
proof (cases i)
  case (UserDo e)
  obtain u where u: "e = AppLoggedIn u" by (cases e)
  have m: "mounted a" using assms(2) UserDo by (auto split: if_splits)
  then have "a' = a\<lparr>st := (st a)\<lparr>app_user := u\<rparr>, effects := effects a @ [SseConnect],
      rendered := Some ((st a)\<lparr>app_user := u\<rparr>)\<rparr>"
    using assms UserDo u by (auto simp: app_ok_def app_settle split: if_splits)
  then show ?thesis using assms(1) m UserDo u by (auto simp: app_ok_def asks_stream_def)
next
  case (Answer j r)
  then have j: "j < length (pend a)" and a': "a' = settle commit_limit App (answer j r a)"
    using assms(2) by (auto split: if_splits)
  have k: "snd (pend a ! j) = app_answer" using assms(1) nth_mem [OF j] by (cases "pend a ! j") (auto simp: app_ok_def)
  have p: "\<forall>(q, k) \<in> set (remove_nth j (pend a)). k = app_answer"
    using assms(1) by (auto simp: app_ok_def dest: in_set_remove_nthD)
  have int: "SseDisconnect \<notin> set (response_interceptor (pathname a) r)"
      "SseConnect \<notin> set (response_interceptor (pathname a) r)" by (auto dest: response_interceptor_set)
  let ?b = "a\<lparr>pend := remove_nth j (pend a), effects := effects a @ response_interceptor (pathname a) r\<rparr>"
  let ?c = "exec (app_answer r) ?b"
  have ans: "answer j r a = ?c" by (simp add: answer_def k)
  have b: "app_ok ?c" "asks_stream i a ?c"
    using assms(1) p int unfolding exec_app_answer asks_stream_def Answer sign_in_answer
    by (auto simp: app_ok_def split: option.split)
  show ?thesis
  proof (cases "mounted a")
    case True
    then have "a' = ?c\<lparr>rendered := Some (st ?c)\<rparr>"
      using b unfolding a' ans by (subst app_settle) (simp_all add: app_ok_def)
    with b show ?thesis by (simp add: app_ok_def asks_stream_def)
  next
    case False
    then have "a' = ?c" unfolding a' ans by (intro unmounted_settle) simp
    with b show ?thesis by simp
  qed
next
  case (TimerDue h)
  then show ?thesis using assms by (simp add: app_ok_def)
next
  case (CookieIs ck)
  then show ?thesis using assms by (auto simp: app_ok_def asks_stream_def)
next
  case Unmount
  then show ?thesis using assms by (auto simp: app_ok_def asks_stream_def split: if_splits)
qed

section \<open>What the stream makes of it\<close>

lemma stream_effect_ok: "sse_ok w \<Longrightarrow> sse_ok (stream_effect e w)"
  by (cases e) (simp_all add: sse_connect_ok sse_disconnect_ok)

lemma stream_effects_ok: "sse_ok w \<Longrightarrow> sse_ok (fold stream_effect es w)"
  by (induction es arbitrary: w) (simp_all add: stream_effect_ok)

lemma connect_lively: "sse_ok w \<Longrightarrow> lively (sse_connect w)"
  by (simp add: lively_def sse_connect_ok sse_connect_open)

lemma stream_effects_lively:
  assumes "sse_ok w" "SseDisconnect \<notin> set es" "lively w \<or> SseConnect \<in> set es"
  shows "lively (fold stream_effect es w)"
  using assms
proof (induction es arbitrary: w)
  case (Cons e es)
  show ?case
  proof (cases "e = SseConnect")
    case True
    then show ?thesis using Cons.IH [of "sse_connect w"] Cons.prems connect_lively [of w]
      by (simp add: sse_connect_ok)
  next
    case False
    then have "stream_effect e w = w" using Cons.prems(2) by (cases e) auto
    then show ?thesis using Cons.IH [of w] Cons.prems False by auto
  qed
qed simp

lemma stream_effects_none:
  "SseConnect \<notin> set es \<Longrightarrow> SseDisconnect \<notin> set es \<Longrightarrow> fold stream_effect es w = w"
proof (induction es)
  case (Cons e es)
  then have "stream_effect e w = w" by (cases e) auto
  with Cons show ?case by simp
qed simp

lemma stream_effects_quiet:
  assumes "sse_ok w" "SseConnect \<notin> set es" "quiet w \<or> SseDisconnect \<in> set es"
  shows "quiet (fold stream_effect es w)"
  using assms
proof (induction es arbitrary: w)
  case (Cons e es)
  have q: "quiet (sse_disconnect v)" if "sse_ok v" for v :: "'a sse_world"
    using that by (simp add: quiet_def sse_disconnect_simps sse_disconnect_ok)
  show ?case
  proof (cases "e = SseDisconnect")
    case True
    then show ?thesis using Cons.IH [of "sse_disconnect w"] Cons.prems q [of w] by (simp add: sse_disconnect_ok)
  next
    case False
    then have "stream_effect e w = w" using Cons.prems(2) by (cases e) auto
    then show ?thesis using Cons.IH [of w] Cons.prems False by auto
  qed
qed simp

definition session_ok :: "app_event input list \<Rightarrow> app_state config \<Rightarrow> 'cb sse_world \<Rightarrow> bool" where
  "session_ok past a w \<longleftrightarrow> app_ok a \<and> sse_ok w \<and> (if wanted past then lively w else quiet w) \<and>
     (mounted a \<and> truthy (app_user (st a)) \<longrightarrow> wanted past)"

lemma session_app:
  assumes "session_ok past a w" "step App a i = Some a'"
  shows "session_ok (past @ [i]) a' (stream_after a a' w)"
proof -
  have ok: "app_ok a'" "asks_stream i a a'" using app_step [of a i a'] assms by (auto simp: session_ok_def)
  then obtain new where new: "effects a' = effects a @ new" "SseConnect \<in> set new \<longleftrightarrow> sign_in i"
      "SseDisconnect \<in> set new \<longleftrightarrow> i = Unmount"
    by (auto simp: asks_stream_def)
  have w: "sse_ok w" using assms(1) by (simp add: session_ok_def)
  have w': "stream_after a a' w = fold stream_effect new w" by (simp add: stream_after_def new(1))
  have "if wanted (past @ [i]) then lively (fold stream_effect new w) else quiet (fold stream_effect new w)"
    using assms(1) new(2,3) stream_effects_lively [OF w, of new] stream_effects_quiet [OF w, of new]
    by (cases i) (auto simp: wanted_snoc session_ok_def split: if_splits)
  with assms(1) ok stream_effects_ok [OF w] show ?thesis
    by (auto simp: session_ok_def asks_stream_def w' wanted_snoc)
qed

lemma session_invariant: "session past a w \<Longrightarrow> session_ok past a w"
proof (induction rule: session.induct)
  case (fresh ck path)
  have "quiet sse_start" using sse_start_ok by (simp add: quiet_def, simp add: sse_start_def)
  then show ?case unfolding app_boot
    by (simp add: session_ok_def app_ok_def sse_start_ok mount_config_def app_initial_def)
next
  case (app past a w i a')
  then show ?case by (blast intro: session_app)
next
  case (stream past a w i w')
  then show ?case
    using sse_step_ok [OF stream(2)] sse_step_lively [OF stream(2)] sse_step_quiet [OF stream(2)]
    by (auto simp: session_ok_def)
qed

section \<open>Properties\<close>


text \<open>
  The answer of \<open>getMe\<close> is not cancelled when the application is left: it opens a stream that nobody
  will close.
\<close>

lemma session_leak:
  "\<exists>past a (w :: 'cb sse_world). session past a w \<and> \<not> mounted a \<and> pend a = [] \<and> open_sources w \<noteq> []"
proof -
  let ?r = "Resolved (JObj [(''data'', JObj [(''user'', JObj [])])])"
  let ?a = "boot App [] ''/''"
  obtain a1 where a1: "step App ?a Unmount = Some a1" "mounted a1 = False" "pend a1 = pend ?a"
    by (simp add: app_boot mount_config_def)
  have u: "res_field ''user'' (JObj [(''data'', JObj [(''user'', JObj [])])]) = Some (JObj [])"
    by (simp add: res_field_def)
  have "step App a1 (Answer 0 ?r) \<noteq> None" using a1 by (simp add: app_boot)
  then obtain a2 where a2: "step App a1 (Answer 0 ?r) = Some a2" by auto
  have s1: "session ([] @ [Unmount]) a1 (stream_after ?a a1 (sse_start :: 'cb sse_world))"
    by (rule session.app [OF session.fresh a1(1)])
  then have s2: "session (([] @ [Unmount]) @ [Answer 0 ?r]) a2
      (stream_after a1 a2 (stream_after ?a a1 (sse_start :: 'cb sse_world)))"
    by (rule session.app [OF _ a2])
  have e: "a2 = exec (app_answer ?r) (a1\<lparr>pend := []\<rparr>)"
    using a2 a1 by (auto simp: answer_def app_boot response_interceptor_def unmounted_settle split: if_splits)
  then have "effects a2 = effects a1 @ [SseConnect]" "\<not> mounted a2" "pend a2 = []"
    using a1(2) u by (simp_all add: exec_app_answer)
  moreover have "sse_ok (stream_after ?a a1 (sse_start :: 'cb sse_world))"
    using session_invariant [OF s1] by (simp add: session_ok_def)
  ultimately have "open_sources (stream_after a1 a2 (stream_after ?a a1 (sse_start :: 'cb sse_world))) \<noteq> []"
    using sse_connect_open by (simp add: stream_after_def [of a1])
  with s2 \<open>\<not> mounted a2\<close> \<open>pend a2 = []\<close> show ?thesis by blast
qed


end
