(* ===== verification/Spec2Isabelle.thy ===== *)
theory Spec2Isabelle
  imports Admin_Flows Calendar Compose_Autosave Contacts Inbox Layout Login MessageView Rich_Editor Session
begin

text \<open>
  The web front end of go-postnest (\<open>web/src\<close>): a React application of one page that reads and writes
  mail, contacts and calendar events and administers the server through its HTTP interface.

  The parts and how they interact. \<open>App.jsx\<close> asks who is signed in and shows either the sign-in form
  (\<open>components/Login.jsx\<close>) or the frame (\<open>components/Layout.jsx\<close>) around one page: \<open>Inbox\<close>, \<open>MessageView\<close>,
  \<open>Compose\<close> with its \<open>RichEditor\<close>, \<open>Contacts\<close>, \<open>Calendar\<close>, \<open>Admin\<close>. Every page talks to the server through the
  functions of \<open>api.js\<close>, which share one axios instance with two interceptors. \<open>sse.js\<close> holds one event
  stream per tab; \<open>App\<close> opens and closes it, \<open>Inbox\<close> subscribes to it.

  \<^bold>\<open>The language and the platform.\<close>
  \<^item> \<open>Prelude\<close>: collections of rules, lemmas on lists and options.
  \<^item> \<open>Js_Value\<close>: JavaScript values and operators; \<open>None\<close> is the exception of a \<open>TypeError\<close>.
  \<^item> \<open>Js_RegExp\<close>: the backtracking matcher for the two regular expressions of the code.
  \<^item> \<open>Js_Uri\<close>: percent-encoding, \<open>URLSearchParams\<close>.
  \<^item> \<open>Ui\<close>: what a component renders, and which events the user can raise on it.
  \<^item> \<open>Reactor\<close>: handlers as programs, configurations, steps, reachable configurations.

  \<^bold>\<open>Contracts shared by components\<close>, as locales interpreted on the components.
  \<^item> \<open>Reactor.disciplined\<close>: which requests and effects a component may ever issue (\<open>Inbox\<close>, \<open>MessageView\<close>,
    \<open>Admin\<close>);
  \<^item> \<open>Busy_Flag.busy_flag\<close>: a spinner or lock that is on is owned by a request or an interval that will
    switch it off (all pages that have one);
  \<^item> \<open>Debounce.debounced\<close>: an effect that re-arms one timer (the autosave of \<open>Compose\<close>).

  \<^bold>\<open>The components\<close>, each with its state as a record, one definition per function of the source, and its
  view.
  \<^item> \<open>Http\<close>, \<open>Api\<close>, \<open>Recipients\<close>: \<open>web/src/api.js\<close>. The token of the CSRF cookie reaches every mutating
    request unchanged; the query of \<open>getMessages\<close> decodes to the parameters; \<open>parseRecipients\<close> equals a direct
    scanner, and recipients of a stored draft without separators survive being shown and parsed again.
  \<^item> \<open>Sse\<close>: \<open>web/src/sse.js\<close>. At most one stream, never given up before \<open>disconnect\<close>, bounded back-off,
    dispatch to exactly the subscribers of a type, read off the history of subscriptions, up to the first
    that throws.
  \<^item> \<open>App\<close>, \<open>Login\<close>, \<open>Layout\<close>: who sees what; outcomes of sign-in and sign-out; navigation and search.
  \<^item> \<open>Session\<close>: \<open>App\<close> and \<open>Sse\<close> run together, in every interleaving and with the history of what the application
    was given: a stream is open or pending exactly when somebody signed in and the page was not left since.
  \<^item> \<open>Inbox\<close>, \<open>MessageView\<close>: the requests they send in any run, batches and paging, the sandbox around
    HTML mail, deletion and stars only as the server confirms them.
  \<^item> \<open>Compose\<close>, \<open>Compose_Autosave\<close>, \<open>Rich_Editor\<close>: save before send, leave only after the send, one pending
    autosave with the content on the screen, uploads in order, with and without an open draft, and the editor
    shows the parent's value.
  \<^item> \<open>Contacts\<close>, \<open>Calendar\<close>: outcomes of saving, round trips of editing, the filter, the month grid.
  \<^item> \<open>Admin_State\<close>, \<open>Admin_Domains\<close>, \<open>Admin_Users\<close>, \<open>Admin_Tls\<close>, \<open>Admin_Security\<close>, \<open>Admin\<close>, \<open>Admin_Flows\<close>: the
    administration page by tab; where passwords may be sent, the lock of the certificates tab,
    \<open>Promise.all\<close>, the polling of a renewal, users and settings.

  \<^bold>\<open>How the code is read.\<close> A step of the model is one user action, one answer to a request (in any order,
  with any content), one timer falling due, or unmounting; each runs to completion, then the component
  renders and its effects run until the state is stable. React stops after 50 nested updates, and
  \<open>commit_limit\<close> is that bound; the effects of this code settle after at most two commits, which the
  proofs about single actions show by computing them. A handler sees the state of the render that
  created it, so stale closures are in the model. An answer to \<open>confirm\<close> is part of the event. Time
  passes only through timers, which may fall due at any moment.

  \<^bold>\<open>Bounds.\<close> Strings are lists of code units below 256, numbers are integers. The dashes, arrows and
  ellipses the pages show are plain ASCII characters here, and placeholder texts and styles are left
  out of the views. \<open>Calendar.days_from\<close> is partial; \<open>Calendar.calendar_grid\<close> shows that it returns.

  \<^bold>\<open>Parameters.\<close> What is not under \<open>web/src\<close> is an argument or an answer: axios (a reply is any value or
  error), \<open>date-fns\<close> and the time zone (\<open>Calendar.cal_env\<close>, with the documented laws \<open>date_laws\<close> where
  they are needed, and an instance for UTC), DOMPurify, the text content of a parsed HTML document,
  \<open>toLocaleString\<close>, the tiptap editor (that \<open>setContent\<close> reports its update is the behaviour of the version in
  \<open>web/package-lock.json\<close>), and React Router, which decides paths and parameters. What a subscriber of
  the event stream does when it is called, which may be to subscribe, to unsubscribe or to throw, is part of
  the message that calls it.

  \<^bold>\<open>Not modelled.\<close> The Go server under \<open>cmd\<close> and \<open>internal\<close>; the built bundle under
  \<open>internal/webui/dist\<close>, which is output of the build of these sources; \<open>main.jsx\<close>, which only mounts
  \<open>App\<close>; tests and build configuration.
\<close>

end
